(* ===== verification/Prelude.thy ===== *)
theory Prelude
  imports Main "HOL-Library.Word"
begin

text \<open>
  Shared vocabulary of the development.

  A Rust function that may fail with an error of type \<open>'e\<close>, may panic, and mutates a
  state of type \<open>'s\<close> through \<open>&mut\<close> is a function of type \<open>('s, 'e, 'a) rust\<close>:
  it takes the state and returns the outcome together with the state as it is left behind,
  also on the error paths.  \<open>bnd\<close> is sequencing with Rust's \<open>?\<close> operator.
  The byte-buffer operations are those the source calls on \<open>bytes::Buf\<close>; each of them
  panics when the buffer is too short, as the documentation of that trait says.
  A Rust \<open>String\<close> is the list of its UTF-8 bytes, read as HOL characters.
\<close>

named_theorems rust_defs \<open>the sequencing operators of the result-and-state monad\<close>
named_theorems buf_defs \<open>definitions of the byte-buffer operations\<close>
named_theorems consumes_rules \<open>readers that leave a suffix of their input\<close>
named_theorems law_defs \<open>the documented laws of the code outside the repository\<close>

section \<open>Machine integers, bytes and text\<close>

type_synonym byte = "8 word"
type_synonym bytes = "8 word list"
type_synonym u16 = "16 word"
type_synonym u64 = "64 word"

definition byte_of_char :: "char \<Rightarrow> byte" where
  "byte_of_char c = word_of_nat (of_char c)"

definition char_of_byte :: "byte \<Rightarrow> char" where
  "char_of_byte b = char_of (unat b)"

lemma char_of_byte_of_char [simp]: "char_of_byte (byte_of_char c) = c"
proof -
  have "(of_char c :: nat) < 256"
    by (rule nat_of_char_less_256)
  then show ?thesis
    by (simp add: char_of_byte_def byte_of_char_def unat_of_nat)
qed

lemma byte_of_char_of_byte [simp]: "byte_of_char (char_of_byte b) = b"
proof -
  have "unat b < 256"
    using unsigned_less [of b] by simp
  then show ?thesis
    by (simp add: char_of_byte_def byte_of_char_def)
qed

text \<open>\<open>str::as_bytes\<close> and the inverse reading of bytes known to be valid text.\<close>

definition as_bytes :: "string \<Rightarrow> bytes" where
  "as_bytes s = map byte_of_char s"

definition text_of_bytes :: "bytes \<Rightarrow> string" where
  "text_of_bytes bs = map char_of_byte bs"

lemma text_of_as_bytes [simp]: "text_of_bytes (as_bytes s) = s"
  by (induction s) (simp_all add: as_bytes_def text_of_bytes_def)

lemma as_bytes_of_text [simp]: "as_bytes (text_of_bytes bs) = bs"
  by (induction bs) (simp_all add: as_bytes_def text_of_bytes_def)

lemma length_as_bytes [simp]: "length (as_bytes s) = length s"
  by (simp add: as_bytes_def)

text \<open>Decimal rendering of an unsigned integer, as \<open>format!("{}", n)\<close> writes it.\<close>

fun dec :: "nat \<Rightarrow> string" where
  "dec n = (if n < 10 then [char_of (48 + n)] else dec (n div 10) @ [char_of (48 + n mod 10)])"

declare dec.simps [simp del]

lemma dec_nonempty: "dec n \<noteq> []"
  by (subst dec.simps) simp

text \<open>Debug rendering of a byte slice: \<open>[95, 95, 80]\<close>.\<close>

fun join_text :: "string \<Rightarrow> string list \<Rightarrow> string" where
  "join_text sep [] = []"
| "join_text sep [x] = x"
| "join_text sep (x # y # ys) = x @ sep @ join_text sep (y # ys)"

definition debug_bytes :: "bytes \<Rightarrow> string" where
  "debug_bytes bs = ''['' @ join_text '', '' (map (\<lambda>b. dec (unat b)) bs) @ '']''"

section \<open>Results, panics and state\<close>

datatype 'e failure = Err 'e | Panic

type_synonym ('s, 'e, 'a) rust = "'s \<Rightarrow> ('e failure + 'a) \<times> 's"

definition ret :: "'a \<Rightarrow> ('s, 'e, 'a) rust" where
  "ret a = (\<lambda>s. (Inr a, s))"

definition throw :: "'e \<Rightarrow> ('s, 'e, 'a) rust" where
  "throw e = (\<lambda>s. (Inl (Err e), s))"

definition panic :: "('s, 'e, 'a) rust" where
  "panic = (\<lambda>s. (Inl Panic, s))"

definition bnd :: "('s, 'e, 'a) rust \<Rightarrow> ('a \<Rightarrow> ('s, 'e, 'b) rust) \<Rightarrow> ('s, 'e, 'b) rust" where
  "bnd m f = (\<lambda>s. case m s of (Inl x, s') \<Rightarrow> (Inl x, s') | (Inr a, s') \<Rightarrow> f a s')"

text \<open>\<open>?\<close> on a value of type \<open>Result\<close>, with the \<open>From\<close> conversion of its error.\<close>

definition try_res :: "('x \<Rightarrow> 'e) \<Rightarrow> 'x + 'a \<Rightarrow> ('s, 'e, 'a) rust" where
  "try_res conv r = (case r of Inl x \<Rightarrow> throw (conv x) | Inr a \<Rightarrow> ret a)"

text \<open>The same for a call that may panic as well as return an error.\<close>

definition try_call :: "('x \<Rightarrow> 'e) \<Rightarrow> 'x failure + 'a \<Rightarrow> ('s, 'e, 'a) rust" where
  "try_call conv r =
     (case r of Inl (Err x) \<Rightarrow> throw (conv x) | Inl Panic \<Rightarrow> panic | Inr a \<Rightarrow> ret a)"

text \<open>Calling a function that errs in type \<open>'x\<close> where errors have type \<open>'e\<close>.\<close>

definition map_err :: "('x \<Rightarrow> 'e) \<Rightarrow> ('s, 'x, 'a) rust \<Rightarrow> ('s, 'e, 'a) rust" where
  "map_err conv m = (\<lambda>s. case m s of (Inl (Err x), s') \<Rightarrow> (Inl (Err (conv x)), s')
      | (Inl Panic, s') \<Rightarrow> (Inl Panic, s') | (Inr a, s') \<Rightarrow> (Inr a, s'))"

lemmas monad_defs [rust_defs] =
  ret_def throw_def panic_def bnd_def try_res_def try_call_def map_err_def

lemma bnd_ret [simp]: "bnd (ret a) f = f a"
  by (simp add: bnd_def ret_def)

lemma bnd_assoc: "bnd (bnd m f) g = bnd m (\<lambda>x. bnd (f x) g)"
  by (auto simp: bnd_def fun_eq_iff split: prod.splits sum.splits)

lemma bnd_Inr_iff:
  "bnd m f s = (Inr b, s'') \<longleftrightarrow> (\<exists>a s'. m s = (Inr a, s') \<and> f a s' = (Inr b, s''))"
  by (auto simp: bnd_def split: prod.splits sum.splits)

section \<open>Reading and writing byte buffers\<close>

text \<open>Big-endian naturals: \<open>put_uN\<close> writes the most significant byte first.\<close>

fun be_bytes :: "nat \<Rightarrow> nat \<Rightarrow> bytes" where
  "be_bytes 0 n = []"
| "be_bytes (Suc k) n = be_bytes k (n div 256) @ [word_of_nat n]"

definition be_nat :: "bytes \<Rightarrow> nat" where
  "be_nat bs = foldl (\<lambda>a b. a * 256 + unat b) 0 bs"

lemma length_be_bytes [simp]: "length (be_bytes k n) = k"
  by (induction k arbitrary: n) simp_all

lemma be_bytes_2: "be_bytes 2 n = [word_of_nat (n div 256), word_of_nat n]"
  by (simp only: numeral_2_eq_2 be_bytes.simps append.simps)

lemma be_nat_snoc [simp]: "be_nat (bs @ [b]) = be_nat bs * 256 + unat b"
  by (simp add: be_nat_def)

lemma be_nat_be_bytes [simp]: "be_nat (be_bytes k n) = n mod 256 ^ k"
proof (induction k arbitrary: n)
  case 0
  then show ?case by (simp add: be_nat_def)
next
  case (Suc k)
  have "n mod (256 * 256 ^ k) = 256 * (n div 256 mod 256 ^ k) + n mod 256"
    by (rule mod_mult2_eq)
  then show ?case
    by (simp add: Suc.IH unat_of_nat)
qed

definition get_u8 :: "(bytes, 'e, byte) rust" where
  [buf_defs]: "get_u8 = (\<lambda>src. case src of [] \<Rightarrow> (Inl Panic, []) | b # bs \<Rightarrow> (Inr b, bs))"

definition split_to :: "nat \<Rightarrow> (bytes, 'e, bytes) rust" where
  [buf_defs]: "split_to n = (\<lambda>src. if length src < n then (Inl Panic, src)
     else (Inr (take n src), drop n src))"

definition get_u16 :: "(bytes, 'e, u16) rust" where
  [buf_defs]: "get_u16 = (\<lambda>src. if length src < 2 then (Inl Panic, src)
     else (Inr (word_of_nat (be_nat (take 2 src))), drop 2 src))"

definition get_u64 :: "(bytes, 'e, u64) rust" where
  [buf_defs]: "get_u64 = (\<lambda>src. if length src < 8 then (Inl Panic, src)
     else (Inr (word_of_nat (be_nat (take 8 src))), drop 8 src))"

definition put_u8 :: "byte \<Rightarrow> bytes \<Rightarrow> bytes" where
  [buf_defs]: "put_u8 b dst = dst @ [b]"

definition put_slice :: "bytes \<Rightarrow> bytes \<Rightarrow> bytes" where
  [buf_defs]: "put_slice bs dst = dst @ bs"

definition put_u16 :: "u16 \<Rightarrow> bytes \<Rightarrow> bytes" where
  [buf_defs]: "put_u16 w dst = dst @ be_bytes 2 (unat w)"

definition put_u64 :: "u64 \<Rightarrow> bytes \<Rightarrow> bytes" where
  [buf_defs]: "put_u64 w dst = dst @ be_bytes 8 (unat w)"

text \<open>What a \<open>put\<close> wrote, the matching \<open>get\<close> reads back.\<close>

lemma get_u8_Cons [simp]: "get_u8 (b # bs) = (Inr b, bs)"
  by (simp add: get_u8_def)

lemma split_to_append [simp]: "length xs = n \<Longrightarrow> split_to n (xs @ ys) = (Inr xs, ys)"
  by (simp add: split_to_def)

lemma get_u16_be [simp]: "get_u16 (be_bytes 2 (unat w) @ bs) = (Inr w, bs)"
proof -
  have "unat w < 65536"
    using unsigned_less [of w] by simp
  then show ?thesis
    by (simp add: get_u16_def)
qed

lemma get_u64_be [simp]: "get_u64 (be_bytes 8 (unat w) @ bs) = (Inr w, bs)"
proof -
  have "unat w < 18446744073709551616"
    using unsigned_less [of w] by simp
  then show ?thesis
    by (simp add: get_u64_def)
qed

lemma word8_256 [simp]: "(256 :: byte) = 0"
  by transfer simp

lemma be_bytes_be_nat: "be_bytes (length bs) (be_nat bs) = bs"
proof (induction bs rule: rev_induct)
  case (snoc b bs)
  have "unat b < 256"
    using unsigned_less [of b] by simp
  with snoc show ?case
    by simp
qed simp

lemma be_nat_bound: "be_nat bs < 256 ^ length bs"
proof (induction bs rule: rev_induct)
  case (snoc b bs)
  have "unat b < 256"
    using unsigned_less [of b] by simp
  with snoc show ?case
    by simp
qed (simp add: be_nat_def)

text \<open>A read that succeeds says what the buffer began with.\<close>

lemma get_u8_Inr_iff: "get_u8 src = (Inr b, rest) \<longleftrightarrow> src = b # rest"
  by (cases src) (simp_all add: get_u8_def)

lemma split_to_Inr_iff: "split_to n src = (Inr bs, rest) \<longleftrightarrow> src = bs @ rest \<and> length bs = n"
  by (auto simp: split_to_def)

lemma get_u16_Inr_iff: "get_u16 src = (Inr w, rest) \<longleftrightarrow> src = be_bytes 2 (unat w) @ rest"
proof
  assume get: "get_u16 src = (Inr w, rest)"
  then have len: "length (take 2 src) = 2" and rest: "rest = drop 2 src"
    and w: "w = word_of_nat (be_nat (take 2 src))"
    by (auto simp: get_u16_def split: if_splits)
  have "be_nat (take 2 src) < 65536"
    using be_nat_bound [of "take 2 src"] unfolding len by simp
  then have "unat w = be_nat (take 2 src)"
    by (simp add: w unat_of_nat)
  then have "be_bytes 2 (unat w) = take 2 src"
    using be_bytes_be_nat [of "take 2 src"] unfolding len by simp
  then show "src = be_bytes 2 (unat w) @ rest"
    by (simp add: rest)
qed simp

section \<open>Functions that only consume\<close>

text \<open>A reader leaves a suffix of its buffer, whatever its outcome.\<close>

definition consumes :: "(bytes, 'e, 'a) rust \<Rightarrow> bool" where
  "consumes m \<longleftrightarrow> (\<forall>s. \<exists>u. s = u @ snd (m s))"

lemma consumesI: "(\<And>s. \<exists>u. s = u @ snd (m s)) \<Longrightarrow> consumes m"
  by (simp add: consumes_def)

lemma consumes_bnd [consumes_rules]:
  assumes "consumes m" and "\<And>a. consumes (f a)"
  shows "consumes (bnd m f)"
proof (rule consumesI)
  fix s
  obtain u where u: "s = u @ snd (m s)"
    using assms(1) by (auto simp: consumes_def)
  show "\<exists>u. s = u @ snd (bnd m f s)"
  proof (cases "fst (m s)")
    case (Inl e)
    with u show ?thesis
      by (intro exI [of _ u]) (auto simp: bnd_def split: prod.splits)
  next
    case (Inr a)
    obtain v where "snd (m s) = v @ snd (f a (snd (m s)))"
      using assms(2) by (auto simp: consumes_def)
    with u Inr show ?thesis
      by (intro exI [of _ "u @ v"]) (auto simp: bnd_def split: prod.splits)
  qed
qed

lemma consumes_basic [consumes_rules]:
  "consumes (ret a)" "consumes (throw e)" "consumes panic" "consumes get_u8"
  "consumes get_u16" "consumes (split_to n)"
proof -
  have d: "\<exists>u. s = u @ drop n s" for s :: bytes and n
    by (metis append_take_drop_id)
  show "consumes (ret a)" "consumes (throw e)" "consumes panic"
    by (simp_all add: consumes_def rust_defs)
  show "consumes get_u8"
    by (rule consumesI) (simp add: get_u8_def split: list.split)
  show "consumes get_u16" "consumes (split_to n)"
    by (rule consumesI; simp add: buf_defs d)+
qed

lemma consumes_map_err [consumes_rules]: "consumes m \<Longrightarrow> consumes (map_err conv m)"
proof (rule consumesI)
  fix s assume "consumes m"
  moreover have "snd (map_err conv m s) = snd (m s)"
    by (simp add: map_err_def split: prod.split sum.split failure.split)
  ultimately show "\<exists>u. s = u @ snd (map_err conv m s)"
    by (simp add: consumes_def)
qed

end
