(* ===== verification/Utf8.thy ===== *)
theory Utf8
  imports Prelude
begin

text \<open>
  The two functions of the standard library that turn bytes into Rust text and that the
  source relies on: the validity check every \<open>String\<close> satisfies, and
  \<open>String::from_utf8_lossy\<close>, which \<open>Socks5Address::parse\<close> applies to the domain name
  of a request.  Both follow \<open>core::str::lossy\<close>: a character is scanned byte by byte, a read
  past the end yields 0, and a malformed sequence is replaced by U+FFFD up to (not including)
  the byte that broke it.
\<close>

definition safe_get :: "bytes \<Rightarrow> nat \<Rightarrow> byte" where
  "safe_get bs i = (if i < length bs then bs ! i else 0)"

definition utf8_char_width :: "byte \<Rightarrow> nat" where
  "utf8_char_width b =
     (if b < 0x80 then 1
      else if 0xC2 \<le> b \<and> b \<le> 0xDF then 2
      else if 0xE0 \<le> b \<and> b \<le> 0xEF then 3
      else if 0xF0 \<le> b \<and> b \<le> 0xF4 then 4
      else 0)"

definition is_cont :: "byte \<Rightarrow> bool" where
  "is_cont c \<longleftrightarrow> 0x80 \<le> c \<and> c \<le> 0xBF"

definition second_ok :: "byte \<Rightarrow> byte \<Rightarrow> bool" where
  "second_ok b c \<longleftrightarrow>
     (if b = 0xE0 then 0xA0 \<le> c \<and> c \<le> 0xBF
      else if b = 0xED then 0x80 \<le> c \<and> c \<le> 0x9F
      else if b = 0xF0 then 0x90 \<le> c \<and> c \<le> 0xBF
      else if b = 0xF4 then 0x80 \<le> c \<and> c \<le> 0x8F
      else is_cont c)"

text \<open>Is the first character well formed, and how many bytes does the scan consume?\<close>

definition utf8_step :: "bytes \<Rightarrow> bool \<times> nat" where
  "utf8_step bs =
     (let b = safe_get bs 0; w = utf8_char_width b in
      if w = 0 then (False, 1)
      else if w = 1 then (True, 1)
      else if \<not> second_ok b (safe_get bs 1) then (False, 1)
      else if w = 2 then (True, 2)
      else if \<not> is_cont (safe_get bs 2) then (False, 2)
      else if w = 3 then (True, 3)
      else if \<not> is_cont (safe_get bs 3) then (False, 3)
      else (True, 4))"

definition replacement_char :: bytes where
  "replacement_char = [0xEF, 0xBF, 0xBD]"

lemma utf8_step_consumes: "0 < snd (utf8_step bs)"
  by (simp add: utf8_step_def Let_def)

lemma utf8_step_pos: "(ok, n) = utf8_step bs \<Longrightarrow> 0 < n"
  using utf8_step_consumes [of bs] by (metis snd_conv)

function utf8_lossy :: "bytes \<Rightarrow> bytes" where
  "utf8_lossy bs =
     (if bs = [] then []
      else let (ok, n) = utf8_step bs in
        (if ok then take n bs else replacement_char) @ utf8_lossy (drop n bs))"
  by pat_completeness auto
termination
  by (relation "measure length") (auto dest: utf8_step_pos)

function utf8_valid :: "bytes \<Rightarrow> bool" where
  "utf8_valid bs =
     (if bs = [] then True
      else let (ok, n) = utf8_step bs in
        if ok then utf8_valid (drop n bs) else False)"
  by pat_completeness auto
termination
  by (relation "measure length") (auto dest: utf8_step_pos)

declare utf8_lossy.simps [simp del]
declare utf8_valid.simps [simp del]

lemma utf8_lossy_Nil [simp]: "utf8_lossy [] = []"
  by (simp add: utf8_lossy.simps)

lemma utf8_valid_Nil [simp]: "utf8_valid [] = True"
  by (simp add: utf8_valid.simps)

lemma not_cont_0 [simp]: "\<not> is_cont 0" "\<not> second_ok b 0"
  by (simp_all add: is_cont_def second_ok_def)

text \<open>A well-formed scan stays inside the buffer and depends only on the bytes it consumed.\<close>

lemma utf8_step_bound:
  assumes "bs \<noteq> []" and "utf8_step bs = (ok, n)"
  shows "n \<le> length bs"
proof -
  have n: "n \<le> 1 \<or> second_ok (safe_get bs 0) (safe_get bs 1) \<and> n \<le> 2
      \<or> is_cont (safe_get bs 2) \<and> n \<le> 3 \<or> is_cont (safe_get bs 3) \<and> n \<le> 4"
    using assms(2) unfolding utf8_step_def Let_def by (simp split: if_splits)
  have second: "1 < length bs" if "second_ok (safe_get bs 0) (safe_get bs (Suc 0))"
    using that by (cases "1 < length bs") (simp_all add: safe_get_def)
  have cont: "i < length bs" if "is_cont (safe_get bs i)" for i
    using that by (cases "i < length bs") (simp_all add: safe_get_def)
  have "Suc 0 \<le> length bs"
    using assms(1) by (simp add: Suc_leI)
  with n show ?thesis
    by (auto simp del: length_greater_0_conv dest!: second cont)
qed

lemma utf8_step_True_prefix:
  assumes "bs \<noteq> []" and "utf8_step bs = (True, n)"
  shows "utf8_step (take n bs @ ys) = (True, n)"
proof -
  have n: "n \<le> length bs"
    by (rule utf8_step_bound [OF assms])
  have get: "safe_get (take n bs @ ys) i = safe_get bs i" if "i < n" for i
    using that n by (simp add: safe_get_def nth_append)
  show ?thesis
    using assms(2) get [of 0] get [of 1] get [of 2] get [of 3]
    unfolding utf8_step_def Let_def by (simp split: if_splits)
qed

lemma utf8_step_replacement: "utf8_step (replacement_char @ ys) = (True, 3)"
  by (simp add: utf8_step_def Let_def replacement_char_def safe_get_def utf8_char_width_def
      second_ok_def is_cont_def)

lemma utf8_valid_char:
  assumes "cs \<noteq> []" and "utf8_step (cs @ ys) = (True, length cs)"
  shows "utf8_valid (cs @ ys) = utf8_valid ys"
  using assms by (subst utf8_valid.simps) simp

text \<open>Whatever bytes arrive, the text that \<open>from_utf8_lossy\<close> builds is well formed \<dots>\<close>

lemma utf8_valid_lossy: "utf8_valid (utf8_lossy bs)"
proof (induction bs rule: utf8_lossy.induct)
  case (1 bs)
  show ?case
  proof (cases "bs = []")
    case False
    obtain ok n where step: "utf8_step bs = (ok, n)"
      by (cases "utf8_step bs")
    have IH: "utf8_valid (utf8_lossy (drop n bs))"
      using "1" False step by simp
    define cs where "cs = (if ok then take n bs else replacement_char)"
    have "0 < n" "n \<le> length bs"
      using utf8_step_consumes [of bs] utf8_step_bound [OF False step] step by auto
    then have "cs \<noteq> []" "utf8_step (cs @ ys) = (True, length cs)" for ys
      using utf8_step_True_prefix [OF False] step utf8_step_replacement False
      by (auto simp: cs_def replacement_char_def)
    moreover have "utf8_lossy bs = cs @ utf8_lossy (drop n bs)"
      using False step by (subst utf8_lossy.simps) (simp add: cs_def)
    ultimately show ?thesis
      using IH by (simp add: utf8_valid_char)
  qed simp
qed

text \<open>\<dots> and bytes that already are text are left alone.\<close>

lemma utf8_lossy_id: "utf8_valid bs \<Longrightarrow> utf8_lossy bs = bs"
proof (induction bs rule: utf8_valid.induct)
  case (1 bs)
  show ?case
  proof (cases "bs = []")
    case False
    obtain ok n where step: "utf8_step bs = (ok, n)"
      by (cases "utf8_step bs")
    have "ok" "utf8_valid (drop n bs)"
      using "1.prems" False step by (auto simp: utf8_valid.simps [of bs] split: if_splits)
    then have "utf8_lossy (drop n bs) = drop n bs"
      using "1.IH" False step by simp
    with \<open>ok\<close> False step show ?thesis
      by (subst utf8_lossy.simps) simp
  qed simp
qed

lemma utf8_lossy_iff: "utf8_lossy bs = bs \<longleftrightarrow> utf8_valid bs"
  using utf8_valid_lossy [of bs] utf8_lossy_id [of bs] by auto

text \<open>ASCII text is well formed.\<close>

lemma utf8_valid_ascii: "(\<And>b. b \<in> set bs \<Longrightarrow> b < 0x80) \<Longrightarrow> utf8_valid bs"
proof (induction bs)
  case (Cons b bs)
  then have "utf8_step (b # bs) = (True, 1)"
    by (simp add: utf8_step_def safe_get_def utf8_char_width_def)
  with Cons show ?case
    by (subst utf8_valid.simps) simp
qed simp

end
