(* ===== verification/Errors.thy ===== *)
theory Errors
  imports Prelude
begin

text \<open>
  The error enumerations of the three crates: \<open>common/src/error.rs\<close>,
  \<open>agent/src/error.rs\<close> and \<open>proxy/src/error.rs\<close>, with the source's variants.  Variants of
  different enumerations that share a name carry a prefix here.  An error value of a
  library (\<open>bincode\<close>, \<open>rsa\<close>, \<open>httpcodec\<close>, the operating system) is kept as the
  text it renders to, which is all the source ever does with it.
\<close>

type_synonym ext_error = string

section \<open>Errors of the common crate\<close>

datatype SerializeError =
    SerDnsLookupRequest ext_error
  | SerDnsLookupResponse ext_error
  | SerTcpInitRequest ext_error
  | SerTcpInitResponse ext_error
  | SerTcpData ext_error
  | SerUdpData ext_error
  | SerPpaassMessage ext_error
  | SerPpaassMessageAgentPayload ext_error
  | SerPpaassMessageProxyPayload ext_error

datatype DeserializeError =
    DeDnsLookupRequest ext_error
  | DeDnsLookupResponse ext_error
  | DeTcpInitRequest ext_error
  | DeTcpInitResponse ext_error
  | DeTcpData ext_error
  | DeUdpData ext_error
  | DePpaassMessage ext_error
  | DePpaassMessageAgentPayload ext_error
  | DePpaassMessageProxyPayload ext_error

datatype AesError =
    UnPad ext_error
  | Pad ext_error

text \<open>
  \<open>std::io::Error\<close> is either an error the operating system reported or one built with
  \<open>Error::new(ErrorKind::InvalidData, e)\<close> around a \<open>CommonError\<close>, as
  \<open>to_socket_addrs\<close> does.  The enumerations that contain it take it as a parameter, and
  \<open>CommonError\<close> closes the recursion.
\<close>

datatype 'e boxed_io_error =
    IoOs ext_error
  | IoInvalidData 'e

datatype 'io RsaErrorOf =
    NotFound string
  | ConcreteRsa ext_error
  | RsaIo 'io
  | Pkcs8SpkiError ext_error
  | Pkcs8Error ext_error

datatype 'io CryptoErrorOf =
    Aes AesError
  | Rsa "'io RsaErrorOf"

datatype 'io EncoderErrorOf =
    EncIo 'io
  | EncSerialize SerializeError
  | EncCrypto "'io CryptoErrorOf"

datatype 'io DecoderErrorOf =
    DecIo 'io
  | InvalidMessageFlag string
  | DecDeserialize DeserializeError
  | DecCrypto "'io CryptoErrorOf"

datatype CommonError =
    CommonDecoder "CommonError boxed_io_error DecoderErrorOf"
  | CommonEncoder "CommonError boxed_io_error EncoderErrorOf"
  | CommonIo "CommonError boxed_io_error"
  | CommonCrypto "CommonError boxed_io_error CryptoErrorOf"
  | CommonOther string

type_synonym io_error = "CommonError boxed_io_error"
type_synonym RsaError = "io_error RsaErrorOf"
type_synonym CryptoError = "io_error CryptoErrorOf"
type_synonym CommonEncoderError = "io_error EncoderErrorOf"
type_synonym CommonDecoderError = "io_error DecoderErrorOf"

section \<open>Errors of the agent\<close>

datatype ParseError =
    InputExhausted string
  | InvalidFormat string

datatype ConversionError =
    ConvIo io_error
  | ConvFormat string
  | UrlFormat ext_error
  | NoHost string
  | ConvNoRemaining string

datatype Socks5DecodeError =
    InvalidVersion byte
  | InvalidInitCommandType byte
  | InvalidInitCommandResultStatus byte
  | NoRemaining string
  | Socks5Conversion ConversionError
  | Parse ParseError
  | Socks5DecodeIo io_error

datatype Socks5EncodeError =
    Socks5EncodeIo io_error

datatype HttpDecodeError =
    HttpDecodeIo io_error
  | HttpDecodeLowLevel ext_error

datatype HttpEncodeError =
    HttpEncodeIo io_error
  | HttpEncodeLowLevel ext_error

datatype AgentEncoderError =
    EncSocks5 Socks5EncodeError
  | EncHttp HttpEncodeError

datatype AgentDecoderError =
    DecSocks5 Socks5DecodeError
  | DecHttp HttpDecodeError
  | AgentDecIo io_error
  | UnknownProtocol
  | UnsupportProtocol

datatype NetworkError =
    AcceptConnection io_error
  | PropertyModification io_error
  | TcpBind io_error
  | TcpConnect io_error
  | ClientUdpRecv io_error
  | General io_error
  | NetTimeout u64
  | ConnectionExhausted

datatype AgentError =
    Network NetworkError
  | Encode AgentEncoderError
  | Decode AgentDecoderError
  | AgentCommon CommonError
  | Conversion ConversionError
  | Configuration string
  | InvalidProxyResponse string
  | AgentIo io_error
  | AgentOther string

section \<open>Errors of the proxy\<close>

datatype ProxyServerError =
    StdIo io_error
  | ProxyCommon CommonError
  | ProxyOther string

end
