(* ===== verification/Address.thy ===== *)
theory Address
  imports Errors
begin

text \<open>
  Socket addresses of the standard library and the address type of the tunnel protocol,
  \<open>common/src/message/address.rs\<close>.  The name service behind \<open>ToSocketAddrs\<close> for a
  \<open>"host:port"\<close> string is outside the repository: it is the parameter \<open>resolve\<close>.
\<close>

section \<open>Addresses of the standard library\<close>

datatype Ipv4Addr = Ipv4Addr byte byte byte byte

datatype Ipv6Addr = Ipv6Addr u16 u16 u16 u16 u16 u16 u16 u16

text \<open>\<open>SocketAddrV6\<close> also carries a flow label and a scope id.\<close>

datatype SocketAddr =
    V4 Ipv4Addr u16
  | V6 Ipv6Addr u16 "32 word" "32 word"

fun v4_octets :: "Ipv4Addr \<Rightarrow> bytes" where
  "v4_octets (Ipv4Addr a b c d) = [a, b, c, d]"

fun v6_segments :: "Ipv6Addr \<Rightarrow> u16 list" where
  "v6_segments (Ipv6Addr a b c d e f g h) = [a, b, c, d, e, f, g, h]"

definition v6_octets :: "Ipv6Addr \<Rightarrow> bytes" where
  "v6_octets ip = concat (map (\<lambda>w. be_bytes 2 (unat w)) (v6_segments ip))"

text \<open>\<open>IpAddr::is_loopback\<close> (127.0.0.0/8 and ::1) and \<open>IpAddr::is_unspecified\<close>.\<close>

fun is_loopback :: "SocketAddr \<Rightarrow> bool" where
  "is_loopback (V4 ip port) \<longleftrightarrow> hd (v4_octets ip) = 127"
| "is_loopback (V6 ip port fl sc) \<longleftrightarrow> v6_segments ip = [0, 0, 0, 0, 0, 0, 0, 1]"

fun is_unspecified :: "SocketAddr \<Rightarrow> bool" where
  "is_unspecified (V4 ip port) \<longleftrightarrow> v4_octets ip = [0, 0, 0, 0]"
| "is_unspecified (V6 ip port fl sc) \<longleftrightarrow> v6_segments ip = [0, 0, 0, 0, 0, 0, 0, 0]"

section \<open>How addresses print\<close>

text \<open>\<open>Display\<close> of the standard library's addresses, as error texts and host names contain them.\<close>

fun hex :: "nat \<Rightarrow> string" where
  "hex n =
     (let digit = (\<lambda>d. char_of (if d < 10 then 48 + d else 87 + d)) in
      if n < 16 then [digit n] else hex (n div 16) @ [digit (n mod 16)])"

declare hex.simps [simp del]

definition show_ipv4 :: "Ipv4Addr \<Rightarrow> string" where
  "show_ipv4 ip = join_text ''.'' (map (\<lambda>b. dec (unat b)) (v4_octets ip))"

text \<open>The first of the longest runs of zero segments: its start and its length.\<close>

fun zero_span :: "nat \<Rightarrow> nat \<times> nat \<Rightarrow> nat \<times> nat \<Rightarrow> u16 list \<Rightarrow> nat \<times> nat" where
  "zero_span i current longest [] = longest"
| "zero_span i current longest (segment # segments) =
     (if segment = 0 then
        let current = (if snd current = 0 then (i, 1) else (fst current, snd current + 1))
        in zero_span (i + 1) current (if snd longest < snd current then current else longest) segments
      else zero_span (i + 1) (0, 0) longest segments)"

definition show_ipv6 :: "Ipv6Addr \<Rightarrow> string" where
  "show_ipv6 ip =
     (let segments = v6_segments ip; group = (\<lambda>ws. join_text '':'' (map (\<lambda>w. hex (unat w)) ws)) in
      if take 6 segments = [0, 0, 0, 0, 0, 0xFFFF]
      then ''::ffff:'' @ join_text ''.'' (map (\<lambda>b. dec (unat b)) (drop 12 (v6_octets ip)))
      else
        let (start, len) = zero_span 0 (0, 0) (0, 0) segments in
        if 1 < len then group (take start segments) @ ''::'' @ group (drop (start + len) segments)
        else group segments)"

fun show_socket_addr :: "SocketAddr \<Rightarrow> string" where
  "show_socket_addr (V4 ip port) = show_ipv4 ip @ '':'' @ dec (unat port)"
| "show_socket_addr (V6 ip port fl sc) =
     ''['' @ show_ipv6 ip @ (if sc = 0 then '''' else ''%'' @ dec (unat sc)) @ '']:'' @ dec (unat port)"

type_synonym resolver = "string \<Rightarrow> io_error + SocketAddr list"

section \<open>The unified address\<close>

datatype PpaassUnifiedAddress =
    UnifiedIp SocketAddr
  | UnifiedDomain string u16

fun show_unified :: "PpaassUnifiedAddress \<Rightarrow> string" where
  "show_unified (UnifiedIp socket_addr) = show_socket_addr socket_addr"
| "show_unified (UnifiedDomain host port) = host @ '':'' @ dec (unat port)"

text \<open>The hand-written \<open>PartialEq\<close>.\<close>

fun unified_eq :: "PpaassUnifiedAddress \<Rightarrow> PpaassUnifiedAddress \<Rightarrow> bool" where
  "unified_eq (UnifiedIp self_ip_addr) (UnifiedIp other_ip_addr) = (self_ip_addr = other_ip_addr)"
| "unified_eq (UnifiedIp self_ip_addr) (UnifiedDomain other_host other_port) = False"
| "unified_eq (UnifiedDomain self_host self_port) (UnifiedIp other_ip_addr) = False"
| "unified_eq (UnifiedDomain self_host self_port) (UnifiedDomain other_host other_port) =
     (self_host = other_host \<and> self_port = other_port)"

text \<open>The source then claims \<open>Eq\<close>: the relation is indeed an equivalence, namely equality.\<close>

lemma unified_eq_iff [simp]: "unified_eq a b \<longleftrightarrow> a = b"
  by (cases a; cases b) auto

definition unified_of_socket_addr :: "SocketAddr \<Rightarrow> PpaassUnifiedAddress" where
  "unified_of_socket_addr value = UnifiedIp value"

text \<open>The iterator over resolved addresses.\<close>

record SocketAddrIter =
  elements :: "SocketAddr list"
  index :: nat

definition socket_addr_iter_new :: "SocketAddr list \<Rightarrow> SocketAddrIter" where
  "socket_addr_iter_new els = \<lparr>elements = els, index = 0\<rparr>"

definition socket_addr_iter_next :: "SocketAddrIter \<Rightarrow> SocketAddr option \<times> SocketAddrIter" where
  "socket_addr_iter_next self =
     (if index self < length (elements self) then Some (elements self ! index self) else None,
      self\<lparr>index := index self + 1\<rparr>)"

text \<open>
  \<open>Iterator::collect\<close> calls \<open>next\<close> until it returns \<open>None\<close>.  The bound is the number of
  elements left, so the recursion ends exactly where the loop does.
\<close>

function socket_addr_iter_collect :: "SocketAddrIter \<Rightarrow> SocketAddr list" where
  "socket_addr_iter_collect self =
     (case socket_addr_iter_next self of
        (None, _) \<Rightarrow> []
      | (Some a, self') \<Rightarrow> a # socket_addr_iter_collect self')"
  by pat_completeness auto
termination
  by (relation "measure (\<lambda>self. length (elements self) - index self)")
    (auto simp: socket_addr_iter_next_def split: if_splits)

declare socket_addr_iter_collect.simps [simp del]

lemma socket_addr_iter_collect_drop:
  "socket_addr_iter_collect self = drop (index self) (elements self)"
proof (induction self rule: socket_addr_iter_collect.induct)
  case (1 self)
  show ?case
  proof (cases "index self < length (elements self)")
    case True
    with "1" show ?thesis
      by (simp add: socket_addr_iter_collect.simps [of self] socket_addr_iter_next_def
          Cons_nth_drop_Suc)
  next
    case False
    then show ?thesis
      by (simp add: socket_addr_iter_collect.simps [of self] socket_addr_iter_next_def)
  qed
qed

text \<open>\<open>TryFrom<PpaassUnifiedAddress> for Vec<SocketAddr>\<close> and \<open>ToSocketAddrs\<close>.\<close>

fun socket_addrs_of_unified :: "resolver \<Rightarrow> PpaassUnifiedAddress \<Rightarrow> CommonError + SocketAddr list" where
  "socket_addrs_of_unified resolve (UnifiedIp socket_addr) = Inr [socket_addr]"
| "socket_addrs_of_unified resolve (UnifiedDomain host port) =
     (let address_string = host @ '':'' @ dec (unat port) in
      case resolve address_string of
        Inl e \<Rightarrow> Inl (CommonIo e)
      | Inr addresses \<Rightarrow> Inr addresses)"

definition to_socket_addrs :: "resolver \<Rightarrow> PpaassUnifiedAddress \<Rightarrow> io_error + SocketAddrIter" where
  "to_socket_addrs resolve self =
     (case socket_addrs_of_unified resolve self of
        Inl e \<Rightarrow> Inl (IoInvalidData e)
      | Inr socket_addr_vec \<Rightarrow> Inr (socket_addr_iter_new socket_addr_vec))"

text \<open>
  What the callers of \<open>to_socket_addrs()?.collect()\<close> get: the addresses in the resolver's
  order, none lost and none repeated.
\<close>

definition collect_socket_addrs :: "resolver \<Rightarrow> PpaassUnifiedAddress \<Rightarrow> io_error + SocketAddr list" where
  "collect_socket_addrs resolve a = map_sum id socket_addr_iter_collect (to_socket_addrs resolve a)"

lemma socket_addr_iter_collect_new [simp]:
  "socket_addr_iter_collect (socket_addr_iter_new els) = els"
  by (simp add: socket_addr_iter_collect_drop socket_addr_iter_new_def)

lemma collect_socket_addrs_simps [simp]:
  "collect_socket_addrs resolve (UnifiedIp s) = Inr [s]"
  "collect_socket_addrs resolve (UnifiedDomain h p) =
     map_sum (\<lambda>e. IoInvalidData (CommonIo e)) id (resolve (h @ '':'' @ dec (unat p)))"
  by (auto simp: collect_socket_addrs_def to_socket_addrs_def split: sum.splits)

text \<open>
  The iterator is fused: once \<open>next\<close> has returned \<open>None\<close> it returns \<open>None\<close> for ever.
\<close>

lemma socket_addr_iter_fused:
  "socket_addr_iter_next self = (None, self') \<Longrightarrow> fst (socket_addr_iter_next self') = None"
  by (auto simp: socket_addr_iter_next_def split: if_splits)

end
