(* ===== verification/Message.thy ===== *)
theory Message
  imports Address
begin

text \<open>
  The messages of the tunnel protocol (\<open>common/src/message\<close>): the payload encryption, the
  tcp and udp payloads in both directions, the message envelopes and the generator.
  The random identifier \<open>Uuid::new_v4()\<close> a generator function draws is an argument.
\<close>

section \<open>Payload encryption\<close>

datatype PpaassMessagePayloadEncryption =
    Plain
  | AesEncryption bytes

text \<open>
  The default method of \<open>PpaassMessagePayloadEncryptionSelector\<close>; both the agent's and the
  proxy's selector inherit it unchanged.
\<close>

fun encryption_select :: "string \<Rightarrow> bytes option \<Rightarrow> PpaassMessagePayloadEncryption" where
  "encryption_select user_token None = Plain"
| "encryption_select user_token (Some encryption_token) = AesEncryption encryption_token"

section \<open>Payloads\<close>

datatype AgentTcpPayload =
    AgentTcpInit PpaassUnifiedAddress PpaassUnifiedAddress
  | AgentTcpData bytes

datatype ProxyTcpInitFailureReason =
    CanNotConnectToDestination
  | GeneralFailure

datatype ProxyTcpInitResult =
    Success string
  | Fail ProxyTcpInitFailureReason

datatype ProxyTcpPayload =
    ProxyTcpInit PpaassUnifiedAddress PpaassUnifiedAddress ProxyTcpInitResult
  | ProxyTcpData bytes

record AgentUdpPayload =
  au_src_address :: PpaassUnifiedAddress
  au_dst_address :: PpaassUnifiedAddress
  au_data :: bytes
  au_need_response :: bool

record ProxyUdpPayload =
  pu_src_address :: PpaassUnifiedAddress
  pu_dst_address :: PpaassUnifiedAddress
  pu_data :: bytes

datatype PpaassAgentMessagePayload =
    AgentTcp AgentTcpPayload
  | AgentUdp AgentUdpPayload

datatype PpaassProxyMessagePayload =
    ProxyTcp ProxyTcpPayload
  | ProxyUdp ProxyUdpPayload

section \<open>Messages\<close>

text \<open>The message as it crosses the wire, its payload already serialised and encrypted.\<close>

record CodecPpaassMessage =
  cm_message_id :: string
  cm_user_token :: string
  cm_encryption :: PpaassMessagePayloadEncryption
  cm_payload :: bytes

record PpaassAgentMessage =
  am_message_id :: string
  am_user_token :: string
  am_encryption :: PpaassMessagePayloadEncryption
  am_payload :: PpaassAgentMessagePayload

record PpaassProxyMessage =
  pm_message_id :: string
  pm_user_token :: string
  pm_encryption :: PpaassMessagePayloadEncryption
  pm_payload :: PpaassProxyMessagePayload

definition agent_message_new ::
  "string \<Rightarrow> string \<Rightarrow> PpaassMessagePayloadEncryption \<Rightarrow> PpaassAgentMessagePayload \<Rightarrow> PpaassAgentMessage" where
  "agent_message_new message_id user_token encryption payload =
     \<lparr>am_message_id = message_id, am_user_token = user_token, am_encryption = encryption,
      am_payload = payload\<rparr>"

definition proxy_message_new ::
  "string \<Rightarrow> string \<Rightarrow> PpaassMessagePayloadEncryption \<Rightarrow> PpaassProxyMessagePayload \<Rightarrow> PpaassProxyMessage" where
  "proxy_message_new message_id user_token encryption payload =
     \<lparr>pm_message_id = message_id, pm_user_token = user_token, pm_encryption = encryption,
      pm_payload = payload\<rparr>"

lemma agent_message_new_fields [simp]:
  "agent_message_new (am_message_id m) (am_user_token m) e (am_payload m) = m\<lparr>am_encryption := e\<rparr>"
  by (cases m) (simp add: agent_message_new_def)

lemma proxy_message_new_fields [simp]:
  "proxy_message_new (pm_message_id m) (pm_user_token m) e (pm_payload m) = m\<lparr>pm_encryption := e\<rparr>"
  by (cases m) (simp add: proxy_message_new_def)

section \<open>The message generator\<close>

text \<open>Every generator function returns \<open>Ok\<close>; the first argument is the fresh identifier.\<close>

definition generate_agent_tcp_init_message ::
  "string \<Rightarrow> string \<Rightarrow> PpaassUnifiedAddress \<Rightarrow> PpaassUnifiedAddress \<Rightarrow> PpaassMessagePayloadEncryption
   \<Rightarrow> CommonError + PpaassAgentMessage" where
  "generate_agent_tcp_init_message uuid user_token src_address dst_address encryption =
     (let payload = AgentTcp (AgentTcpInit src_address dst_address) in
      Inr (agent_message_new uuid user_token encryption payload))"

definition generate_proxy_tcp_init_message ::
  "string \<Rightarrow> string \<Rightarrow> PpaassUnifiedAddress \<Rightarrow> PpaassUnifiedAddress \<Rightarrow> PpaassMessagePayloadEncryption
   \<Rightarrow> ProxyTcpInitResult \<Rightarrow> CommonError + PpaassProxyMessage" where
  "generate_proxy_tcp_init_message uuid user_token src_address dst_address encryption result =
     (let payload = ProxyTcp (ProxyTcpInit src_address dst_address result) in
      Inr (proxy_message_new uuid user_token encryption payload))"

definition generate_agent_tcp_data_message ::
  "string \<Rightarrow> string \<Rightarrow> PpaassMessagePayloadEncryption \<Rightarrow> bytes \<Rightarrow> CommonError + PpaassAgentMessage" where
  "generate_agent_tcp_data_message uuid user_token encryption dat =
     (let payload = AgentTcp (AgentTcpData dat) in
      Inr (agent_message_new uuid user_token encryption payload))"

definition generate_proxy_tcp_data_message ::
  "string \<Rightarrow> string \<Rightarrow> PpaassMessagePayloadEncryption \<Rightarrow> bytes \<Rightarrow> CommonError + PpaassProxyMessage" where
  "generate_proxy_tcp_data_message uuid user_token encryption dat =
     (let payload = ProxyTcp (ProxyTcpData dat) in
      Inr (proxy_message_new uuid user_token encryption payload))"

definition generate_agent_udp_data_message ::
  "string \<Rightarrow> string \<Rightarrow> PpaassMessagePayloadEncryption \<Rightarrow> PpaassUnifiedAddress \<Rightarrow> PpaassUnifiedAddress
   \<Rightarrow> bytes \<Rightarrow> bool \<Rightarrow> CommonError + PpaassAgentMessage" where
  "generate_agent_udp_data_message uuid user_token encryption src_address dst_address dat need_response =
     (let payload = AgentUdp \<lparr>au_src_address = src_address, au_dst_address = dst_address,
            au_data = dat, au_need_response = need_response\<rparr> in
      Inr (agent_message_new uuid user_token encryption payload))"

definition generate_proxy_udp_data_message ::
  "string \<Rightarrow> string \<Rightarrow> PpaassMessagePayloadEncryption \<Rightarrow> PpaassUnifiedAddress \<Rightarrow> PpaassUnifiedAddress
   \<Rightarrow> bytes \<Rightarrow> CommonError + PpaassProxyMessage" where
  "generate_proxy_udp_data_message uuid user_token encryption src_address dst_address dat =
     (let payload = ProxyUdp \<lparr>pu_src_address = src_address, pu_dst_address = dst_address,
            pu_data = dat\<rparr> in
      Inr (proxy_message_new uuid user_token encryption payload))"

named_theorems generator_defs \<open>the message generator\<close>

lemmas generator_unfold [generator_defs] =
  generate_agent_tcp_init_message_def generate_proxy_tcp_init_message_def
  generate_agent_tcp_data_message_def generate_proxy_tcp_data_message_def
  generate_agent_udp_data_message_def generate_proxy_udp_data_message_def
  agent_message_new_def proxy_message_new_def

end
