(* ===== verification/Crypto.thy ===== *)
theory Crypto
  imports Message
begin

text \<open>
  \<open>common/src/crypto\<close>: AES in ECB mode with PKCS#7 padding under a 32-byte token, the RSA
  key pair of a user, and the interface \<open>RsaCryptoFetcher\<close>.  The ciphers themselves, the
  key formats and the random generators are libraries: the fields of \<open>crypto_lib\<close>, on
  which the code relies through the laws \<open>aes_law\<close> and \<open>rsa_law\<close> below.
\<close>

section \<open>The libraries\<close>

text \<open>
  \<open>aes_encrypt_padded key n\<close> is \<open>encrypt_padded_mut::<Pkcs7>(buf, n)\<close>: it pads and
  encrypts the first \<open>n\<close> bytes of the buffer in place and returns the ciphertext slice.
  \<open>aes_decrypt_padded key\<close> decrypts the buffer in place and returns the unpadded slice.
  RSA encryption draws from \<open>OsRng\<close>; the draw is its second argument.
\<close>

record ('pk, 'sk) crypto_lib =
  aes_encrypt_padded :: "bytes \<Rightarrow> nat \<Rightarrow> bytes \<Rightarrow> (ext_error + bytes) \<times> bytes"
  aes_decrypt_padded :: "bytes \<Rightarrow> bytes \<Rightarrow> (ext_error + bytes) \<times> bytes"
  rsa_public_encrypt :: "'pk \<Rightarrow> nat \<Rightarrow> bytes \<Rightarrow> ext_error + bytes"
  rsa_private_decrypt :: "'sk \<Rightarrow> bytes \<Rightarrow> ext_error + bytes"
  public_key_from_pem :: "string \<Rightarrow> ext_error + 'pk"
  private_key_from_pem :: "string \<Rightarrow> ext_error + 'sk"

text \<open>
  The documented behaviour of \<open>encrypt_padded_mut\<close> and \<open>decrypt_padded_mut\<close> with a key of the
  cipher's 32 bytes: encryption succeeds when the buffer has room for the message padded to
  the cipher's 16-byte blocks, writes and returns the ciphertext at its front, and
  decryption of that ciphertext returns the message.
\<close>

definition aes_law :: "('pk, 'sk, 'z) crypto_lib_scheme \<Rightarrow> bool" where
  [law_defs]: "aes_law L \<longleftrightarrow>
     (\<forall>key n buf. length key = 32 \<and> n \<le> length buf \<and> (n div 16 + 1) * 16 \<le> length buf \<longrightarrow>
       (\<exists>c. aes_encrypt_padded L key n buf = (Inr c, c @ drop (length c) buf)
          \<and> length c = (n div 16 + 1) * 16
          \<and> fst (aes_decrypt_padded L key c) = Inr (take n buf)))"

text \<open>A key pair: what the public key encrypts, the private key decrypts.\<close>

definition rsa_law :: "('pk, 'sk, 'z) crypto_lib_scheme \<Rightarrow> 'pk \<Rightarrow> 'sk \<Rightarrow> bool" where
  [law_defs]: "rsa_law L pk sk \<longleftrightarrow>
     (\<forall>rng m c. rsa_public_encrypt L pk rng m = Inr c \<longrightarrow> rsa_private_decrypt L sk c = Inr m)"

section \<open>AES\<close>

definition BLOCK_SIZE :: nat where
  "BLOCK_SIZE = 32"

text \<open>
  \<open>AesEncryptor::new(encryption_token[..].into())\<close> turns the slice into a
  \<open>GenericArray\<close> of 32 bytes, a conversion that panics on any other length.
\<close>

definition aes_key_of :: "bytes \<Rightarrow> 'e failure + bytes" where
  "aes_key_of token = (if length token = 32 then Inr token else Inl Panic)"

definition encrypt_with_aes ::
  "('pk, 'sk, 'z) crypto_lib_scheme \<Rightarrow> bytes \<Rightarrow> (bytes, AesError, bytes) rust" where
  "encrypt_with_aes L encryption_token = (\<lambda>target.
     let original_len = length target;
         padding_len = (original_len div BLOCK_SIZE + 1) * BLOCK_SIZE;
         target = target @ replicate (padding_len - original_len) 0
     in case aes_key_of encryption_token of
          Inl f \<Rightarrow> (Inl f, target)
        | Inr key \<Rightarrow>
            (case aes_encrypt_padded L key original_len target of
               (Inl e, target) \<Rightarrow> (Inl (Err (Pad e)), target)
             | (Inr result, target) \<Rightarrow> (Inr result, target)))"

definition decrypt_with_aes ::
  "('pk, 'sk, 'z) crypto_lib_scheme \<Rightarrow> bytes \<Rightarrow> (bytes, AesError, bytes) rust" where
  "decrypt_with_aes L encryption_token = (\<lambda>target.
     case aes_key_of encryption_token of
       Inl f \<Rightarrow> (Inl f, target)
     | Inr key \<Rightarrow>
         (case aes_decrypt_padded L key target of
            (Inl e, target) \<Rightarrow> (Inl (Err (UnPad e)), target)
          | (Inr result, target) \<Rightarrow> (Inr result, target)))"

text \<open>
  The buffer the code prepares is rounded up to 32-byte blocks, while the cipher's blocks
  have 16 bytes: it always has room for the padded message, so the padding error cannot
  occur, and for message lengths in the lower half of a 32-byte block the last 16 bytes of
  the buffer stay zero and are not part of the ciphertext.
\<close>

lemma div_32: "(n::nat) div 32 = n div 16 div 2"
  by (simp add: div_mult2_eq [symmetric])

lemma padding_len_room: "((n::nat) div 16 + 1) * 16 \<le> (n div 32 + 1) * 32"
proof -
  have "n div 16 + 1 \<le> (n div 16 div 2 + 1) * 2"
    by simp
  then have "(n div 16 + 1) * 16 \<le> (n div 16 div 2 + 1) * 2 * 16"
    by (rule mult_le_mono1)
  then show ?thesis
    by (simp add: div_32)
qed

lemma padding_len_ge:
  assumes "0 < d"
  shows "(n::nat) \<le> (n div d + 1) * d"
proof -
  have "n div d * d + n mod d = n"
    by (rule div_mult_mod_eq)
  moreover have "n mod d < d"
    using assms by simp
  ultimately show ?thesis
    unfolding add_mult_distrib by linarith
qed

lemma padding_gap:
  "((n::nat) div 32 + 1) * 32 - (n div 16 + 1) * 16 = (if n mod 32 < 16 then 16 else 0)"
proof -
  have "n mod 32 = 16 * (n div 16 mod 2) + n mod 16"
    using mod_mult2_eq [of n 16 2] by simp
  moreover have "n mod 16 < 16"
    by simp
  ultimately show ?thesis
    by (cases "even (n div 16)") (auto simp: div_32 elim!: evenE oddE)
qed

lemma encrypt_with_aes_ok:
  assumes "aes_law L" and "length token = 32"
  shows "\<exists>c. encrypt_with_aes L token target =
           (Inr c, c @ replicate (if length target mod 32 < 16 then 16 else 0) 0)
         \<and> length c = (length target div 16 + 1) * 16
         \<and> fst (decrypt_with_aes L token c) = Inr target"
proof -
  let ?n = "length target"
  define buf where "buf = target @ replicate ((?n div 32 + 1) * 32 - ?n) (0 :: byte)"
  have len: "length buf = (?n div 32 + 1) * 32"
    using padding_len_ge [of 32 ?n] by (simp add: buf_def)
  then have "?n \<le> length buf" "(?n div 16 + 1) * 16 \<le> length buf"
    using padding_len_ge [of 32 ?n] padding_len_room [of ?n] by simp_all
  with assms obtain c where c: "aes_encrypt_padded L token ?n buf = (Inr c, c @ drop (length c) buf)"
      "length c = (?n div 16 + 1) * 16" "fst (aes_decrypt_padded L token c) = Inr (take ?n buf)"
    unfolding aes_law_def by blast
  have "?n \<le> length c"
    using c(2) padding_len_ge [of 16 ?n] by simp
  then have "drop (length c) buf = replicate (length buf - length c) 0"
    by (simp add: buf_def)
  also have "length buf - length c = (if ?n mod 32 < 16 then 16 else 0)"
    using padding_gap [of ?n] by (simp only: len c(2))
  finally have "drop (length c) buf = replicate (if ?n mod 32 < 16 then 16 else 0) 0" .
  moreover have "take ?n buf = target"
    by (simp add: buf_def)
  ultimately show ?thesis
    using c assms(2)
    by (cases "aes_decrypt_padded L token c")
      (auto simp: encrypt_with_aes_def decrypt_with_aes_def aes_key_of_def BLOCK_SIZE_def
        Let_def buf_def)
qed

text \<open>A token of another length stops either function, whatever the message.\<close>

lemma aes_wrong_key_panics:
  assumes "length token \<noteq> 32"
  shows "fst (encrypt_with_aes L token target) = Inl Panic"
    and "fst (decrypt_with_aes L token target) = Inl Panic"
  using assms by (simp_all add: encrypt_with_aes_def decrypt_with_aes_def aes_key_of_def Let_def)

section \<open>RSA\<close>

record ('pk, 'sk) RsaCrypto =
  private_key :: 'sk
  public_key :: 'pk

text \<open>The two readers are what reading them to the end yields: their text, or an I/O error.\<close>

definition rsa_crypto_new ::
  "('pk, 'sk, 'z) crypto_lib_scheme \<Rightarrow> io_error + string \<Rightarrow> io_error + string
   \<Rightarrow> RsaError + ('pk, 'sk) RsaCrypto" where
  "rsa_crypto_new L public_key_read private_key_read =
     (case public_key_read of Inl e \<Rightarrow> Inl (RsaIo e) | Inr public_key_string \<Rightarrow>
      case public_key_from_pem L public_key_string of Inl e \<Rightarrow> Inl (Pkcs8SpkiError e) | Inr pk \<Rightarrow>
      case private_key_read of Inl e \<Rightarrow> Inl (RsaIo e) | Inr private_key_string \<Rightarrow>
      case private_key_from_pem L private_key_string of Inl e \<Rightarrow> Inl (Pkcs8Error e) | Inr sk \<Rightarrow>
      Inr \<lparr>private_key = sk, public_key = pk\<rparr>)"

definition rsa_encrypt ::
  "('pk, 'sk, 'z) crypto_lib_scheme \<Rightarrow> nat \<Rightarrow> ('pk, 'sk) RsaCrypto \<Rightarrow> bytes \<Rightarrow> RsaError + bytes" where
  "rsa_encrypt L rng self target =
     (case rsa_public_encrypt L (public_key self) rng target of
        Inl e \<Rightarrow> Inl (ConcreteRsa e) | Inr result \<Rightarrow> Inr result)"

definition rsa_decrypt ::
  "('pk, 'sk, 'z) crypto_lib_scheme \<Rightarrow> ('pk, 'sk) RsaCrypto \<Rightarrow> bytes \<Rightarrow> RsaError + bytes" where
  "rsa_decrypt L self target =
     (case rsa_private_decrypt L (private_key self) target of
        Inl e \<Rightarrow> Inl (ConcreteRsa e) | Inr result \<Rightarrow> Inr result)"

lemma rsa_roundtrip:
  assumes "rsa_law L (public_key a) (private_key b)" and "rsa_encrypt L rng a m = Inr c"
  shows "rsa_decrypt L b c = Inr m"
  using assms by (auto simp: rsa_law_def rsa_encrypt_def rsa_decrypt_def split: sum.splits)

text \<open>\<open>RsaCryptoFetcher::fetch\<close>.\<close>

type_synonym ('pk, 'sk) fetcher = "string \<Rightarrow> RsaError + ('pk, 'sk) RsaCrypto option"

end
