(* ===== verification/Framing.thy ===== *)
theory Framing
  imports Errors
begin

text \<open>
  The interface between \<open>tokio_util::codec::Framed\<close> and the decoders of this repository.

  A decoder is called whenever bytes have arrived, with everything that has not been
  consumed yet; it answers with an item, with "not enough yet", or with an error.  What a
  stream of bytes means must not depend on how the network cut it into pieces.  The locale
  \<open>stream_decoder\<close> states the two laws an item-producing decoder needs for that,
  \<open>robust_decoder\<close> adds the law for errors and a measure of progress, and within it the
  chunking of the input is proved irrelevant, once, for every decoder that interprets it.

  \<open>drain\<close> and \<open>feed\<close> are the specification's reading loop, not code of the repository:
  decode until the decoder asks for more or fails; append the next chunk and go on.
\<close>

type_synonym ('s, 'e, 'a) decoder = "('s \<times> bytes, 'e, 'a option) rust"

datatype ('s, 'e) pause =
    Waiting 's bytes
  | Stopped "'e failure"

fun drain :: "('s, 'e, 'a) decoder \<Rightarrow> nat \<Rightarrow> 's \<Rightarrow> bytes \<Rightarrow> 'a list \<times> ('s, 'e) pause" where
  "drain decode 0 self src = ([], Waiting self src)"
| "drain decode (Suc fuel) self src =
     (case decode (self, src) of
        (Inl f, _) \<Rightarrow> ([], Stopped f)
      | (Inr None, (self', src')) \<Rightarrow> ([], Waiting self' src')
      | (Inr (Some x), (self', src')) \<Rightarrow>
          (let (xs, p) = drain decode fuel self' src' in (x # xs, p)))"

fun feed :: "('s, 'e, 'a) decoder \<Rightarrow> ('s \<Rightarrow> bytes \<Rightarrow> nat) \<Rightarrow> 's \<Rightarrow> bytes \<Rightarrow> bytes list
    \<Rightarrow> 'a list \<times> ('s, 'e) pause" where
  "feed decode fuel self src [] = drain decode (fuel self src) self src"
| "feed decode fuel self src (c # cs) =
     (case drain decode (fuel self src) self src of
        (xs, Stopped f) \<Rightarrow> (xs, Stopped f)
      | (xs, Waiting self' src') \<Rightarrow>
          (let (ys, p) = feed decode fuel self' (src' @ c) cs in (xs @ ys, p)))"

text \<open>With the fuel a measure gives.\<close>

definition drain_all :: "('s, 'e, 'a) decoder \<Rightarrow> ('s \<Rightarrow> bytes \<Rightarrow> nat) \<Rightarrow> 's \<Rightarrow> bytes
    \<Rightarrow> 'a list \<times> ('s, 'e) pause" where
  "drain_all decode rank self src = drain decode (Suc (rank self src)) self src"

section \<open>Reading one item from a connection\<close>

text \<open>
  \<open>Framed::next\<close>, as its documentation describes it: bytes left in the read buffer are
  decoded first, then after every read that brings bytes; at the end of the stream the default
  \<open>decode_eof\<close> decodes once more and complains about bytes that remain.  The connection's
  future reads are the list; a read is an error of the operating system or some bytes, and
  the end of the list is the end of the stream.  The last component is what has not been read.
\<close>

type_synonym reads = "(io_error + bytes) list"

definition bytes_remaining :: io_error where
  "bytes_remaining = IoOs ''bytes remaining on stream''"

fun framed_read :: "('s, 'e, 'a) decoder \<Rightarrow> (io_error \<Rightarrow> 'e) \<Rightarrow> 's \<times> bytes \<Rightarrow> reads
    \<Rightarrow> ('e failure + 'a option) \<times> ('s \<times> bytes) \<times> reads" where
  "framed_read decode conv st [] =
     (case decode st of
        (Inr None, (self, src)) \<Rightarrow>
          (if src = [] then Inr None else Inl (Err (conv bytes_remaining)), (self, src), [])
      | (r, st') \<Rightarrow> (r, st', []))"
| "framed_read decode conv st (Inl e # cs) = (Inl (Err (conv e)), st, cs)"
| "framed_read decode conv (self, src) (Inr c # cs) =
     (case decode (self, src @ c) of
        (Inr None, st') \<Rightarrow> framed_read decode conv st' cs
      | (r, st') \<Rightarrow> (r, st', cs))"

definition framed_next :: "('s, 'e, 'a) decoder \<Rightarrow> (io_error \<Rightarrow> 'e) \<Rightarrow> 's \<times> bytes \<Rightarrow> reads
    \<Rightarrow> ('e failure + 'a option) \<times> ('s \<times> bytes) \<times> reads" where
  "framed_next decode conv st cs =
     (if snd st = [] then framed_read decode conv st cs
      else case decode st of
        (Inr None, st') \<Rightarrow> framed_read decode conv st' cs
      | (r, st') \<Rightarrow> (r, st', cs))"

locale stream_decoder =
  fixes decode :: "('s, 'e, 'a) decoder"
  assumes need_more: "decode (self, src) = (Inr None, (self', src')) \<Longrightarrow>
      decode (self, src @ more) = decode (self', src' @ more)"
    and frame_stable: "decode (self, src) = (Inr (Some x), (self', src')) \<Longrightarrow>
      decode (self, src @ more) = (Inr (Some x), (self', src' @ more))"
begin

text \<open>Asking again without new bytes changes nothing.\<close>

lemma idle:
  assumes "decode (self, src) = (Inr None, (self', src'))"
  shows "decode (self', src') = (Inr None, (self', src'))"
  using need_more [OF assms, of "[]"] assms by simp

lemma drain_idle:
  assumes "decode (self, src) = (Inr None, (self', src'))"
  shows "drain decode fuel self' src' = ([], Waiting self' src')"
  using idle [OF assms] by (cases fuel) simp_all

text \<open>
  An item that the bytes to come complete is delivered, wherever the reads cut them, provided
  no shorter prefix is taken for an error.
\<close>

lemma framed_read_item:
  assumes "decode (self, src) = (Inr None, (self, src))"
    and "decode (self, src @ concat cs) = (Inr (Some x), (self', rest))"
    and "\<And>n. n < length cs \<Longrightarrow> \<exists>i. fst (decode (self, src @ concat (take n cs))) = Inr i"
  shows "\<exists>src' cs'. framed_read decode conv (self, src) (map Inr cs) =
      (Inr (Some x), (self', src'), map Inr cs') \<and> src' @ concat cs' = rest"
  using assms
proof (induction cs arbitrary: self src)
  case (Cons c cs)
  obtain r self1 src1 where d: "decode (self, src @ c) = (r, (self1, src1))"
    by (metis prod.exhaust)
  show ?case
  proof (cases "r = Inr None")
    case True
    with d have step: "decode (self1, src1 @ suf) = decode (self, (src @ c) @ suf)" for suf
      using need_more by metis
    have "decode (self1, src1) = (Inr None, (self1, src1))"
      using d True idle by blast
    moreover have "decode (self1, src1 @ concat cs) = (Inr (Some x), (self', rest))"
      using Cons.prems(2) by (simp add: step)
    moreover have "\<exists>i. fst (decode (self1, src1 @ concat (take n cs))) = Inr i" if "n < length cs" for n
      using Cons.prems(3) [of "Suc n"] that by (simp add: step)
    ultimately show ?thesis
      using Cons.IH [of self1 src1] d True by simp
  next
    case False
    show ?thesis
    proof (cases r)
      case (Inl f)
      have "cs = []"
        using Cons.prems(3) [of 1] d Inl by (cases cs) auto
      with Cons.prems(2) d Inl show ?thesis
        by simp
    next
      case (Inr i)
      with False obtain y where y: "r = Inr (Some y)"
        by (cases i) auto
      with d have "decode (self, src @ c @ concat cs) = (Inr (Some y), (self1, src1 @ concat cs))"
        using frame_stable by (metis append.assoc)
      with Cons.prems(2) d y show ?thesis
        by (intro exI [of _ src1] exI [of _ cs]) simp
    qed
  qed
qed simp

lemma framed_next_now:
  "src \<noteq> [] \<Longrightarrow> decode (self, src) = (Inr (Some x), st) \<Longrightarrow>
    framed_next decode conv (self, src) cs = (Inr (Some x), st, cs)"
  by (simp add: framed_next_def)

end

locale robust_decoder = stream_decoder decode
  for decode :: "('s, 'e, 'a) decoder" +
  fixes rank :: "'s \<Rightarrow> bytes \<Rightarrow> nat"
  assumes error_stable: "decode (self, src) = (Inl f, st) \<Longrightarrow>
      fst (decode (self, src @ more)) = Inl f"
    and progress: "decode (self, src) = (Inr (Some x), (self', src')) \<Longrightarrow>
      rank self' src' < rank self src"
begin

text \<open>Any fuel above the rank gives the same answer, so the fuel never cuts a run short.\<close>

lemma drain_fuel:
  "rank self src < fuel \<Longrightarrow> rank self src < fuel' \<Longrightarrow>
   drain decode fuel self src = drain decode fuel' self src"
proof (induction fuel arbitrary: fuel' self src)
  case (Suc fuel)
  then obtain fuel1 where f: "fuel' = Suc fuel1"
    by (cases fuel') auto
  obtain r self' src' where d: "decode (self, src) = (r, (self', src'))"
    by (metis prod.exhaust)
  have "drain decode fuel self' src' = drain decode fuel1 self' src'" if "r = Inr (Some x)" for x
  proof -
    have "rank self' src' < rank self src"
      using progress d that by blast
    then have "rank self' src' < fuel" "rank self' src' < fuel1"
      using Suc.prems f by linarith+
    then show ?thesis by (rule Suc.IH)
  qed
  with d f show ?case
    by (auto split: sum.splits option.splits)
qed simp

text \<open>
  Draining a buffer and then, after more bytes have come, the rest, is draining all the bytes
  at once.
\<close>

lemma drain_append:
  assumes "rank self src < fuel" and "rank self (src @ more) < fuel'"
  shows "drain decode fuel' self (src @ more) =
    (case drain decode fuel self src of
       (xs, Stopped f) \<Rightarrow> (xs, Stopped f)
     | (xs, Waiting self' src') \<Rightarrow>
         (let (ys, p) = drain decode (Suc (rank self' (src' @ more))) self' (src' @ more)
          in (xs @ ys, p)))"
  using assms
proof (induction fuel arbitrary: fuel' self src)
  case (Suc fuel)
  then obtain fuel1 where f: "fuel' = Suc fuel1"
    by (cases fuel') auto
  obtain r self' src' where d: "decode (self, src) = (r, (self', src'))"
    by (metis prod.exhaust)
  show ?case
  proof (cases r)
    case (Inl e)
    with error_stable d have "fst (decode (self, src @ more)) = Inl e" by blast
    with d Inl f show ?thesis
      by (cases "decode (self, src @ more)") simp
  next
    case (Inr item)
    show ?thesis
    proof (cases item)
      case None
      have same: "decode (self, src @ more) = decode (self', src' @ more)"
        using need_more d Inr None by blast
      have "drain decode fuel' self (src @ more) =
          drain decode (Suc (rank self' (src' @ more))) self' (src' @ more)"
      proof -
        have "drain decode fuel' self (src @ more) =
            drain decode (Suc (rank self (src @ more)) + Suc (rank self' (src' @ more))) self
              (src @ more)"
          using Suc.prems(2) by (intro drain_fuel) simp_all
        also have "\<dots> =
            drain decode (Suc (rank self (src @ more)) + Suc (rank self' (src' @ more))) self'
              (src' @ more)"
          using same by simp
        also have "\<dots> = drain decode (Suc (rank self' (src' @ more))) self' (src' @ more)"
          by (intro drain_fuel) simp_all
        finally show ?thesis .
      qed
      with d Inr None show ?thesis by (simp split: prod.splits)
    next
      case (Some x)
      have now: "decode (self, src @ more) = (Inr (Some x), (self', src' @ more))"
        using frame_stable d Inr Some by blast
      have "rank self' src' < fuel" "rank self' (src' @ more) < fuel1"
        using progress [of self src x self' src'] progress [OF now] d Inr Some Suc.prems f
        by simp_all
      note IH = Suc.IH [OF this]
      show ?thesis
        using d Inr Some now f IH
        by (auto split: prod.splits pause.splits)
    qed
  qed
qed simp

text \<open>What one call of the decoder does to the items still to come, whatever bytes follow.\<close>

lemma drain_waits:
  assumes "decode (self, src) = (Inr None, (self', src'))"
  shows "drain_all decode rank self (src @ suf) = drain_all decode rank self' (src' @ suf)"
  unfolding drain_all_def
  using drain_append [of self src "Suc (rank self src)" suf "Suc (rank self (src @ suf))"] assms
  by (simp split: prod.splits)

lemma drain_item:
  assumes "decode (self, src) = (Inr (Some x), (self', src'))"
  shows "drain_all decode rank self (src @ suf) =
    map_prod ((#) x) id (drain_all decode rank self' (src' @ suf))"
proof -
  have now: "decode (self, src @ suf) = (Inr (Some x), (self', src' @ suf))"
    by (rule frame_stable [OF assms])
  have "drain decode (rank self (src @ suf)) self' (src' @ suf) =
      drain decode (Suc (rank self' (src' @ suf))) self' (src' @ suf)"
    using progress [OF now] by (intro drain_fuel) simp_all
  with now show ?thesis
    by (simp add: drain_all_def map_prod_def split: prod.splits)
qed

text \<open>The items of a prefix of the input are a prefix of the items.\<close>

lemma drain_prefix_items:
  "\<exists>ys. fst (drain_all decode rank self (src @ suf)) = fst (drain_all decode rank self src) @ ys"
  unfolding drain_all_def
  using drain_append [of self src "Suc (rank self src)" suf "Suc (rank self (src @ suf))"]
  by (auto split: prod.splits pause.splits)

text \<open>An item costs the decoder at least one unit of the measure.\<close>

lemma drain_bound: "length (fst (drain_all decode rank self src)) \<le> rank self src"
proof -
  have "length (fst (drain decode fuel self src)) \<le> rank self src" for fuel
  proof (induction fuel arbitrary: self src)
    case (Suc fuel)
    obtain r self' src' where d: "decode (self, src) = (r, (self', src'))"
      by (metis prod.exhaust)
    show ?case
    proof (cases r)
      case (Inr i)
      with d Suc [of self' src'] progress [of self src _ self' src'] show ?thesis
        by (cases i) (fastforce split: prod.splits)+
    qed (use d in simp)
  qed simp
  then show ?thesis
    unfolding drain_all_def by blast
qed

text \<open>Reading ends: more fuel changes nothing, and a reader that waits is one the decoder sent waiting.\<close>

lemma drain_ends:
  assumes "drain decode fuel self src = (xs, Waiting self' src')" and "rank self src < fuel"
  shows "\<exists>st. decode st = (Inr None, (self', src'))"
  using assms
proof (induction fuel arbitrary: self src xs)
  case (Suc fuel)
  obtain r self1 src1 where d: "decode (self, src) = (r, (self1, src1))"
    by (metis prod.exhaust)
  show ?case
  proof (cases "\<exists>x. r = Inr (Some x)")
    case True
    then obtain x where x: "r = Inr (Some x)" by blast
    with d Suc.prems have "\<exists>ys. drain decode fuel self1 src1 = (ys, Waiting self' src')"
      by (auto split: prod.splits)
    moreover have "rank self1 src1 < fuel"
      using progress d x Suc.prems(2) by fastforce
    ultimately show ?thesis
      using Suc.IH by blast
  next
    case False
    with d Suc.prems(1) show ?thesis
      by (auto split: sum.splits option.splits)
  qed
qed simp

lemma drain_settles:
  assumes "\<And>self src self' src'. decode (self, src) = (Inr None, (self', src')) \<Longrightarrow> waits self' src'"
  shows "\<exists>xs p. (\<forall>k. drain decode (Suc (rank self src) + k) self src = (xs, p))
    \<and> length xs \<le> rank self src
    \<and> (case p of Waiting self' src' \<Rightarrow> waits self' src' | Stopped f \<Rightarrow> True)"
proof -
  obtain xs p where x: "drain_all decode rank self src = (xs, p)"
    by fastforce
  have "drain decode (Suc (rank self src) + k) self src = (xs, p)" for k
    using drain_fuel [of self src "Suc (rank self src) + k" "Suc (rank self src)"] x
    by (simp add: drain_all_def)
  moreover have "case p of Waiting self' src' \<Rightarrow> waits self' src' | Stopped f \<Rightarrow> True"
    using x drain_ends [of "Suc (rank self src)" self src xs] assms
    by (fastforce simp: drain_all_def split: pause.split)
  ultimately show ?thesis
    using drain_bound [of self src] x by (intro exI [of _ xs] exI [of _ p]) simp
qed

lemma feed_concat:
  "feed decode (\<lambda>self src. Suc (rank self src)) self src cs =
   drain decode (Suc (rank self (src @ concat cs))) self (src @ concat cs)"
proof (induction cs arbitrary: self src)
  case (Cons c cs)
  show ?case
    using drain_append [of self src "Suc (rank self src)" "c @ concat cs"
        "Suc (rank self (src @ concat (c # cs)))"]
    by (simp add: Cons.IH split: prod.splits pause.splits)
qed simp

text \<open>Two ways to cut the same bytes into chunks yield the same items and the same end.\<close>

lemma chunking_irrelevant:
  assumes "concat cs = concat ds"
  shows "feed decode (\<lambda>self src. Suc (rank self src)) self src cs =
    feed decode (\<lambda>self src. Suc (rank self src)) self src ds"
  using assms by (simp add: feed_concat)

lemma drain_frame:
  assumes "decode (self, src) = (Inr (Some x), (self', src'))"
  shows "drain decode (Suc (rank self src)) self src =
    (let (xs, p) = drain decode (Suc (rank self' src')) self' src' in (x # xs, p))"
proof -
  have "rank self' src' < rank self src"
    by (rule progress [OF assms])
  then have "drain decode (rank self src) self' src' = drain decode (Suc (rank self' src')) self' src'"
    by (intro drain_fuel) simp_all
  with assms show ?thesis by simp
qed

end

end
