(* ===== verification/Streams.thy ===== *)
theory Streams
  imports Prelude
begin

text \<open>
  The stream combinators of \<open>futures\<close> and \<open>tokio_stream\<close> the relay tasks are built from, as
  their documentation describes them.  A stream that has been read to its end is the list
  of its items.  \<open>map_while f\<close> passes on \<open>f\<close> of each item until \<open>f\<close> returns
  \<open>None\<close>; \<open>forward\<close> sends every item into a sink, in order, until the sink errs.
\<close>

fun map_while :: "('a \<Rightarrow> 'b option) \<Rightarrow> 'a list \<Rightarrow> 'b list" where
  "map_while f [] = []"
| "map_while f (x # xs) = (case f x of None \<Rightarrow> [] | Some y \<Rightarrow> y # map_while f xs)"

fun forward :: "('i \<Rightarrow> ('w, 'e, unit) rust) \<Rightarrow> 'i list \<Rightarrow> ('w, 'e, unit) rust" where
  "forward send [] = ret ()"
| "forward send (x # xs) = bnd (send x) (\<lambda>_. forward send xs)"

lemma map_while_all:
  "(\<And>x. x \<in> set xs \<Longrightarrow> f x = Some (g x)) \<Longrightarrow> map_while f xs = map g xs"
  by (induction xs) simp_all

lemma map_while_stop:
  "(\<And>x. x \<in> set xs \<Longrightarrow> f x = Some (g x)) \<Longrightarrow> f y = None \<Longrightarrow> map_while f (xs @ y # ys) = map g xs"
  by (induction xs) simp_all

lemma map_while_takeWhile:
  "map_while f xs = map (\<lambda>x. the (f x)) (takeWhile (\<lambda>x. f x \<noteq> None) xs)"
  by (induction xs) (auto split: option.splits)

section \<open>Encoders that append\<close>

text \<open>
  An \<open>Encoder\<close> of \<open>tokio_util\<close> is handed the write buffer, which may hold frames that have not
  been flushed; it must append its own and look at nothing before.  Then what a sequence of sends
  leaves in the buffer does not depend on how much of it has been flushed in between.
\<close>

locale stream_encoder =
  fixes encode :: "'i \<Rightarrow> ('b list, 'e, unit) rust"
  assumes appends: "encode x dst = (case encode x [] of (r, w) \<Rightarrow> (r, dst @ w))"
begin

lemma encode_from: "encode x [] = (r, w) \<Longrightarrow> encode x dst = (r, dst @ w)"
  using appends [of x dst] by simp

lemma encode_split:
  assumes "encode x dst = (r, dst')"
  obtains w where "dst' = dst @ w" "encode x [] = (r, w)"
  using assms appends [of x dst] by (cases "encode x []") simp

lemma forward_from: "forward encode xs dst = (case forward encode xs [] of (r, w) \<Rightarrow> (r, dst @ w))"
proof (induction xs arbitrary: dst)
  case (Cons x xs)
  obtain r w where e: "encode x [] = (r, w)"
    by (cases "encode x []")
  obtain r' w' where f: "forward encode xs [] = (r', w')"
    by (cases "forward encode xs []")
  have rest: "forward encode xs d = (r', d @ w')" for d
    using Cons.IH [of d] f by simp
  show ?case
    by (simp add: bnd_def e encode_from [OF e] rest split: sum.split)
qed (simp add: ret_def)

lemma forward_snoc:
  "forward encode xs [] = (Inr (), w) \<Longrightarrow> encode x [] = (Inr (), v) \<Longrightarrow>
    forward encode (xs @ [x]) [] = (Inr (), w @ v)"
proof (induction xs arbitrary: w)
  case (Cons y ys)
  then obtain w1 where y: "encode y [] = (Inr (), w1)" "forward encode ys w1 = (Inr (), w)"
    by (auto simp: bnd_Inr_iff)
  obtain w2 where w2: "forward encode ys [] = (Inr (), w2)" "w = w1 @ w2"
    using y(2) forward_from [of ys w1] by (cases "forward encode ys []") simp
  have "forward encode (ys @ [x]) w1 = (Inr (), w1 @ w2 @ v)"
    using Cons.IH [OF w2(1) Cons.prems(2)] forward_from [of "ys @ [x]" w1] by simp
  with y(1) w2(2) show ?case
    by (simp add: bnd_def)
qed (simp add: bnd_def ret_def)

end

section \<open>Both at once, with effects\<close>

text \<open>
  The relay tasks are \<open>map_while(stream, f).forward(sink)\<close> with an \<open>f\<close> that may draw random
  identifiers: for each item, apply \<open>f\<close>; stop quietly at \<open>None\<close>; otherwise send, and stop
  with the sink's error if that fails.
\<close>

fun map_while_forward ::
  "('i \<Rightarrow> ('w, 'e, 'o option) rust) \<Rightarrow> ('o \<Rightarrow> ('w, 'e, unit) rust) \<Rightarrow> 'i list \<Rightarrow> ('w, 'e, unit) rust" where
  "map_while_forward f send [] = ret ()"
| "map_while_forward f send (x # xs) =
     bnd (f x) (\<lambda>y. case y of None \<Rightarrow> ret ()
       | Some o' \<Rightarrow> bnd (send o') (\<lambda>_. map_while_forward f send xs))"

text \<open>\<open>if let Err(e) = ... { error!(...) }\<close>: an error is logged and dropped, a panic is not.\<close>

definition logged :: "('w, 'x, unit) rust \<Rightarrow> ('w, 'e, unit) rust" where
  "logged m = (\<lambda>w. case m w of (Inl Panic, w') \<Rightarrow> (Inl Panic, w') | (Inl (Err e), w') \<Rightarrow> (Inr (), w')
     | (Inr u, w') \<Rightarrow> (Inr (), w'))"

lemma map_while_forward_pure:
  assumes "\<And>x. f x = ret (g x)"
  shows "map_while_forward f send xs = forward send (map_while g xs)"
  by (induction xs) (auto simp: assms split: option.split)

end
