(* ===== verification/Duplex.thy ===== *)
theory Duplex
  imports Framing Streams
begin

text \<open>
  The traits \<open>Sink\<close> and \<open>Stream\<close> of \<open>futures\<close>, which every connection of the repository
  implements, as records of their methods, and what may happen to an object that implements
  both: its owner polls, sends and reads in any order, writes of the socket are partial, reads
  bring any number of bytes.  The laws are those the documentation of \<open>tokio_util::codec::Framed\<close>
  gives: nothing that has been encoded is lost or reordered on its way through the write buffer to
  the socket, a completed flush leaves the buffer empty, and an item is what the decoder makes of
  the bytes that have arrived.
\<close>

section \<open>Polls and the two traits\<close>

datatype 'a poll =
    Ready 'a
  | Pending

record ('s, 'e, 'i) sink =
  poll_ready :: "'s \<Rightarrow> ('e + unit) poll \<times> 's"
  start_send :: "'i \<Rightarrow> ('s, 'e, unit) rust"
  poll_flush :: "'s \<Rightarrow> ('e + unit) poll \<times> 's"
  poll_close :: "'s \<Rightarrow> ('e + unit) poll \<times> 's"

type_synonym ('s, 'e, 'o) stream = "'s \<Rightarrow> ('e failure + 'o) option poll \<times> 's"

text \<open>\<open>map_err\<close> on a poll.\<close>

definition poll_map_err :: "('x \<Rightarrow> 'e) \<Rightarrow> ('x + 'a) poll \<Rightarrow> ('e + 'a) poll" where
  "poll_map_err conv p = (case p of Pending \<Rightarrow> Pending | Ready r \<Rightarrow> Ready (map_sum conv id r))"

section \<open>What is visible of a framed object\<close>

text \<open>
  The codec, the two buffers (\<open>codec\<close>, \<open>read_buffer\<close> and \<open>write_buffer\<close> of \<open>Framed\<close>), the bytes the
  socket has accepted, and those it will still deliver.
\<close>

record 'c framed_view =
  v_codec :: 'c
  v_read_buf :: bytes
  v_write_buf :: bytes
  v_sent :: bytes
  v_coming :: bytes

text \<open>Polling the write side moves bytes from the buffer to the socket, some or all or none.\<close>

definition written :: "'c framed_view \<Rightarrow> 'c framed_view \<Rightarrow> bool" where
  "written v v' \<longleftrightarrow> (\<exists>out. v_write_buf v = out @ v_write_buf v'
     \<and> v' = v\<lparr>v_write_buf := v_write_buf v', v_sent := v_sent v @ out\<rparr>)"

definition sink_law ::
  "('c \<Rightarrow> 'i \<Rightarrow> (bytes, 'e, unit) rust) \<Rightarrow> ('s, 'e, 'i) sink \<Rightarrow> ('s \<Rightarrow> 'c framed_view) \<Rightarrow> bool" where
  "sink_law encode K view \<longleftrightarrow> (\<forall>s.
     written (view s) (view (snd (poll_ready K s)))
   \<and> written (view s) (view (snd (poll_flush K s)))
   \<and> (fst (poll_flush K s) = Ready (Inr ()) \<longrightarrow> v_write_buf (view (snd (poll_flush K s))) = [])
   \<and> written (view s) (view (snd (poll_close K s)))
   \<and> (fst (poll_close K s) = Ready (Inr ()) \<longrightarrow> v_write_buf (view (snd (poll_close K s))) = [])
   \<and> (\<forall>i. fst (start_send K i s) = fst (encode (v_codec (view s)) i (v_write_buf (view s)))
        \<and> view (snd (start_send K i s)) =
            (view s)\<lparr>v_write_buf := snd (encode (v_codec (view s)) i (v_write_buf (view s)))\<rparr>))"

text \<open>
  Reading: each chunk that arrives is appended to what the decoder has left, and the decoder is
  asked again.
\<close>

fun reading :: "('c, 'e, 'o) decoder \<Rightarrow> 'c \<times> bytes \<Rightarrow> bytes list \<Rightarrow> ('c \<times> bytes) option" where
  "reading decode st [] = Some st"
| "reading decode (self, src) (c # cs) =
     (case decode (self, src @ c) of (Inr None, st) \<Rightarrow> reading decode st cs | _ \<Rightarrow> None)"

definition stream_step ::
  "('c, 'e, 'o) decoder \<Rightarrow> 'c framed_view \<Rightarrow> ('e failure + 'o) option poll \<Rightarrow> 'c framed_view \<Rightarrow> bool" where
  "stream_step decode v p v' \<longleftrightarrow>
     v_write_buf v' = v_write_buf v \<and> v_sent v' = v_sent v
   \<and> (\<exists>cs. v_coming v = concat cs @ v_coming v' \<and>
        (case p of
           Pending \<Rightarrow>
             reading decode (v_codec v, v_read_buf v) ([] # cs) = Some (v_codec v', v_read_buf v')
         | Ready (Some (Inr x)) \<Rightarrow> \<exists>self src ds c. cs = ds @ [c]
             \<and> reading decode (v_codec v, v_read_buf v) ds = Some (self, src)
             \<and> decode (self, src @ c) = (Inr (Some x), (v_codec v', v_read_buf v'))
         | _ \<Rightarrow> True))"

definition stream_law ::
  "('c, 'e, 'o) decoder \<Rightarrow> ('s, 'e, 'o) stream \<Rightarrow> ('s \<Rightarrow> 'c framed_view) \<Rightarrow> bool" where
  "stream_law decode T view \<longleftrightarrow> (\<forall>s. stream_step decode (view s) (fst (T s)) (view (snd (T s))))"

text \<open>An object that hands every call to one it owns keeps its laws.\<close>

lemma sink_law_lift:
  assumes "sink_law encode K view" and "\<And>i s. get (put i s) = i"
    and "\<And>s. poll_ready K' s = map_prod id (\<lambda>i. put i s) (poll_ready K (get s))"
    and "\<And>s. poll_flush K' s = map_prod id (\<lambda>i. put i s) (poll_flush K (get s))"
    and "\<And>s. poll_close K' s = map_prod id (\<lambda>i. put i s) (poll_close K (get s))"
    and "\<And>s x. start_send K' x s = map_prod id (\<lambda>i. put i s) (start_send K x (get s))"
  shows "sink_law encode K' (\<lambda>s. view (get s))"
  using assms(1) by (simp add: sink_law_def assms(2-6))

lemma stream_law_lift:
  assumes "stream_law decode T view" and "\<And>i s. get (put i s) = i"
    and "\<And>s. T' s = map_prod id (\<lambda>i. put i s) (T (get s))"
  shows "stream_law decode T' (\<lambda>s. view (get s))"
  using assms(1) by (simp add: stream_law_def assms(2,3))

section \<open>Runs\<close>

text \<open>
  Any sequence of polls, successful sends and successful reads: the items sent, the items received.
\<close>

inductive duplex_run ::
  "('s, 'e, 'i) sink \<Rightarrow> ('s, 'e, 'o) stream \<Rightarrow> 's \<Rightarrow> 'i list \<Rightarrow> 'o list \<Rightarrow> 's \<Rightarrow> bool"
  for K T s where
  start: "duplex_run K T s [] [] s"
| ready: "duplex_run K T s ms xs t \<Longrightarrow> poll_ready K t = (p, t') \<Longrightarrow> duplex_run K T s ms xs t'"
| send: "duplex_run K T s ms xs t \<Longrightarrow> start_send K i t = (Inr (), t') \<Longrightarrow>
    duplex_run K T s (ms @ [i]) xs t'"
| flush: "duplex_run K T s ms xs t \<Longrightarrow> poll_flush K t = (p, t') \<Longrightarrow> duplex_run K T s ms xs t'"
| close: "duplex_run K T s ms xs t \<Longrightarrow> poll_close K t = (p, t') \<Longrightarrow> duplex_run K T s ms xs t'"
| wait: "duplex_run K T s ms xs t \<Longrightarrow> T t = (Pending, t') \<Longrightarrow> duplex_run K T s ms xs t'"
| item: "duplex_run K T s ms xs t \<Longrightarrow> T t = (Ready (Some (Inr x)), t') \<Longrightarrow>
    duplex_run K T s ms (xs @ [x]) t'"

section \<open>Nothing is lost, repeated or reordered\<close>

lemma writtenD:
  assumes "written v v'"
  shows "v_sent v' @ v_write_buf v' = v_sent v @ v_write_buf v" "v_codec v' = v_codec v"
    "v_read_buf v' = v_read_buf v" "v_coming v' = v_coming v"
proof -
  obtain out where o: "v_write_buf v = out @ v_write_buf v'"
      "v' = v\<lparr>v_write_buf := v_write_buf v', v_sent := v_sent v @ out\<rparr>"
    using assms by (auto simp: written_def)
  have "v_sent v' = v_sent v @ out"
    by (subst o(2)) simp
  with o(1) show "v_sent v' @ v_write_buf v' = v_sent v @ v_write_buf v"
    by simp
  show "v_codec v' = v_codec v" "v_read_buf v' = v_read_buf v" "v_coming v' = v_coming v"
    by (subst o(2), simp)+
qed

lemma sink_lawD:
  assumes "sink_law encode K view"
  shows "poll_ready K s = (p, s') \<Longrightarrow> written (view s) (view s')"
    and "poll_flush K s = (p, s') \<Longrightarrow> written (view s) (view s')"
    and "poll_close K s = (p, s') \<Longrightarrow> written (view s) (view s')"
    and "start_send K i s = (r, s') \<Longrightarrow> \<exists>dst.
      encode (v_codec (view s)) i (v_write_buf (view s)) = (r, dst) \<and> view s' = (view s)\<lparr>v_write_buf := dst\<rparr>"
  using assms unfolding sink_law_def by (metis fst_conv snd_conv prod.collapse)+

lemma stream_lawD:
  assumes "stream_law decode T view" "T s = (p, s')"
  shows "v_write_buf (view s') = v_write_buf (view s)" "v_sent (view s') = v_sent (view s)"
    and "p = Pending \<Longrightarrow> \<exists>cs. v_coming (view s) = concat cs @ v_coming (view s')
      \<and> reading decode (v_codec (view s), v_read_buf (view s)) ([] # cs) =
          Some (v_codec (view s'), v_read_buf (view s'))"
    and "p = Ready (Some (Inr x)) \<Longrightarrow> \<exists>self src ds c.
      v_coming (view s) = concat ds @ c @ v_coming (view s')
      \<and> reading decode (v_codec (view s), v_read_buf (view s)) ds = Some (self, src)
      \<and> decode (self, src @ c) = (Inr (Some x), (v_codec (view s'), v_read_buf (view s')))"
proof -
  have step: "stream_step decode (view s) p (view s')"
    using assms by (metis stream_law_def fst_conv snd_conv)
  then show "v_write_buf (view s') = v_write_buf (view s)" "v_sent (view s') = v_sent (view s)"
    by (simp_all add: stream_step_def)
  show "p = Pending \<Longrightarrow> \<exists>cs. v_coming (view s) = concat cs @ v_coming (view s')
      \<and> reading decode (v_codec (view s), v_read_buf (view s)) ([] # cs) =
          Some (v_codec (view s'), v_read_buf (view s'))"
    using step by (auto simp: stream_step_def simp del: reading.simps)
  show "p = Ready (Some (Inr x)) \<Longrightarrow> \<exists>self src ds c.
      v_coming (view s) = concat ds @ c @ v_coming (view s')
      \<and> reading decode (v_codec (view s), v_read_buf (view s)) ds = Some (self, src)
      \<and> decode (self, src @ c) = (Inr (Some x), (v_codec (view s'), v_read_buf (view s')))"
    using step by (auto simp: stream_step_def) blast
qed

text \<open>The read side may change the codec, but only in ways \<open>encode\<close> does not see.\<close>

definition unseen :: "('c, 'e, 'o) decoder \<Rightarrow> ('c \<Rightarrow> 'x) \<Rightarrow> bool" where
  "unseen decode encode \<longleftrightarrow> (\<forall>c src. encode (fst (snd (decode (c, src)))) = encode c)"

lemma unseenD: "unseen decode encode \<Longrightarrow> decode (c, src) = (r, (c', src')) \<Longrightarrow> encode c' = encode c"
  by (metis unseen_def fst_conv snd_conv)

lemma reading_encode:
  assumes "unseen decode encode" and "reading decode st cs = Some st'"
  shows "encode (fst st') = encode (fst st)"
  using assms(2)
proof (induction cs arbitrary: st)
  case (Cons c cs)
  then show ?case
    by (cases st) (auto split: prod.splits sum.splits option.splits dest: unseenD [OF assms(1)])
qed simp

lemma stream_law_encode:
  assumes "unseen decode encode" "stream_law decode T view" "T s = (p, s')"
    and "p = Pending \<or> p = Ready (Some (Inr x))"
  shows "encode (v_codec (view s')) = encode (v_codec (view s))"
proof -
  have r: "encode c' = encode c" if "reading decode (c, b) cs = Some (c', b')" for c b cs c' b'
    using reading_encode [OF assms(1) that] by simp
  from assms(4) show ?thesis
    using stream_lawD(3,4) [OF assms(2,3)] r unseenD [OF assms(1)] by metis
qed

text \<open>
  The write side: what the socket has accepted and what waits in the buffer is the encoding of
  the items sent, in their order.
\<close>

lemma duplex_run_encodes:
  assumes "\<And>c. stream_encoder (encode c)"
    and "unseen decode encode"
    and "sink_law encode K view" "stream_law decode T view"
    and "duplex_run K T s ms xs t"
  shows "encode (v_codec (view t)) = encode (v_codec (view s)) \<and>
    (\<exists>w. forward (encode (v_codec (view s))) ms [] = (Inr (), w)
      \<and> v_sent (view t) @ v_write_buf (view t) = v_sent (view s) @ v_write_buf (view s) @ w)"
  using assms(5)
proof (induction rule: duplex_run.induct)
  case start
  show ?case by (simp add: ret_def)
next
  case (send ms xs t i t')
  obtain w dst where w: "forward (encode (v_codec (view s))) ms [] = (Inr (), w)"
      "v_sent (view t) @ v_write_buf (view t) = v_sent (view s) @ v_write_buf (view s) @ w"
    and d: "encode (v_codec (view s)) i (v_write_buf (view t)) = (Inr (), dst)"
      "view t' = (view t)\<lparr>v_write_buf := dst\<rparr>"
    using send sink_lawD(4) [OF assms(3) send.hyps(2)] by auto
  obtain u where u: "dst = v_write_buf (view t) @ u" "encode (v_codec (view s)) i [] = (Inr (), u)"
    by (rule stream_encoder.encode_split [OF assms(1) d(1)])
  have "forward (encode (v_codec (view s))) (ms @ [i]) [] = (Inr (), w @ u)"
    by (rule stream_encoder.forward_snoc [OF assms(1) w(1) u(2)])
  with send.IH w(2) u(1) d(2) show ?case
    by (auto simp flip: append_assoc)
next
  case (wait ms xs t t')
  then show ?case
    using stream_law_encode [OF assms(2,4) wait.hyps(2)] stream_lawD(1,2) [OF assms(4) wait.hyps(2)]
    by simp
next
  case (item ms xs t x t')
  then show ?case
    using stream_law_encode [OF assms(2,4) item.hyps(2)] stream_lawD(1,2) [OF assms(4) item.hyps(2)]
    by simp
qed (auto dest!: sink_lawD [OF assms(3)] dest: writtenD)

context robust_decoder
begin

lemma reading_items:
  "reading decode (self, src) cs = Some (self', src') \<Longrightarrow>
    drain_all decode rank self (src @ concat cs @ suf) = drain_all decode rank self' (src' @ suf)"
proof (induction cs arbitrary: self src)
  case (Cons c cs)
  then obtain s1 b1 where "decode (self, src @ c) = (Inr None, (s1, b1))"
      "reading decode (s1, b1) cs = Some (self', src')"
    by (auto split: prod.splits sum.splits option.splits)
  with Cons.IH [of s1 b1] drain_waits [of self "src @ c" s1 b1 "concat cs @ suf"] show ?case
    by simp
qed simp

lemma reading_idle:
  "reading decode (self, src) (c # cs) = Some (self', src') \<Longrightarrow>
    decode (self', src') = (Inr None, (self', src'))"
proof (induction cs arbitrary: self src c)
  case Nil
  then show ?case
    using idle by (auto split: prod.splits sum.splits option.splits)
next
  case (Cons d ds)
  then show ?case
    by (auto split: prod.splits sum.splits option.splits)
qed

text \<open>
  The read side: the items received are the first of those the whole input holds, and what the
  object will still deliver are the others.
\<close>

lemma duplex_run_items:
  assumes "sink_law encode K view" "stream_law decode T view" "duplex_run K T s ms xs t"
  shows "drain_all decode rank (v_codec (view s)) (v_read_buf (view s) @ v_coming (view s)) =
    map_prod ((@) xs) id
      (drain_all decode rank (v_codec (view t)) (v_read_buf (view t) @ v_coming (view t)))"
    (is "?all = map_prod ((@) xs) id (?rest t)")
  using assms(3)
proof (induction rule: duplex_run.induct)
  case start
  show ?case
    by (simp add: map_prod_def)
next
  case (wait ms xs t t')
  then obtain cs where "v_coming (view t) = concat cs @ v_coming (view t')"
      "reading decode (v_codec (view t), v_read_buf (view t)) ([] # cs) =
        Some (v_codec (view t'), v_read_buf (view t'))"
    using stream_lawD(3) [OF assms(2)] by blast
  with reading_items [OF this(2), of "v_coming (view t')"] wait.IH show ?case
    by simp
next
  case (item ms xs t x t')
  then obtain self src ds c where c: "v_coming (view t) = concat ds @ c @ v_coming (view t')"
      "reading decode (v_codec (view t), v_read_buf (view t)) ds = Some (self, src)"
      "decode (self, src @ c) = (Inr (Some x), (v_codec (view t'), v_read_buf (view t')))"
    using stream_lawD(4) [OF assms(2)] by blast
  have "?rest t = map_prod ((#) x) id (?rest t')"
    using reading_items [OF c(2), of "c @ v_coming (view t')"]
      drain_item [OF c(3), of "v_coming (view t')"] c(1) by simp
  with item.IH show ?case
    by (simp add: map_prod_def split: prod.splits)
qed (auto dest!: sink_lawD [OF assms(1)] simp: writtenD(2-4))

text \<open>When the object waits and nothing is coming any more, everything has been received.\<close>

lemma duplex_run_drained:
  assumes "sink_law encode K view" "stream_law decode T view" "duplex_run K T s ms xs t"
    and "T t = (Pending, t')" "v_coming (view t') = []"
  shows "fst (drain_all decode rank (v_codec (view s)) (v_read_buf (view s) @ v_coming (view s))) = xs"
proof -
  obtain cs where "reading decode (v_codec (view t), v_read_buf (view t)) ([] # cs) =
        Some (v_codec (view t'), v_read_buf (view t'))"
    using stream_lawD(3) [OF assms(2,4)] by blast
  then have "drain_all decode rank (v_codec (view t')) (v_read_buf (view t')) =
      ([], Waiting (v_codec (view t')) (v_read_buf (view t')))"
    unfolding drain_all_def by (rule drain_idle [OF reading_idle])
  with duplex_run_items [OF assms(1,2) duplex_run.wait [OF assms(3,4)]] assms(5) show ?thesis
    by simp
qed

text \<open>
  Both ends of one connection: what one end has received is the beginning of what the other has
  encoded, and all of it once the writer has flushed and the reader waits with nothing coming.
\<close>

lemma duplex_delivers:
  assumes writer: "\<And>c. stream_encoder (encode c)" "unseen decode' encode"
      "sink_law encode K view" "stream_law decode' T view" "duplex_run K T s ms rs t"
      "v_sent (view s) = []" "v_write_buf (view s) = []"
    and reader: "sink_law encode' K' view'" "stream_law decode T' view'" "duplex_run K' T' s' ms' xs t'"
      "v_read_buf (view' s') = []" "v_coming (view' s') = v_sent (view t)"
  shows "\<exists>zs. forward (encode (v_codec (view s))) ms [] = (Inr (), v_sent (view t) @ v_write_buf (view t))
    \<and> fst (drain_all decode rank (v_codec (view' s')) (v_sent (view t) @ v_write_buf (view t))) = xs @ zs
    \<and> (v_write_buf (view t) = [] \<longrightarrow> (\<forall>u. T' t' = (Pending, u) \<longrightarrow> v_coming (view' u) = [] \<longrightarrow> zs = []))"
proof -
  have w: "forward (encode (v_codec (view s))) ms [] = (Inr (), v_sent (view t) @ v_write_buf (view t))"
    using duplex_run_encodes [OF writer(1-5)] writer(6,7) by simp
  obtain ys where ys: "fst (drain_all decode rank (v_codec (view' s')) (v_sent (view t) @ v_write_buf (view t))) =
      fst (drain_all decode rank (v_codec (view' s')) (v_sent (view t))) @ ys"
    using drain_prefix_items by blast
  have all: "ys = []" if "v_write_buf (view t) = []"
    using ys that by simp
  obtain zs where zs: "fst (drain_all decode rank (v_codec (view' s')) (v_sent (view t))) = xs @ zs"
    using arg_cong [OF duplex_run_items [OF reader(1-3)], of fst] reader(4,5) by simp
  have "zs = []" if "T' t' = (Pending, u)" "v_coming (view' u) = []" for u
    using duplex_run_drained [OF reader(1-3) that] reader(4,5) zs by simp
  with w ys zs all show ?thesis
    by (intro exI [of _ "zs @ ys"]) simp
qed

end

end
