(* ===== verification/ConnectionCodec.thy ===== *)
theory ConnectionCodec
  imports Crypto Duplex
begin

text \<open>
  What the two connection codecs of \<open>common/src/codec\<close> have in common.  \<open>codec/agent.rs\<close>
  and \<open>codec/proxy.rs\<close> repeat each other but for the direction of the messages; the parts
  they share literally (the constants, the codec's fields, the header and body stages of
  \<open>decode\<close>, the sealing stages of \<open>encode\<close>) are defined here once.

  A frame is the flag \<open>__PPAASS__\<close>, a byte that says whether the body is gzipped, the body's
  length as a big-endian \<open>u64\<close>, and the body.  The calls of \<open>BytesMut::reserve\<close> only
  ask for capacity and are not part of the decoder's result; what they ask for is recorded
  by \<open>decode_reserve\<close>.  A \<open>u64\<close> fits \<open>usize\<close> (64-bit targets).
\<close>

section \<open>Libraries of the codecs\<close>

text \<open>
  \<open>flate2\<close> and \<open>bincode\<close>: compression, and serialisation of the message envelope and of
  the payloads of the two directions.
\<close>

record ('pk, 'sk) codec_lib = "('pk, 'sk) crypto_lib" +
  gz_compress :: "bytes \<Rightarrow> io_error + bytes"
  gz_decompress :: "bytes \<Rightarrow> io_error + bytes"
  ser_codec_message :: "CodecPpaassMessage \<Rightarrow> ext_error + bytes"
  de_codec_message :: "bytes \<Rightarrow> ext_error + CodecPpaassMessage"
  ser_agent_payload :: "PpaassAgentMessagePayload \<Rightarrow> ext_error + bytes"
  de_agent_payload :: "bytes \<Rightarrow> ext_error + PpaassAgentMessagePayload"
  ser_proxy_payload :: "PpaassProxyMessagePayload \<Rightarrow> ext_error + bytes"
  de_proxy_payload :: "bytes \<Rightarrow> ext_error + PpaassProxyMessagePayload"

text \<open>Both libraries undo what they did.\<close>

definition gz_law :: "('pk, 'sk, 'z) codec_lib_scheme \<Rightarrow> bool" where
  [law_defs]: "gz_law L \<longleftrightarrow> (\<forall>b c. gz_compress L b = Inr c \<longrightarrow> gz_decompress L c = Inr b)"

definition bincode_law :: "('pk, 'sk, 'z) codec_lib_scheme \<Rightarrow> bool" where
  [law_defs]: "bincode_law L \<longleftrightarrow>
     (\<forall>m b. ser_codec_message L m = Inr b \<longrightarrow> de_codec_message L b = Inr m)
   \<and> (\<forall>m b. ser_agent_payload L m = Inr b \<longrightarrow> de_agent_payload L b = Inr m)
   \<and> (\<forall>m b. ser_proxy_payload L m = Inr b \<longrightarrow> de_proxy_payload L b = Inr m)"

text \<open>The conversions the macro \<open>make_as_bytes!\<close> generates.\<close>

definition bytes_try_into :: "(bytes \<Rightarrow> ext_error + 'a) \<Rightarrow> bytes \<Rightarrow> CommonError + 'a" where
  "bytes_try_into deserialize value =
     (case deserialize value of
        Inl e \<Rightarrow> Inl (CommonOther (''Fail to deserialize bytes to object because of error: '' @ e))
      | Inr a \<Rightarrow> Inr a)"

definition try_into_bytes :: "('a \<Rightarrow> ext_error + bytes) \<Rightarrow> 'a \<Rightarrow> CommonError + bytes" where
  "try_into_bytes serialize value =
     (case serialize value of
        Inl e \<Rightarrow> Inl (CommonOther (''Fail to serialize object to bytes because of error: '' @ e))
      | Inr b \<Rightarrow> Inr b)"

section \<open>The codec's constants and fields\<close>

definition PPAASS_FLAG :: bytes where
  "PPAASS_FLAG = as_bytes ''__PPAASS__''"

definition HEADER_LENGTH :: nat where
  "HEADER_LENGTH = length PPAASS_FLAG + 1 + 8"

definition COMPRESS_FLAG :: byte where
  "COMPRESS_FLAG = 1"

definition UN_COMPRESS_FLAG :: byte where
  "UN_COMPRESS_FLAG = 1"

datatype DecodeStatus =
    Head
  | Data bool u64

record ('pk, 'sk) connection_codec =
  rsa_crypto_fetcher :: "('pk, 'sk) fetcher"
  compress :: bool
  status :: DecodeStatus

definition codec_new :: "bool \<Rightarrow> ('pk, 'sk) fetcher \<Rightarrow> ('pk, 'sk) connection_codec" where
  "codec_new c f = \<lparr>rsa_crypto_fetcher = f, compress = c, status = Head\<rparr>"

lemma length_PPAASS_FLAG [simp]: "length PPAASS_FLAG = 10"
  by (simp add: PPAASS_FLAG_def)

lemma PPAASS_FLAG_bytes: "PPAASS_FLAG = [95, 95, 80, 80, 65, 65, 83, 83, 95, 95]"
  by (simp add: PPAASS_FLAG_def as_bytes_def byte_of_char_def)

lemma HEADER_LENGTH_19 [simp]: "HEADER_LENGTH = 19"
  by (simp add: HEADER_LENGTH_def)

section \<open>Decoding\<close>

text \<open>\<open>decode\<close> works on \<open>&mut self\<close> and \<open>src: &mut BytesMut\<close>: the pair is the state.\<close>

definition on_src :: "(bytes, 'e, 'a) rust \<Rightarrow> ('c \<times> bytes, 'e, 'a) rust" where
  [rust_defs]: "on_src m = (\<lambda>(self, src). case m src of (r, src') \<Rightarrow> (r, (self, src')))"

definition on_self :: "('c, 'e, 'a) rust \<Rightarrow> ('c \<times> bytes, 'e, 'a) rust" where
  [rust_defs]: "on_self m = (\<lambda>(self, src). case m self of (r, self') \<Rightarrow> (r, (self', src)))"

definition set_status :: "DecodeStatus \<Rightarrow> (('pk, 'sk) connection_codec, 'e, unit) rust" where
  [rust_defs]: "set_status st = (\<lambda>self. (Inr (), self\<lparr>status := st\<rparr>))"

definition flag_error :: CommonError where
  "flag_error = CommonDecoder (InvalidMessageFlag
     (''The incoming message is not begin with '' @ debug_bytes PPAASS_FLAG))"

definition read_header ::
  "(('pk, 'sk) connection_codec \<times> bytes, CommonError, (bool \<times> u64) option) rust" where
  "read_header = (\<lambda>(self, src).
     case status self of
       Head \<Rightarrow>
         if length src < HEADER_LENGTH then ret None (self, src)
         else
           bnd (on_src (split_to (length PPAASS_FLAG))) (\<lambda>ppaass_flag.
             if ppaass_flag \<noteq> PPAASS_FLAG then throw flag_error
             else
               bnd (on_src get_u8) (\<lambda>b.
               bnd (on_src get_u64) (\<lambda>body_length.
               bnd (on_self (set_status (Data (b = 1) body_length))) (\<lambda>_.
               ret (Some (b = 1, body_length)))))) (self, src)
     | Data compressed body_length \<Rightarrow> ret (Some (compressed, body_length)) (self, src))"

definition read_body ::
  "bool \<Rightarrow> u64 \<Rightarrow> (('pk, 'sk) connection_codec \<times> bytes, CommonError, bytes option) rust" where
  "read_body compressed body_length = (\<lambda>(self, src).
     if length src < unat body_length then ret None (self, src)
     else
       bnd (on_self (set_status (Data compressed body_length))) (\<lambda>_.
       bnd (on_src (split_to (unat body_length))) (\<lambda>body_bytes.
       ret (Some body_bytes))) (self, src))"

definition parse_body ::
  "('pk, 'sk, 'z) codec_lib_scheme \<Rightarrow> bool \<Rightarrow> bytes \<Rightarrow> CommonError + CodecPpaassMessage" where
  "parse_body L compressed body_bytes =
     (if compressed then
        (case gz_decompress L body_bytes of
           Inl e \<Rightarrow> Inl (CommonDecoder (DecIo e))
         | Inr decompressed_bytes \<Rightarrow> bytes_try_into (de_codec_message L) decompressed_bytes)
      else bytes_try_into (de_codec_message L) body_bytes)"

definition fetch_rsa_crypto ::
  "('pk, 'sk) fetcher \<Rightarrow> string \<Rightarrow> CommonError + ('pk, 'sk) RsaCrypto" where
  "fetch_rsa_crypto fetch user_token =
     (case fetch user_token of
        Inl e \<Rightarrow> Inl (CommonCrypto (Rsa e))
      | Inr None \<Rightarrow> Inl (CommonCrypto (Rsa (NotFound user_token)))
      | Inr (Some rsa_crypto) \<Rightarrow> Inr rsa_crypto)"

definition decrypt_payload ::
  "('pk, 'sk, 'z) codec_lib_scheme \<Rightarrow> ('pk, 'sk) RsaCrypto \<Rightarrow> PpaassMessagePayloadEncryption \<Rightarrow> bytes
   \<Rightarrow> CommonError failure + bytes" where
  "decrypt_payload L rsa_crypto payload_encryption encrypted_message_payload =
     (case payload_encryption of
        Plain \<Rightarrow> Inr encrypted_message_payload
      | AesEncryption encryption_token \<Rightarrow>
          (case rsa_decrypt L rsa_crypto encryption_token of
             Inl e \<Rightarrow> Inl (Err (CommonCrypto (Rsa e)))
           | Inr original_encryption_token \<Rightarrow>
               (case fst (decrypt_with_aes L original_encryption_token encrypted_message_payload) of
                  Inl (Err e) \<Rightarrow> Inl (Err (CommonCrypto (Aes e)))
                | Inl Panic \<Rightarrow> Inl Panic
                | Inr decrypted \<Rightarrow> Inr decrypted)))"

text \<open>The capacity \<open>decode\<close> asks the allocator for, call by call, up to the body stage.\<close>

definition decode_reserve :: "('pk, 'sk) connection_codec \<Rightarrow> bytes \<Rightarrow> nat list" where
  "decode_reserve self src =
     (case status self of
        Head \<Rightarrow>
          if length src < HEADER_LENGTH then [HEADER_LENGTH]
          else if take (length PPAASS_FLAG) src \<noteq> PPAASS_FLAG then []
          else let n = be_nat (take 8 (drop 11 src)) in
            n # (if length src - HEADER_LENGTH < n then [n] else [])
      | Data compressed body_length \<Rightarrow>
          if length src < unat body_length then [unat body_length] else [])"

section \<open>The laws of framing\<close>

text \<open>
  The shape both decoders have: header, body, and then a stage that looks only at the body.
\<close>

definition framed_decode ::
  "(bool \<Rightarrow> bytes \<Rightarrow> (('pk, 'sk) connection_codec, CommonError, 'a) rust)
   \<Rightarrow> (('pk, 'sk) connection_codec, CommonError, 'a) decoder" where
  "framed_decode open_body =
     bnd read_header (\<lambda>h. case h of None \<Rightarrow> ret None | Some (compressed, body_length) \<Rightarrow>
     bnd (read_body compressed body_length) (\<lambda>b. case b of None \<Rightarrow> ret None | Some body_bytes \<Rightarrow>
     bnd (on_self (open_body compressed body_bytes)) (\<lambda>message. ret (Some message))))"

definition header_of :: "bytes \<Rightarrow> bool \<times> u64" where
  "header_of src = (src ! 10 = 1, word_of_nat (be_nat (take 8 (drop 11 src))))"

lemma read_header_Data [simp]:
  "status self = Data c n \<Longrightarrow> read_header (self, src) = (Inr (Some (c, n)), (self, src))"
  by (simp add: read_header_def ret_def)

lemma read_header_Head:
  assumes "status self = Head"
  shows "read_header (self, src) =
    (if length src < 19 then (Inr None, (self, src))
     else if take 10 src \<noteq> PPAASS_FLAG then (Inl (Err flag_error), (self, drop 10 src))
     else (Inr (Some (header_of src)),
       (self\<lparr>status := Data (fst (header_of src)) (snd (header_of src))\<rparr>, drop 19 src)))"
proof (cases "length src < 19 \<or> take 10 src \<noteq> PPAASS_FLAG")
  case True
  with assms show ?thesis
    by (auto simp: read_header_def rust_defs buf_defs)
next
  case False
  then have "drop 10 src = src ! 10 # drop 11 src"
    using Cons_nth_drop_Suc [of 10 src] by simp
  moreover have "\<not> length src - 11 < 8"
    using False by linarith
  ultimately show ?thesis
    using False assms by (simp add: read_header_def rust_defs buf_defs header_of_def)
qed

lemma read_body_eq:
  "read_body c n (self, src) =
    (if length src < unat n then (Inr None, (self, src))
     else (Inr (Some (take (unat n) src)), (self\<lparr>status := Data c n\<rparr>, drop (unat n) src)))"
  by (simp add: read_body_def rust_defs buf_defs)

lemma framed_decode_Data:
  assumes "status self = Data c n"
  shows "framed_decode op (self, src) =
    (if length src < unat n then (Inr None, (self, src))
     else case op c (take (unat n) src) self of
       (Inl f, self') \<Rightarrow> (Inl f, (self', drop (unat n) src))
     | (Inr m, self') \<Rightarrow> (Inr (Some m), (self', drop (unat n) src)))"
proof -
  have same: "self\<lparr>status := Data c n\<rparr> = self"
    using assms by (cases self) simp
  show ?thesis
    using assms by (auto simp: framed_decode_def bnd_def read_body_eq ret_def on_self_def same
        split: prod.splits sum.splits)
qed

lemma framed_decode_Head:
  assumes "status self = Head"
  shows "framed_decode op (self, src) =
    (if length src < 19 then (Inr None, (self, src))
     else if take 10 src \<noteq> PPAASS_FLAG then (Inl (Err flag_error), (self, drop 10 src))
     else framed_decode op
       (self\<lparr>status := Data (fst (header_of src)) (snd (header_of src))\<rparr>, drop 19 src))"
  using assms by (simp add: framed_decode_def bnd_def ret_def read_header_Head [OF assms])

lemma header_of_append:
  "19 \<le> length src \<Longrightarrow> header_of (src @ suf) = header_of src"
  by (simp add: header_of_def nth_append)

text \<open>Which of the three cases a buffer falls into does not depend on what comes after it.\<close>

lemma framed_decode_more:
  assumes "framed_decode op (self, src) = (r, (self', src'))"
  shows "case r of
      Inl f \<Rightarrow> fst (framed_decode op (self, src @ suf)) = Inl f
    | Inr None \<Rightarrow> framed_decode op (self, src @ suf) = framed_decode op (self', src' @ suf)
    | Inr (Some x) \<Rightarrow> framed_decode op (self, src @ suf) = (Inr (Some x), (self', src' @ suf))"
proof -
  have at_data: ?thesis
    if "status st = Data c n" "framed_decode op (st, buf) = (r, (self', src'))"
      "framed_decode op (self, src @ suf) = framed_decode op (st, buf @ suf)" for st buf c n
    using that by (auto simp: framed_decode_Data split: if_splits prod.splits sum.splits)
  show ?thesis
  proof (cases "status self")
    case (Data c n)
    then show ?thesis
      using at_data assms by blast
  next
    case Head
    show ?thesis
    proof (cases "length src < 19 \<or> take 10 src \<noteq> PPAASS_FLAG")
      case True
      with assms Head show ?thesis
        by (auto simp: framed_decode_Head split: if_splits)
    next
      case False
      with Head have "framed_decode op (self, src @ suf) = framed_decode op
          (self\<lparr>status := Data (fst (header_of src)) (snd (header_of src))\<rparr>, drop 19 src @ suf)"
        by (simp add: framed_decode_Head header_of_append)
      moreover have "framed_decode op
          (self\<lparr>status := Data (fst (header_of src)) (snd (header_of src))\<rparr>, drop 19 src) =
          (r, (self', src'))"
        using assms False Head by (simp add: framed_decode_Head)
      ultimately show ?thesis
        using at_data by (metis (no_types, lifting) connection_codec.select_convs(3)
            connection_codec.surjective connection_codec.update_convs(3))
    qed
  qed
qed

text \<open>Every frame makes progress: it consumes bytes or leaves the body stage.\<close>

definition codec_rank :: "('pk, 'sk) connection_codec \<Rightarrow> bytes \<Rightarrow> nat" where
  "codec_rank self src = length src + (case status self of Head \<Rightarrow> 0 | Data c n \<Rightarrow> 1)"

lemma framed_decode_progress:
  assumes head: "\<And>c body s x s'. op c body s = (Inr x, s') \<Longrightarrow> status s' = Head"
    and "framed_decode op (self, src) = (Inr (Some x), (self', src'))"
  shows "codec_rank self' src' < codec_rank self src"
proof (cases "status self")
  case (Data c n)
  with assms show ?thesis
    by (auto simp: framed_decode_Data codec_rank_def split: if_splits prod.splits sum.splits)
next
  case Head
  let ?st = "self\<lparr>status := Data (fst (header_of src)) (snd (header_of src))\<rparr>"
  have "19 \<le> length src" "framed_decode op (?st, drop 19 src) = (Inr (Some x), (self', src'))"
    using assms(2) Head by (auto simp: framed_decode_Head split: if_splits)
  moreover have "status ?st = Data (fst (header_of src)) (snd (header_of src))"
    by simp
  ultimately show ?thesis
    using Head head
    by (auto simp: framed_decode_Data codec_rank_def split: if_splits prod.splits sum.splits)
qed

text \<open>What a decoder that has asked for more leaves: less than a header, or less than the announced body.\<close>

definition awaits_more :: "('pk, 'sk) connection_codec \<Rightarrow> bytes \<Rightarrow> bool" where
  "awaits_more self src \<longleftrightarrow>
     (case status self of Head \<Rightarrow> length src < HEADER_LENGTH | Data c n \<Rightarrow> length src < unat n)"

lemma framed_decode_waits:
  assumes "framed_decode op (self, src) = (Inr None, (self', src'))"
  shows "awaits_more self' src'"
proof -
  have data: "awaits_more self' src'"
    if "status s = Data c n" "framed_decode op (s, b) = (Inr None, (self', src'))" for s b c n
    using that by (auto simp: framed_decode_Data awaits_more_def split: if_splits prod.splits sum.splits)
  show ?thesis
  proof (cases "status self")
    case Head
    show ?thesis
    proof (cases "length src < 19")
      case True
      with Head assms show ?thesis
        by (simp add: framed_decode_Head awaits_more_def)
    next
      case False
      let ?s = "self\<lparr>status := Data (fst (header_of src)) (snd (header_of src))\<rparr>"
      have "framed_decode op (?s, drop 19 src) = (Inr None, (self', src'))"
        using Head assms False by (simp add: framed_decode_Head split: if_splits)
      moreover have "status ?s = Data (fst (header_of src)) (snd (header_of src))"
        by simp
      ultimately show ?thesis
        by (rule data [rotated])
    qed
  qed (use assms data in blast)
qed

lemma codec_status_update:
  "compress (c\<lparr>status := st\<rparr>) = compress c"
  "rsa_crypto_fetcher (c\<lparr>status := st\<rparr>) = rsa_crypto_fetcher c"
  by simp_all

text \<open>Decoding changes nothing of the codec but its status.\<close>

lemma framed_decode_status:
  assumes "\<And>c body s. \<exists>st. snd (op c body s) = s\<lparr>status := st\<rparr>"
  shows "\<exists>st. fst (snd (framed_decode op (self, src))) = self\<lparr>status := st\<rparr>"
proof -
  have same: "\<exists>st. s = s\<lparr>status := st\<rparr>" for s :: "('a, 'b) connection_codec"
    by (rule exI [of _ "status s"]) simp
  have data: "\<exists>st. fst (snd (framed_decode op (s, b))) = s\<lparr>status := st\<rparr>"
    if "status s = Data c n" for s b c n
    using assms [of c "take (unat n) b" s] same [of s] that
    by (auto simp: framed_decode_Data split: prod.splits sum.splits)
  show ?thesis
  proof (cases "status self")
    case (Data c n)
    then show ?thesis by (rule data)
  next
    case Head
    let ?s = "self\<lparr>status := Data (fst (header_of src)) (snd (header_of src))\<rparr>"
    obtain st where "fst (snd (framed_decode op (?s, drop 19 src))) = ?s\<lparr>status := st\<rparr>"
      using data [of ?s] by auto
    with Head same [of self] show ?thesis
      by (auto simp: framed_decode_Head)
  qed
qed

text \<open>
  The specification's reading loop over a list of received chunks, from an empty buffer, with
  the fuel that is always enough.
\<close>

definition read_chunks ::
  "(('pk, 'sk) connection_codec, CommonError, 'a) decoder \<Rightarrow> ('pk, 'sk) connection_codec
   \<Rightarrow> bytes list \<Rightarrow> 'a list \<times> (('pk, 'sk) connection_codec, CommonError) pause" where
  "read_chunks decode self chunks = feed decode (\<lambda>s b. Suc (codec_rank s b)) self [] chunks"

section \<open>Encoding\<close>

definition write_buf :: "(bytes \<Rightarrow> bytes) \<Rightarrow> (bytes, 'e, unit) rust" where
  [rust_defs]: "write_buf f = (\<lambda>dst. (Inr (), f dst))"

definition write_flags :: "('pk, 'sk) connection_codec \<Rightarrow> (bytes, 'e, unit) rust" where
  "write_flags self =
     bnd (write_buf (put_slice PPAASS_FLAG)) (\<lambda>_.
     if compress self then write_buf (put_u8 COMPRESS_FLAG)
     else write_buf (put_u8 UN_COMPRESS_FLAG))"

definition seal_payload ::
  "('pk, 'sk, 'z) codec_lib_scheme \<Rightarrow> nat \<Rightarrow> ('pk, 'sk) RsaCrypto \<Rightarrow> PpaassMessagePayloadEncryption
   \<Rightarrow> CommonError + bytes \<Rightarrow> CommonError failure + (bytes \<times> PpaassMessagePayloadEncryption)" where
  "seal_payload L rng rsa_crypto payload_encryption original_message_payload =
     (case payload_encryption of
        Plain \<Rightarrow>
          (case original_message_payload of
             Inl e \<Rightarrow> Inl (Err e)
           | Inr payload \<Rightarrow> Inr (payload, Plain))
      | AesEncryption original_token \<Rightarrow>
          (case rsa_encrypt L rng rsa_crypto original_token of
             Inl e \<Rightarrow> Inl (Err (CommonCrypto (Rsa e)))
           | Inr encrypted_token \<Rightarrow>
               (case original_message_payload of
                  Inl e \<Rightarrow> Inl (Err e)
                | Inr payload \<Rightarrow>
                    (case fst (encrypt_with_aes L original_token payload) of
                       Inl (Err e) \<Rightarrow> Inl (Err (CommonEncoder (EncCrypto (Aes e))))
                     | Inl Panic \<Rightarrow> Inl Panic
                     | Inr encrypted \<Rightarrow> Inr (encrypted, AesEncryption encrypted_token)))))"

definition pack_body ::
  "('pk, 'sk, 'z) codec_lib_scheme \<Rightarrow> bool \<Rightarrow> CodecPpaassMessage \<Rightarrow> CommonError + bytes" where
  "pack_body L compressing message_to_encode =
     (case try_into_bytes (ser_codec_message L) message_to_encode of
        Inl e \<Rightarrow> Inl e
      | Inr result_bytes \<Rightarrow>
          (if compressing then
             (case gz_compress L result_bytes of
                Inl e \<Rightarrow> Inl (CommonIo e)
              | Inr zipped \<Rightarrow> Inr zipped)
           else Inr result_bytes))"

definition write_body :: "bytes \<Rightarrow> (bytes, 'e, unit) rust" where
  "write_body result_bytes =
     bnd (write_buf (put_u64 (word_of_nat (length result_bytes)))) (\<lambda>_.
     write_buf (put_slice result_bytes))"

text \<open>The bytes of one frame.\<close>

definition frame :: "byte \<Rightarrow> bytes \<Rightarrow> bytes" where
  "frame flag body = PPAASS_FLAG @ [flag] @ be_bytes 8 (unat (word_of_nat (length body) :: u64)) @ body"

lemma length_frame [simp]: "length (frame flag body) = 19 + length body"
  by (simp add: frame_def)

text \<open>
  The shape both encoders have: the flags, then a computation that does not look at the
  buffer, then length and body.
\<close>

definition framed_encode ::
  "('pk, 'sk) connection_codec \<Rightarrow> (CommonError failure + bytes) \<Rightarrow> (bytes, CommonError, unit) rust" where
  "framed_encode self body =
     bnd (write_flags self) (\<lambda>_. bnd (try_call id body) write_body)"

lemma write_flags_eq: "write_flags self dst = (Inr (), dst @ PPAASS_FLAG @ [1])"
  by (simp add: write_flags_def rust_defs buf_defs COMPRESS_FLAG_def UN_COMPRESS_FLAG_def)

lemma framed_encode_eq:
  "framed_encode self body dst =
    (case body of Inl f \<Rightarrow> (Inl f, dst @ PPAASS_FLAG @ [1]) | Inr b \<Rightarrow> (Inr (), dst @ frame 1 b))"
  by (auto simp: framed_encode_def write_flags_eq write_body_def frame_def rust_defs buf_defs
      split: sum.splits failure.splits)

lemma framed_decode_frame:
  assumes "status self = Head" and "length body < 2 ^ 64"
  shows "framed_decode op (self, frame flag body @ suf) =
    (case op (flag = 1) body (self\<lparr>status := Data (flag = 1) (word_of_nat (length body))\<rparr>) of
       (Inl f, self') \<Rightarrow> (Inl f, (self', suf))
     | (Inr m, self') \<Rightarrow> (Inr (Some m), (self', suf)))"
proof -
  let ?n = "word_of_nat (length body) :: u64"
  have n: "unat ?n = length body"
    using assms(2) by (simp add: unat_of_nat)
  have "header_of (frame flag body @ suf) = (flag = 1, ?n)"
    using assms(2) by (simp add: header_of_def frame_def nth_append n)
  then show ?thesis
    using assms(1) n
    by (simp add: framed_decode_Head framed_decode_Data frame_def split: prod.splits sum.splits)
qed

section \<open>Sealing and opening\<close>

text \<open>What one side seals, the other side opens, when their keys belong together.\<close>

lemma decrypt_seal_payload:
  assumes "aes_law L" and "rsa_law L (public_key ka) (private_key kb)"
    and "seal_payload L rng ka enc payload = Inr (sealed, enc')"
  shows "\<exists>p. payload = Inr p \<and> decrypt_payload L kb enc' sealed = Inr p"
proof (cases enc)
  case Plain
  with assms(3) show ?thesis
    by (auto simp: seal_payload_def decrypt_payload_def split: sum.splits)
next
  case (AesEncryption token)
  with assms(3) obtain t p where t: "rsa_encrypt L rng ka token = Inr t" "payload = Inr p"
      "fst (encrypt_with_aes L token p) = Inr sealed" "enc' = AesEncryption t"
    by (auto simp: seal_payload_def split: sum.splits failure.splits)
  have "length token = 32"
    using t(3) aes_wrong_key_panics(1) [of token L p] by (cases "length token = 32") simp_all
  with encrypt_with_aes_ok [OF assms(1), of token p] t(3)
  have "fst (decrypt_with_aes L token sealed) = Inr p"
    by auto
  with t rsa_roundtrip [OF assms(2) t(1)] show ?thesis
    by (simp add: decrypt_payload_def)
qed

lemma parse_pack_body:
  assumes "gz_law L" and "bincode_law L" and "pack_body L True m = Inr body"
  shows "parse_body L True body = Inr m"
  using assms by (auto simp: pack_body_def parse_body_def gz_law_def bincode_law_def
      try_into_bytes_def bytes_try_into_def split: sum.splits)

end
