(* ===== verification/ProxyCodec.thy ===== *)
theory ProxyCodec
  imports ConnectionCodec
begin

text \<open>
  \<open>common/src/codec/proxy.rs\<close>: the codec the agent puts on its connection to the proxy.  It
  decodes proxy messages and encodes agent messages.
\<close>

section \<open>Decoding proxy messages\<close>

definition proxy_open_body ::
  "('pk, 'sk, 'z) codec_lib_scheme \<Rightarrow> bool \<Rightarrow> bytes
   \<Rightarrow> (('pk, 'sk) connection_codec, CommonError, PpaassProxyMessage) rust" where
  "proxy_open_body L compressed body_bytes = (\<lambda>self.
     bnd (try_res id (parse_body L compressed body_bytes)) (\<lambda>encrypted_message.
     bnd (try_res id (fetch_rsa_crypto (rsa_crypto_fetcher self) (cm_user_token encrypted_message))) (\<lambda>rsa_crypto.
     bnd (try_call id (decrypt_payload L rsa_crypto (cm_encryption encrypted_message)
            (cm_payload encrypted_message))) (\<lambda>decrypt_payload_bytes.
     bnd (set_status Head) (\<lambda>_.
     bnd (try_res id (bytes_try_into (de_proxy_payload L) decrypt_payload_bytes)) (\<lambda>payload.
     ret (proxy_message_new (cm_message_id encrypted_message) (cm_user_token encrypted_message)
            (cm_encryption encrypted_message) payload)))))) self)"

definition proxy_decode ::
  "('pk, 'sk, 'z) codec_lib_scheme
   \<Rightarrow> (('pk, 'sk) connection_codec, CommonError, PpaassProxyMessage) decoder" where
  "proxy_decode L =
     bnd read_header (\<lambda>header. case header of None \<Rightarrow> ret None | Some (compressed, body_length) \<Rightarrow>
     bnd (read_body compressed body_length) (\<lambda>body. case body of None \<Rightarrow> ret None | Some body_bytes \<Rightarrow>
     bnd (on_self (proxy_open_body L compressed body_bytes)) (\<lambda>message_framed.
     ret (Some message_framed))))"

section \<open>Encoding agent messages\<close>

definition proxy_seal_body ::
  "('pk, 'sk, 'z) codec_lib_scheme \<Rightarrow> nat \<Rightarrow> ('pk, 'sk) connection_codec \<Rightarrow> PpaassAgentMessage
   \<Rightarrow> CommonError failure + bytes" where
  "proxy_seal_body L rng self original_message =
     (case fetch_rsa_crypto (rsa_crypto_fetcher self) (am_user_token original_message) of
        Inl e \<Rightarrow> Inl (Err e)
      | Inr rsa_crypto \<Rightarrow>
      (case seal_payload L rng rsa_crypto (am_encryption original_message)
              (try_into_bytes (ser_agent_payload L) (am_payload original_message)) of
        Inl f \<Rightarrow> Inl f
      | Inr (encrypted_payload_bytes, encrypted_payload_encryption_type) \<Rightarrow>
      (case pack_body L (compress self)
              \<lparr>cm_message_id = am_message_id original_message,
               cm_user_token = am_user_token original_message,
               cm_encryption = encrypted_payload_encryption_type,
               cm_payload = encrypted_payload_bytes\<rparr> of
        Inl e \<Rightarrow> Inl (Err e)
      | Inr result_bytes \<Rightarrow> Inr result_bytes)))"

definition proxy_encode ::
  "('pk, 'sk, 'z) codec_lib_scheme \<Rightarrow> nat \<Rightarrow> ('pk, 'sk) connection_codec \<Rightarrow> PpaassAgentMessage
   \<Rightarrow> (bytes, CommonError, unit) rust" where
  "proxy_encode L rng self original_message =
     bnd (write_flags self) (\<lambda>_.
     bnd (try_call id (proxy_seal_body L rng self original_message)) (\<lambda>result_bytes.
     write_body result_bytes))"

section \<open>The codec satisfies the framing interface\<close>

lemma proxy_decode_framed: "proxy_decode L = framed_decode (proxy_open_body L)"
  by (simp add: proxy_decode_def framed_decode_def)

lemma proxy_encode_framed: "proxy_encode L rng self m = framed_encode self (proxy_seal_body L rng self m)"
  by (simp add: proxy_encode_def framed_encode_def)

lemma proxy_open_body_head:
  "proxy_open_body L c body s = (Inr x, s') \<Longrightarrow> s' = s\<lparr>status := Head\<rparr>"
  by (auto simp: proxy_open_body_def rust_defs split: sum.splits failure.splits prod.splits)

lemma proxy_open_body_status: "proxy_open_body L c body s = (Inr x, s') \<Longrightarrow> status s' = Head"
  by (auto dest: proxy_open_body_head)

interpretation proxy_codec: robust_decoder "proxy_decode L" codec_rank
  for L :: "('pk, 'sk, 'z) codec_lib_scheme"
proof
  fix self self' :: "('pk, 'sk) connection_codec" and src src' suf :: bytes and x f st
  show "proxy_decode L (self, src @ suf) = proxy_decode L (self', src' @ suf)"
    if "proxy_decode L (self, src) = (Inr None, (self', src'))"
    using framed_decode_more [of "proxy_open_body L" self src _ self' src' suf] that
    by (fastforce simp: proxy_decode_framed)
  show "proxy_decode L (self, src @ suf) = (Inr (Some x), (self', src' @ suf))"
    if "proxy_decode L (self, src) = (Inr (Some x), (self', src'))"
    using framed_decode_more [of "proxy_open_body L" self src _ self' src' suf] that
    by (fastforce simp: proxy_decode_framed)
  show "fst (proxy_decode L (self, src @ suf)) = Inl f"
    if "proxy_decode L (self, src) = (Inl f, st)"
    using framed_decode_more [of "proxy_open_body L" self src "Inl f" "fst st" "snd st" suf] that
    by (simp add: proxy_decode_framed)
  show "codec_rank self' src' < codec_rank self src"
    if "proxy_decode L (self, src) = (Inr (Some x), (self', src'))"
    using framed_decode_progress [of "proxy_open_body L" self src x self' src', OF proxy_open_body_status] that
    by (simp add: proxy_decode_framed)
qed

lemma proxy_read_chunks:
  "read_chunks (proxy_decode L) self cs = drain_all (proxy_decode L) codec_rank self (concat cs)"
  by (simp only: read_chunks_def proxy_codec.feed_concat append_Nil drain_all_def)

text \<open>
  The encoder appends one frame and looks at nothing in the buffer; of the codec it sees the key
  store and the compression switch, which decoding never touches.
\<close>

interpretation proxy_encoder: stream_encoder "\<lambda>(rng, m). proxy_encode L rng self m"
  for L :: "('pk, 'sk, 'z) codec_lib_scheme" and self :: "('pk, 'sk) connection_codec"
  by unfold_locales (auto simp: proxy_encode_framed framed_encode_eq split: sum.splits)

lemma proxy_encode_status:
  "proxy_encode L rng (self\<lparr>status := st\<rparr>) m = proxy_encode L rng self m"
  unfolding proxy_encode_def proxy_seal_body_def write_flags_def codec_status_update by (rule refl)

lemma proxy_open_body_changes:
  "\<exists>st. snd (proxy_open_body L c body s) = s\<lparr>status := st\<rparr>"
proof -
  have "s = s\<lparr>status := status s\<rparr>"
    by simp
  then have "\<exists>st. s = s\<lparr>status := st\<rparr>" ..
  then show ?thesis
    by (auto simp: proxy_open_body_def rust_defs split: sum.splits failure.splits)
qed

lemma proxy_decode_unseen:
  "proxy_encode L rng (fst (snd (proxy_decode L (self, src)))) m = proxy_encode L rng self m"
  using framed_decode_status [of "proxy_open_body L" self src, OF proxy_open_body_changes]
  by (auto simp: proxy_decode_framed proxy_encode_status)

end
