(* ===== verification/SampleLib.thy ===== *)
theory SampleLib
  imports ConnectionCodec
begin

text \<open>
  A concrete instance of the libraries, so that theorems with library laws as hypotheses can
  be applied.  It is not a model of any code: the cipher is the identity behind genuine
  PKCS#7 padding to 16-byte blocks, RSA prefixes the key number, compression prefixes a
  byte and refuses input without it, and serialisation knows one value of each kind.
\<close>

definition sample_encrypt :: "bytes \<Rightarrow> nat \<Rightarrow> bytes \<Rightarrow> (ext_error + bytes) \<times> bytes" where
  "sample_encrypt key n buf =
     (let k = (n div 16 + 1) * 16 - n; c = take n buf @ replicate k (word_of_nat k)
      in (Inr c, c @ drop (length c) buf))"

definition sample_decrypt :: "bytes \<Rightarrow> bytes \<Rightarrow> (ext_error + bytes) \<times> bytes" where
  "sample_decrypt key buf = (Inr (take (length buf - unat (last buf)) buf), buf)"

definition sample_lib ::
  "CodecPpaassMessage \<Rightarrow> PpaassAgentMessagePayload \<Rightarrow> PpaassProxyMessagePayload \<Rightarrow> (nat, nat) codec_lib" where
  "sample_lib cm ap pp =
     \<lparr>aes_encrypt_padded = sample_encrypt,
      aes_decrypt_padded = sample_decrypt,
      rsa_public_encrypt = (\<lambda>pk rng m. Inr (word_of_nat pk # m)),
      rsa_private_decrypt = (\<lambda>sk c. case c of [] \<Rightarrow> Inl ''decryption error''
         | k # m \<Rightarrow> if k = word_of_nat sk then Inr m else Inl ''decryption error''),
      public_key_from_pem = (\<lambda>s. Inr (length s)),
      private_key_from_pem = (\<lambda>s. Inr (length s)),
      gz_compress = (\<lambda>b. Inr (31 # b)),
      gz_decompress = (\<lambda>c. case c of [] \<Rightarrow> Inl (IoOs ''unexpected end of file'')
         | k # b \<Rightarrow> if k = 31 then Inr b else Inl (IoOs ''invalid gzip header'')),
      ser_codec_message = (\<lambda>m. if m = cm then Inr [1] else Inl ''unknown''),
      de_codec_message = (\<lambda>b. if b = [1] then Inr cm else Inl ''unknown''),
      ser_agent_payload = (\<lambda>m. if m = ap then Inr [2] else Inl ''unknown''),
      de_agent_payload = (\<lambda>b. if b = [2] then Inr ap else Inl ''unknown''),
      ser_proxy_payload = (\<lambda>m. if m = pp then Inr [3] else Inl ''unknown''),
      de_proxy_payload = (\<lambda>b. if b = [3] then Inr pp else Inl ''unknown'')\<rparr>"

lemma sample_aes_law: "aes_law (sample_lib cm ap pp)"
proof -
  have "\<exists>c. sample_encrypt key n buf = (Inr c, c @ drop (length c) buf)
      \<and> length c = (n div 16 + 1) * 16 \<and> fst (sample_decrypt key c) = Inr (take n buf)"
    if "n \<le> length buf" for key n buf
  proof -
    define k where "k = (n div 16 + 1) * 16 - n"
    have n: "n \<le> (n div 16 + 1) * 16"
      by (rule padding_len_ge) simp
    have "16 * (n div 16) \<le> n" "n < 16 * (n div 16) + 16"
      using div_mult_mod_eq [of n 16] mod_less_divisor [of 16 n] by linarith+
    then have k: "0 < k" "k \<le> 16"
      by (simp_all add: k_def)
    have kw: "unat (word_of_nat k :: byte) = k"
      using k by (simp add: unat_of_nat)
    define c where "c = take n buf @ replicate k (word_of_nat k :: byte)"
    have "length c = n + k" "last c = word_of_nat k"
      using k that by (simp_all add: c_def)
    then have "fst (sample_decrypt key c) = Inr (take n buf)"
      using that by (simp add: sample_decrypt_def kw) (simp add: c_def)
    moreover have "length c = (n div 16 + 1) * 16"
      using n \<open>length c = n + k\<close> by (simp add: k_def)
    ultimately show ?thesis
      by (auto simp: sample_encrypt_def Let_def c_def k_def)
  qed
  then show ?thesis
    by (simp add: aes_law_def sample_lib_def)
qed

lemma sample_rsa_law: "rsa_law (sample_lib cm ap pp) k k"
  by (auto simp: rsa_law_def sample_lib_def)

lemma sample_gz_law: "gz_law (sample_lib cm ap pp)"
  by (auto simp: gz_law_def sample_lib_def)

lemma sample_bincode_law: "bincode_law (sample_lib cm ap pp)"
  by (simp add: bincode_law_def sample_lib_def)

lemmas sample_laws = sample_aes_law sample_rsa_law sample_gz_law sample_bincode_law

end
