(* ===== verification/Wire.thy ===== *)
theory Wire
  imports AgentCodec ProxyCodec SampleLib Streams
begin

text \<open>
  The two codecs facing each other: what the agent writes with \<open>codec/proxy.rs\<close> the proxy
  reads with \<open>codec/agent.rs\<close>, and the other way round.
\<close>

section \<open>Opening a sealed body\<close>

lemma agent_open_sealed:
  assumes "aes_law L" "gz_law L" "bincode_law L"
    and "compress a" and "rsa_crypto_fetcher a (am_user_token m) = Inr (Some ka)"
    and "rsa_crypto_fetcher p (am_user_token m) = Inr (Some kp)"
    and "rsa_law L (public_key ka) (private_key kp)"
    and seal: "proxy_seal_body L rng a m = Inr body"
  shows "\<exists>enc'. agent_open_body L True body p = (Inr (m\<lparr>am_encryption := enc'\<rparr>), p\<lparr>status := Head\<rparr>)
    \<and> (case am_encryption m of Plain \<Rightarrow> enc' = Plain
       | AesEncryption t \<Rightarrow> \<exists>c. rsa_encrypt L rng ka t = Inr c \<and> enc' = AesEncryption c)"
proof -
  obtain sealed enc' where
    s: "seal_payload L rng ka (am_encryption m) (try_into_bytes (ser_agent_payload L) (am_payload m))
          = Inr (sealed, enc')"
    and b: "pack_body L True \<lparr>cm_message_id = am_message_id m, cm_user_token = am_user_token m,
          cm_encryption = enc', cm_payload = sealed\<rparr> = Inr body"
    using seal assms(4,5)
    by (auto simp: proxy_seal_body_def fetch_rsa_crypto_def split: sum.splits)
  obtain q where q: "try_into_bytes (ser_agent_payload L) (am_payload m) = Inr q"
      "decrypt_payload L kp enc' sealed = Inr q"
    using decrypt_seal_payload [OF assms(1,7) s] by blast
  have "bytes_try_into (de_agent_payload L) q = Inr (am_payload m)"
    using q(1) assms(3)
    by (auto simp: try_into_bytes_def bytes_try_into_def bincode_law_def split: sum.splits)
  moreover have "case am_encryption m of Plain \<Rightarrow> enc' = Plain
       | AesEncryption t \<Rightarrow> \<exists>c. rsa_encrypt L rng ka t = Inr c \<and> enc' = AesEncryption c"
    using s by (auto simp: seal_payload_def
        split: PpaassMessagePayloadEncryption.splits sum.splits failure.splits)
  ultimately show ?thesis
    using parse_pack_body [OF assms(2,3) b] q(2) assms(6)
    by (intro exI [of _ enc']) (simp add: agent_open_body_def rust_defs fetch_rsa_crypto_def)
qed

lemma proxy_open_sealed:
  assumes "aes_law L" "gz_law L" "bincode_law L"
    and "compress p" and "rsa_crypto_fetcher p (pm_user_token m) = Inr (Some kp)"
    and "rsa_crypto_fetcher a (pm_user_token m) = Inr (Some ka)"
    and "rsa_law L (public_key kp) (private_key ka)"
    and seal: "agent_seal_body L rng p m = Inr body"
  shows "\<exists>enc'. proxy_open_body L True body a = (Inr (m\<lparr>pm_encryption := enc'\<rparr>), a\<lparr>status := Head\<rparr>)
    \<and> (case pm_encryption m of Plain \<Rightarrow> enc' = Plain
       | AesEncryption t \<Rightarrow> \<exists>c. rsa_encrypt L rng kp t = Inr c \<and> enc' = AesEncryption c)"
proof -
  obtain sealed enc' where
    s: "seal_payload L rng kp (pm_encryption m) (try_into_bytes (ser_proxy_payload L) (pm_payload m))
          = Inr (sealed, enc')"
    and b: "pack_body L True \<lparr>cm_message_id = pm_message_id m, cm_user_token = pm_user_token m,
          cm_encryption = enc', cm_payload = sealed\<rparr> = Inr body"
    using seal assms(4,5)
    by (auto simp: agent_seal_body_def fetch_rsa_crypto_def split: sum.splits)
  obtain q where q: "try_into_bytes (ser_proxy_payload L) (pm_payload m) = Inr q"
      "decrypt_payload L ka enc' sealed = Inr q"
    using decrypt_seal_payload [OF assms(1,7) s] by blast
  have "bytes_try_into (de_proxy_payload L) q = Inr (pm_payload m)"
    using q(1) assms(3)
    by (auto simp: try_into_bytes_def bytes_try_into_def bincode_law_def split: sum.splits)
  moreover have "case pm_encryption m of Plain \<Rightarrow> enc' = Plain
       | AesEncryption t \<Rightarrow> \<exists>c. rsa_encrypt L rng kp t = Inr c \<and> enc' = AesEncryption c"
    using s by (auto simp: seal_payload_def
        split: PpaassMessagePayloadEncryption.splits sum.splits failure.splits)
  ultimately show ?thesis
    using parse_pack_body [OF assms(2,3) b] q(2) assms(6)
    by (intro exI [of _ enc']) (simp add: proxy_open_body_def rust_defs fetch_rsa_crypto_def)
qed

text \<open>
  The writer's and the reader's key stores fit together for a user: both know the user, and
  the writer's public key belongs to the reader's private key.
\<close>

definition keys_match ::
  "('pk, 'sk, 'z) codec_lib_scheme \<Rightarrow> ('pk, 'sk) connection_codec \<Rightarrow> ('pk, 'sk) connection_codec
   \<Rightarrow> string \<Rightarrow> bool" where
  "keys_match L writer reader user_token \<longleftrightarrow>
     (\<exists>kw kr. rsa_crypto_fetcher writer user_token = Inr (Some kw)
        \<and> rsa_crypto_fetcher reader user_token = Inr (Some kr)
        \<and> rsa_law L (public_key kw) (private_key kr))"

section \<open>What a sequence of sends leaves on the wire\<close>

lemma forward_framed_encode:
  "forward (\<lambda>x. framed_encode self (seal x)) xs dst = (Inr (), w) \<longleftrightarrow>
    (\<exists>bodies. list_all2 (\<lambda>x b. seal x = Inr b) xs bodies \<and> w = dst @ concat (map (frame 1) bodies))"
proof (induction xs arbitrary: dst)
  case Nil
  then show ?case by (auto simp: ret_def)
next
  case (Cons x xs)
  show ?case
  proof (cases "seal x")
    case (Inl f)
    then have "framed_encode self (seal x) dst = (Inl f, dst @ PPAASS_FLAG @ [1])"
      by (simp add: framed_encode_eq)
    with Inl show ?thesis
      by (simp add: bnd_def list_all2_Cons1)
  next
    case (Inr b)
    then have "framed_encode self (seal x) dst = (Inr (), dst @ frame 1 b)"
      by (simp add: framed_encode_eq)
    with Inr show ?thesis
      by (auto simp: bnd_def list_all2_Cons1 Cons.IH)
  qed
qed

section \<open>From the agent to the proxy\<close>

lemma agent_decode_sealed:
  assumes "aes_law L" "gz_law L" "bincode_law L"
    and "compress a" and "rsa_crypto_fetcher a (am_user_token m) = Inr (Some ka)"
    and "rsa_crypto_fetcher p (am_user_token m) = Inr (Some kp)"
    and "rsa_law L (public_key ka) (private_key kp)"
    and "status p = Head" and "proxy_seal_body L rng a m = Inr body" and "length body < 2 ^ 64"
  shows "\<exists>enc'. agent_decode L (p, frame 1 body @ suf) =
        (Inr (Some (m\<lparr>am_encryption := enc'\<rparr>)), (p, suf))
    \<and> (case am_encryption m of Plain \<Rightarrow> enc' = Plain
       | AesEncryption t \<Rightarrow> \<exists>c. rsa_encrypt L rng ka t = Inr c \<and> enc' = AesEncryption c)"
proof -
  let ?r = "p\<lparr>status := Data True (word_of_nat (length body))\<rparr>"
  have "rsa_crypto_fetcher ?r (am_user_token m) = Inr (Some kp)" "?r\<lparr>status := Head\<rparr> = p"
    using assms(6,8) by (cases p; simp)+
  with agent_open_sealed [OF assms(1-5) _ assms(7,9), of ?r]
  show ?thesis
    by (auto simp: agent_decode_framed framed_decode_frame [OF assms(8,10)])
qed

lemma agent_drain_sealed:
  assumes laws: "aes_law L" "gz_law L" "bincode_law L" and "compress a" and "status p = Head"
    and keys: "\<forall>x \<in> set ms. keys_match L a p (am_user_token (snd x))"
    and "list_all2 (\<lambda>x body. proxy_seal_body L (fst x) a (snd x) = Inr body) ms bodies"
    and "length (concat (map (frame 1) bodies)) < 2 ^ 64"
  shows "\<exists>xs. drain (agent_decode L) (Suc (codec_rank p (concat (map (frame 1) bodies)))) p
        (concat (map (frame 1) bodies)) = (xs, Waiting p [])
    \<and> list_all2 (\<lambda>x m'. m' = (snd x)\<lparr>am_encryption := am_encryption m'\<rparr>) ms xs"
  using assms(7,6,8)
proof (induction ms bodies rule: list_all2_induct)
  case Nil
  show ?case
    using assms(5) by (simp add: agent_decode_framed framed_decode_Head codec_rank_def)
next
  case (Cons x ms body bodies)
  obtain rng m where x: "x = (rng, m)"
    by (cases x)
  let ?suf = "concat (map (frame 1) bodies)"
  obtain ka kp where k: "rsa_crypto_fetcher a (am_user_token m) = Inr (Some ka)"
      "rsa_crypto_fetcher p (am_user_token m) = Inr (Some kp)"
      "rsa_law L (public_key ka) (private_key kp)"
    using Cons.prems(1) x by (auto simp: keys_match_def)
  have len: "length body < 2 ^ 64" "length ?suf < 2 ^ 64"
    using Cons.prems(2) by simp_all
  obtain enc' where now: "agent_decode L (p, frame 1 body @ ?suf) =
      (Inr (Some (m\<lparr>am_encryption := enc'\<rparr>)), (p, ?suf))"
    using agent_decode_sealed [OF laws assms(4) k(1,2,3) assms(5) _ len(1)] Cons.hyps(1) x
    by fastforce
  obtain xs where xs: "drain (agent_decode L) (Suc (codec_rank p ?suf)) p ?suf = (xs, Waiting p [])"
      "list_all2 (\<lambda>x m'. m' = (snd x)\<lparr>am_encryption := am_encryption m'\<rparr>) ms xs"
    using Cons.IH [OF _ len(2)] Cons.prems(1) by auto
  show ?case
    using agent_codec.drain_frame [OF now] xs x
    by (intro exI [of _ "m\<lparr>am_encryption := enc'\<rparr> # xs"]) simp
qed

section \<open>From the proxy to the agent\<close>

lemma proxy_decode_sealed:
  assumes "aes_law L" "gz_law L" "bincode_law L"
    and "compress p" and "rsa_crypto_fetcher p (pm_user_token m) = Inr (Some kp)"
    and "rsa_crypto_fetcher a (pm_user_token m) = Inr (Some ka)"
    and "rsa_law L (public_key kp) (private_key ka)"
    and "status a = Head" and "agent_seal_body L rng p m = Inr body" and "length body < 2 ^ 64"
  shows "\<exists>enc'. proxy_decode L (a, frame 1 body @ suf) =
        (Inr (Some (m\<lparr>pm_encryption := enc'\<rparr>)), (a, suf))
    \<and> (case pm_encryption m of Plain \<Rightarrow> enc' = Plain
       | AesEncryption t \<Rightarrow> \<exists>c. rsa_encrypt L rng kp t = Inr c \<and> enc' = AesEncryption c)"
proof -
  let ?r = "a\<lparr>status := Data True (word_of_nat (length body))\<rparr>"
  have "rsa_crypto_fetcher ?r (pm_user_token m) = Inr (Some ka)" "?r\<lparr>status := Head\<rparr> = a"
    using assms(6,8) by (cases a; simp)+
  with proxy_open_sealed [OF assms(1-5) _ assms(7,9), of ?r]
  show ?thesis
    by (auto simp: proxy_decode_framed framed_decode_frame [OF assms(8,10)])
qed

lemma proxy_drain_sealed:
  assumes laws: "aes_law L" "gz_law L" "bincode_law L" and "compress p" and "status a = Head"
    and keys: "\<forall>x \<in> set ms. keys_match L p a (pm_user_token (snd x))"
    and "list_all2 (\<lambda>x body. agent_seal_body L (fst x) p (snd x) = Inr body) ms bodies"
    and "length (concat (map (frame 1) bodies)) < 2 ^ 64"
  shows "\<exists>xs. drain (proxy_decode L) (Suc (codec_rank a (concat (map (frame 1) bodies)))) a
        (concat (map (frame 1) bodies)) = (xs, Waiting a [])
    \<and> list_all2 (\<lambda>x m'. m' = (snd x)\<lparr>pm_encryption := pm_encryption m'\<rparr>) ms xs"
  using assms(7,6,8)
proof (induction ms bodies rule: list_all2_induct)
  case Nil
  show ?case
    using assms(5) by (simp add: proxy_decode_framed framed_decode_Head codec_rank_def)
next
  case (Cons x ms body bodies)
  obtain rng m where x: "x = (rng, m)"
    by (cases x)
  let ?suf = "concat (map (frame 1) bodies)"
  obtain kp ka where k: "rsa_crypto_fetcher p (pm_user_token m) = Inr (Some kp)"
      "rsa_crypto_fetcher a (pm_user_token m) = Inr (Some ka)"
      "rsa_law L (public_key kp) (private_key ka)"
    using Cons.prems(1) x by (auto simp: keys_match_def)
  have len: "length body < 2 ^ 64" "length ?suf < 2 ^ 64"
    using Cons.prems(2) by simp_all
  obtain enc' where now: "proxy_decode L (a, frame 1 body @ ?suf) =
      (Inr (Some (m\<lparr>pm_encryption := enc'\<rparr>)), (a, ?suf))"
    using proxy_decode_sealed [OF laws assms(4) k(1,2,3) assms(5) _ len(1)] Cons.hyps(1) x
    by fastforce
  obtain xs where xs: "drain (proxy_decode L) (Suc (codec_rank a ?suf)) a ?suf = (xs, Waiting a [])"
      "list_all2 (\<lambda>x m'. m' = (snd x)\<lparr>pm_encryption := pm_encryption m'\<rparr>) ms xs"
    using Cons.IH [OF _ len(2)] Cons.prems(1) by auto
  show ?case
    using proxy_codec.drain_frame [OF now] xs x
    by (intro exI [of _ "m\<lparr>pm_encryption := enc'\<rparr> # xs"]) simp
qed


section \<open>Round trips: agent to proxy\<close>

text \<open>A message the agent encodes (compression on) is the message the proxy decodes: same
  identifier, user, payload; the bytes of the frame are consumed exactly and what follows is
  left in the buffer.  The encryption field comes back as it travelled: a plain message plain,
  an AES token RSA-encrypted.\<close>

lemma agent_frame_roundtrip:
  assumes "aes_law L" "gz_law L" "bincode_law L" "compress a"
    and "rsa_crypto_fetcher a (am_user_token m) = Inr (Some ka)"
    and "rsa_crypto_fetcher p (am_user_token m) = Inr (Some kp)"
    and "rsa_law L (public_key ka) (private_key kp)" and "status p = Head"
    and "proxy_encode L rng a m [] = (Inr (), wire)" and "length wire < 2 ^ 64"
  shows "\<exists>enc'. agent_decode L (p, wire @ suf) =
        (Inr (Some (m\<lparr>am_encryption := enc'\<rparr>)), (p, suf))
    \<and> (case am_encryption m of Plain \<Rightarrow> enc' = Plain
       | AesEncryption t \<Rightarrow> \<exists>c. rsa_encrypt L rng ka t = Inr c \<and> enc' = AesEncryption c)"
proof -
  obtain body where body: "proxy_seal_body L rng a m = Inr body" "wire = frame 1 body"
    using assms(9) by (auto simp: proxy_encode_framed framed_encode_eq split: sum.splits)
  then have "length body < 2 ^ 64"
    using assms(10) by simp
  then show ?thesis
    unfolding body(2) using agent_decode_sealed [OF assms(1-8) body(1)] by simp
qed

lemma agent_stream_decoded:
  assumes "aes_law L" "gz_law L" "bincode_law L" "compress a" "status p = Head"
    and "\<forall>x \<in> set ms. keys_match L a p (am_user_token (snd x))"
    and "forward (\<lambda>x. proxy_encode L (fst x) a (snd x)) ms [] = (Inr (), wire)"
    and "length wire < 2 ^ 64" and "concat chunks = wire"
  shows "\<exists>xs. read_chunks (agent_decode L) p chunks = (xs, Waiting p [])
    \<and> list_all2 (\<lambda>x m'. m' = (snd x)\<lparr>am_encryption := am_encryption m'\<rparr>) ms xs"
proof -
  obtain bodies where "list_all2 (\<lambda>x body. proxy_seal_body L (fst x) a (snd x) = Inr body) ms bodies"
      "wire = concat (map (frame 1) bodies)"
    using assms(7) by (auto simp: proxy_encode_framed forward_framed_encode)
  then show ?thesis
    using agent_drain_sealed [OF assms(1-6), of bodies] assms(8,9)
    by (simp add: read_chunks_def agent_codec.feed_concat)
qed


text \<open>C36: for arbitrary bytes, well formed or not, what the proxy's decoder yields (the messages,
  the error it stops with, or the state it waits in) does not depend on how they were cut into
  chunks.\<close>

theorem agent_decode_chunking:
  assumes "concat cs = concat ds"
  shows "read_chunks (agent_decode L) self cs = read_chunks (agent_decode L) self ds"
  unfolding read_chunks_def by (rule agent_codec.chunking_irrelevant [OF assms])

section \<open>Round trips: proxy to agent\<close>

text \<open>A message the proxy encodes (compression on) is the message the agent decodes: same
  identifier, user, payload; the bytes of the frame are consumed exactly and what follows is
  left in the buffer.  The encryption field comes back as it travelled: a plain message plain,
  an AES token RSA-encrypted.\<close>

lemma proxy_frame_roundtrip:
  assumes "aes_law L" "gz_law L" "bincode_law L" "compress p"
    and "rsa_crypto_fetcher p (pm_user_token m) = Inr (Some kp)"
    and "rsa_crypto_fetcher a (pm_user_token m) = Inr (Some ka)"
    and "rsa_law L (public_key kp) (private_key ka)" and "status a = Head"
    and "agent_encode L rng p m [] = (Inr (), wire)" and "length wire < 2 ^ 64"
  shows "\<exists>enc'. proxy_decode L (a, wire @ suf) =
        (Inr (Some (m\<lparr>pm_encryption := enc'\<rparr>)), (a, suf))
    \<and> (case pm_encryption m of Plain \<Rightarrow> enc' = Plain
       | AesEncryption t \<Rightarrow> \<exists>c. rsa_encrypt L rng kp t = Inr c \<and> enc' = AesEncryption c)"
proof -
  obtain body where body: "agent_seal_body L rng p m = Inr body" "wire = frame 1 body"
    using assms(9) by (auto simp: agent_encode_framed framed_encode_eq split: sum.splits)
  then have "length body < 2 ^ 64"
    using assms(10) by simp
  then show ?thesis
    unfolding body(2) using proxy_decode_sealed [OF assms(1-8) body(1)] by simp
qed

lemma proxy_stream_decoded:
  assumes "aes_law L" "gz_law L" "bincode_law L" "compress p" "status a = Head"
    and "\<forall>x \<in> set ms. keys_match L p a (pm_user_token (snd x))"
    and "forward (\<lambda>x. agent_encode L (fst x) p (snd x)) ms [] = (Inr (), wire)"
    and "length wire < 2 ^ 64" and "concat chunks = wire"
  shows "\<exists>xs. read_chunks (proxy_decode L) a chunks = (xs, Waiting a [])
    \<and> list_all2 (\<lambda>x m'. m' = (snd x)\<lparr>pm_encryption := pm_encryption m'\<rparr>) ms xs"
proof -
  obtain bodies where "list_all2 (\<lambda>x body. agent_seal_body L (fst x) p (snd x) = Inr body) ms bodies"
      "wire = concat (map (frame 1) bodies)"
    using assms(7) by (auto simp: agent_encode_framed forward_framed_encode)
  then show ?thesis
    using proxy_drain_sealed [OF assms(1-6), of bodies] assms(8,9)
    by (simp add: read_chunks_def proxy_codec.feed_concat)
qed


text \<open>For arbitrary bytes, well formed or not, what the agent's decoder yields (the messages,
  the error it stops with, or the state it waits in) does not depend on how they were cut into
  chunks.\<close>

lemma proxy_decode_chunking:
  assumes "concat cs = concat ds"
  shows "read_chunks (proxy_decode L) self cs = read_chunks (proxy_decode L) self ds"
  unfolding read_chunks_def by (rule proxy_codec.chunking_irrelevant [OF assms])

section \<open>What can go wrong\<close>

text \<open>The body a decoder would open next, when it is complete.\<close>

definition pending_body :: "('pk, 'sk) connection_codec \<Rightarrow> bytes \<Rightarrow> (bool \<times> bytes) option" where
  "pending_body self src =
     (let at_body = (\<lambda>c n buf. if length buf < unat n then None else Some (c, take (unat n) buf)) in
      case status self of
        Data c n \<Rightarrow> at_body c n src
      | Head \<Rightarrow>
          if length src < 19 \<or> take 10 src \<noteq> PPAASS_FLAG then None
          else at_body (fst (header_of src)) (snd (header_of src)) (drop 19 src))"

lemma framed_decode_pending:
  assumes same: "\<And>c body s st. fst (op c body (s\<lparr>status := st\<rparr>)) = fst (op c body s)"
  shows "fst (framed_decode op (self, src)) = Inl Panic \<longleftrightarrow>
    (\<exists>c body. pending_body self src = Some (c, body) \<and> fst (op c body self) = Inl Panic)"
proof -
  have data: "fst (framed_decode op (st, buf)) = Inl Panic \<longleftrightarrow>
      \<not> length buf < unat n \<and> fst (op c (take (unat n) buf) st) = Inl Panic"
    if "status st = Data c n" for st buf c n
    using that by (auto simp: framed_decode_Data split: prod.splits sum.splits)
  show ?thesis
  proof (cases "status self")
    case (Data c n)
    then show ?thesis
      by (simp add: data pending_body_def)
  next
    case Head
    then show ?thesis
      by (auto simp: data same framed_decode_Head pending_body_def)
  qed
qed

lemma agent_open_body_fst:
  "fst (agent_open_body L c body (s\<lparr>status := st\<rparr>)) = fst (agent_open_body L c body s)"
  by (auto simp: agent_open_body_def rust_defs split: sum.splits failure.splits)

lemma proxy_open_body_fst:
  "fst (proxy_open_body L c body (s\<lparr>status := st\<rparr>)) = fst (proxy_open_body L c body s)"
  by (auto simp: proxy_open_body_def rust_defs split: sum.splits failure.splits)

text \<open>A body that makes its reader panic: its AES token decrypts to a length other than 32.\<close>

definition bad_token_body ::
  "('pk, 'sk, 'z) codec_lib_scheme \<Rightarrow> ('pk, 'sk) fetcher \<Rightarrow> bool \<Rightarrow> bytes \<Rightarrow> bool" where
  "bad_token_body L fetch c body =
     (case parse_body L c body of
        Inl e \<Rightarrow> False
      | Inr m \<Rightarrow>
          (case (fetch (cm_user_token m), cm_encryption m) of
             (Inr (Some rsa), AesEncryption token) \<Rightarrow>
               (case rsa_decrypt L rsa token of Inl e \<Rightarrow> False | Inr t \<Rightarrow> length t \<noteq> 32)
           | _ \<Rightarrow> False))"

lemma decrypt_with_aes_no_panic: "length t = 32 \<Longrightarrow> fst (decrypt_with_aes L t b) \<noteq> Inl Panic"
  by (auto simp: decrypt_with_aes_def aes_key_of_def split: prod.splits sum.splits)

lemma decrypt_payload_panic:
  "decrypt_payload L rsa enc p = Inl Panic \<longleftrightarrow>
    (\<exists>token t. enc = AesEncryption token \<and> rsa_decrypt L rsa token = Inr t \<and> length t \<noteq> 32)"
  using decrypt_with_aes_no_panic aes_wrong_key_panics(2)
  by (fastforce simp: decrypt_payload_def
      split: PpaassMessagePayloadEncryption.splits sum.splits failure.splits)

lemma agent_open_body_panic:
  "fst (agent_open_body L c body s) = Inl Panic \<longleftrightarrow> bad_token_body L (rsa_crypto_fetcher s) c body"
proof -
  have "fst (agent_open_body L c body s) = Inl Panic \<longleftrightarrow>
    (\<exists>m rsa. parse_body L c body = Inr m \<and> rsa_crypto_fetcher s (cm_user_token m) = Inr (Some rsa)
      \<and> decrypt_payload L rsa (cm_encryption m) (cm_payload m) = Inl Panic)"
    by (auto simp: agent_open_body_def rust_defs fetch_rsa_crypto_def
        split: sum.splits failure.splits option.splits)
  then show ?thesis
    by (auto simp: bad_token_body_def decrypt_payload_panic split: sum.splits option.splits
        PpaassMessagePayloadEncryption.splits)
      (metis old.sum.exhaust)
qed

lemma proxy_open_body_panic:
  "fst (proxy_open_body L c body s) = Inl Panic \<longleftrightarrow> bad_token_body L (rsa_crypto_fetcher s) c body"
proof -
  have "fst (proxy_open_body L c body s) = Inl Panic \<longleftrightarrow>
    (\<exists>m rsa. parse_body L c body = Inr m \<and> rsa_crypto_fetcher s (cm_user_token m) = Inr (Some rsa)
      \<and> decrypt_payload L rsa (cm_encryption m) (cm_payload m) = Inl Panic)"
    by (auto simp: proxy_open_body_def rust_defs fetch_rsa_crypto_def
        split: sum.splits failure.splits option.splits)
  then show ?thesis
    by (auto simp: bad_token_body_def decrypt_payload_panic split: sum.splits option.splits
        PpaassMessagePayloadEncryption.splits)
      (metis old.sum.exhaust)
qed


text \<open>The same for the agent's decoder.\<close>

lemma proxy_decode_panics_iff:
  "fst (proxy_decode L (self, src)) = Inl Panic \<longleftrightarrow>
    (\<exists>c body. pending_body self src = Some (c, body)
       \<and> bad_token_body L (rsa_crypto_fetcher self) c body)"
  unfolding proxy_decode_framed framed_decode_pending [of "proxy_open_body L", OF proxy_open_body_fst]
    proxy_open_body_panic ..

text \<open>With compression switched off, a frame still carries the flag byte that says
  "compressed", so its reader hands the raw bytes to the decompressor: unless they happen to be
  a gzip stream, the frame is refused with an I/O error.\<close>

lemma uncompressed_frame_refused:
  assumes "\<not> compress a" and "status p = Head"
    and "proxy_encode L rng a m [] = (Inr (), wire)" and "length wire < 2 ^ 64"
  shows "wire ! 10 = 1 \<and> (\<exists>cm raw. ser_codec_message L cm = Inr raw \<and> wire = frame 1 raw
    \<and> (\<forall>e. gz_decompress L raw = Inl e \<longrightarrow>
         fst (agent_decode L (p, wire)) = Inl (Err (CommonDecoder (DecIo e)))))"
proof -
  obtain body where body: "proxy_seal_body L rng a m = Inr body" "wire = frame 1 body"
    using assms(3) by (auto simp: proxy_encode_framed framed_encode_eq split: sum.splits)
  then obtain cm where cm: "pack_body L False cm = Inr body"
    using assms(1) by (auto simp: proxy_seal_body_def split: sum.splits)
  then have "ser_codec_message L cm = Inr body"
    by (auto simp: pack_body_def try_into_bytes_def split: sum.splits)
  moreover have "length body < 2 ^ 64"
    using assms(4) body(2) by simp
  then have "fst (agent_decode L (p, wire)) = Inl (Err (CommonDecoder (DecIo e)))"
    if "gz_decompress L body = Inl e" for e
    using that framed_decode_frame [OF assms(2), of body "agent_open_body L" 1 "[]"]
    by (simp add: agent_decode_framed body(2) agent_open_body_def parse_body_def rust_defs)
  moreover have "wire ! 10 = 1"
    by (simp add: body(2) frame_def nth_append)
  ultimately show ?thesis
    using body(2) by blast
qed


text \<open>C34: reading ends.  For arbitrary bytes in the buffer and any state of the codec, decoding until
  the decoder asks for more, fails or panics takes at most as many items as the buffer has bytes, and
  one more in the middle of a frame; more calls would change nothing; and a decoder that asks for more
  leaves less than a header or less than the body the header announced.  This holds on both sides.\<close>

theorem reading_terminates:
  "(\<exists>xs p. (\<forall>k. drain (agent_decode L) (Suc (codec_rank self src) + k) self src = (xs, p))
      \<and> length xs \<le> codec_rank self src
      \<and> (case p of Waiting self' src' \<Rightarrow> awaits_more self' src' | Stopped f \<Rightarrow> True))
   \<and> (\<exists>xs p. (\<forall>k. drain (proxy_decode L) (Suc (codec_rank self src) + k) self src = (xs, p))
      \<and> length xs \<le> codec_rank self src
      \<and> (case p of Waiting self' src' \<Rightarrow> awaits_more self' src' | Stopped f \<Rightarrow> True))"
  by (intro conjI agent_codec.drain_settles proxy_codec.drain_settles;
      rule framed_decode_waits, simp add: agent_decode_framed proxy_decode_framed)

text \<open>C37: The proxy delivers a message only for a user whose keys it holds, and an encrypted one
  only if its token decrypts, under that user's private key, to a 32-byte AES key.\<close>

theorem agent_decode_known_user:
  assumes "agent_decode L (self, src) = (Inr (Some m), st)"
  shows "\<exists>rsa. rsa_crypto_fetcher self (am_user_token m) = Inr (Some rsa)
    \<and> (\<forall>token. am_encryption m = AesEncryption token \<longrightarrow>
         (\<exists>t. rsa_decrypt L rsa token = Inr t \<and> length t = 32))"
proof -
  have opened: "\<exists>rsa. rsa_crypto_fetcher s (am_user_token x) = Inr (Some rsa)
    \<and> (\<forall>token. am_encryption x = AesEncryption token \<longrightarrow>
         (\<exists>t. rsa_decrypt L rsa token = Inr t \<and> length t = 32))"
    if op: "agent_open_body L c body s = (Inr x, s')" for c body s x s'
  proof -
    obtain e rsa where e: "parse_body L c body = Inr e"
        "rsa_crypto_fetcher s (cm_user_token e) = Inr (Some rsa)"
        "am_user_token x = cm_user_token e" "am_encryption x = cm_encryption e"
      using op by (auto simp: agent_open_body_def rust_defs fetch_rsa_crypto_def agent_message_new_def
          split: sum.splits failure.splits option.splits)
    obtain p where "decrypt_payload L rsa (cm_encryption e) (cm_payload e) = Inr p"
      using op e by (auto simp: agent_open_body_def rust_defs fetch_rsa_crypto_def
          split: sum.splits failure.splits option.splits)
    then show ?thesis
      using e decrypt_payload_panic [of L rsa "cm_encryption e" "cm_payload e"]
      by (auto simp: decrypt_payload_def split: sum.splits)
  qed
  obtain c body s s' where "agent_open_body L c body s = (Inr m, s')"
      "rsa_crypto_fetcher s = rsa_crypto_fetcher self"
    using assms by (cases "status self")
      (auto simp: agent_decode_framed framed_decode_Data framed_decode_Head
        split: if_splits prod.splits sum.splits)
  then show ?thesis
    using opened by metis
qed

text \<open>Nineteen bytes of a client that has not been authenticated make the decoder ask the
  allocator for any amount of memory a 64-bit length can name.\<close>

lemma decode_reserve_unbounded:
  "hd (decode_reserve (codec_new compressing fetch) (PPAASS_FLAG @ [1] @ be_bytes 8 (unat n))) = unat (n :: u64)"
proof -
  have "unat n < 2 ^ 64"
    using unsigned_less [of n] by simp
  then show ?thesis
    by (simp add: decode_reserve_def codec_new_def Let_def)
qed

end
