(* ===== verification/WireSamples.thy ===== *)
theory WireSamples
  imports Wire
begin

text \<open>
  The theorems of \<open>Wire\<close> applied at concrete messages, keys and libraries.
\<close>

definition sample_fetcher :: "nat \<Rightarrow> nat \<Rightarrow> (nat, nat) fetcher" where
  "sample_fetcher priv pub = (\<lambda>user_token. if user_token = ''user1''
     then Inr (Some \<lparr>private_key = priv, public_key = pub\<rparr>) else Inr None)"

definition sample_token :: bytes where
  "sample_token = replicate 32 7"

definition sample_agent_payload :: PpaassAgentMessagePayload where
  "sample_agent_payload = AgentTcp (AgentTcpData [104, 105])"

definition sample_proxy_payload :: PpaassProxyMessagePayload where
  "sample_proxy_payload = ProxyTcp (ProxyTcpData [111, 107])"

definition sample_agent_message :: PpaassAgentMessage where
  "sample_agent_message = \<lparr>am_message_id = ''m1'', am_user_token = ''user1'',
     am_encryption = AesEncryption sample_token, am_payload = sample_agent_payload\<rparr>"

definition sample_proxy_message :: PpaassProxyMessage where
  "sample_proxy_message = \<lparr>pm_message_id = ''m2'', pm_user_token = ''user1'',
     pm_encryption = AesEncryption sample_token, pm_payload = sample_proxy_payload\<rparr>"

text \<open>The agent holds its private key 9 and the proxy's public key 8; the proxy the converse.\<close>

definition sample_agent :: "bool \<Rightarrow> (nat, nat) connection_codec" where
  "sample_agent c = codec_new c (sample_fetcher 9 8)"

definition sample_proxy :: "bool \<Rightarrow> (nat, nat) connection_codec" where
  "sample_proxy c = codec_new c (sample_fetcher 8 9)"

definition agent_side_lib :: "(nat, nat) codec_lib" where
  "agent_side_lib = sample_lib \<lparr>cm_message_id = ''m1'', cm_user_token = ''user1'',
     cm_encryption = AesEncryption (8 # sample_token), cm_payload = 2 # replicate 15 15\<rparr>
     sample_agent_payload sample_proxy_payload"

definition proxy_side_lib :: "(nat, nat) codec_lib" where
  "proxy_side_lib = sample_lib \<lparr>cm_message_id = ''m2'', cm_user_token = ''user1'',
     cm_encryption = AesEncryption (9 # sample_token), cm_payload = 3 # replicate 15 15\<rparr>
     sample_agent_payload sample_proxy_payload"

lemmas sample_codec_defs = sample_agent_def sample_proxy_def codec_new_def sample_fetcher_def
  sample_agent_message_def sample_proxy_message_def

lemma sample_side_laws:
  "aes_law agent_side_lib" "gz_law agent_side_lib" "bincode_law agent_side_lib"
  "rsa_law agent_side_lib k k"
  "aes_law proxy_side_lib" "gz_law proxy_side_lib" "bincode_law proxy_side_lib"
  "rsa_law proxy_side_lib k k"
  by (simp_all add: agent_side_lib_def proxy_side_lib_def sample_laws)

lemma length_sample_token [simp]: "length sample_token = 32"
  by (simp add: sample_token_def)

lemma sample_encrypt_1:
  "sample_encrypt key (Suc 0) (b # bs) = (Inr (b # replicate 15 15), b # replicate 15 15 @ drop 15 bs)"
  by (simp add: sample_encrypt_def)

lemma sample_seal:
  assumes "aes_encrypt_padded L = sample_encrypt" 
    "rsa_public_encrypt L = (\<lambda>pk rng m. Inr (word_of_nat pk # m))"
  shows "seal_payload L rng k (AesEncryption sample_token) (Inr [b]) =
      Inr (b # replicate 15 15, AesEncryption (word_of_nat (public_key k) # sample_token))"
  using assms
  by (simp add: seal_payload_def rsa_encrypt_def encrypt_with_aes_def aes_key_of_def
      BLOCK_SIZE_def Let_def sample_encrypt_1)

lemma sample_agent_encode:
  "proxy_encode agent_side_lib rng (sample_agent c) sample_agent_message dst =
     (Inr (), dst @ frame 1 (if c then [31, 1] else [1]))"
  by (simp add: proxy_encode_framed framed_encode_eq proxy_seal_body_def fetch_rsa_crypto_def
      sample_codec_defs sample_seal pack_body_def try_into_bytes_def agent_side_lib_def sample_lib_def)

lemma sample_proxy_encode:
  "agent_encode proxy_side_lib rng (sample_proxy c) sample_proxy_message dst =
     (Inr (), dst @ frame 1 (if c then [31, 1] else [1]))"
  by (simp add: agent_encode_framed framed_encode_eq agent_seal_body_def fetch_rsa_crypto_def
      sample_codec_defs sample_seal pack_body_def try_into_bytes_def proxy_side_lib_def sample_lib_def)

section \<open>Witnesses: agent to proxy\<close>

lemma sample_agent_keys:
  "rsa_crypto_fetcher (sample_agent c) (am_user_token sample_agent_message) =
     Inr (Some \<lparr>private_key = 9, public_key = 8\<rparr>)"
  "rsa_crypto_fetcher (sample_proxy c) (am_user_token sample_agent_message) =
     Inr (Some \<lparr>private_key = 8, public_key = 9\<rparr>)"
  "compress (sample_agent c) = c" "status (sample_proxy c) = Head"
  by (simp_all add: sample_codec_defs)

lemma agent_frame_roundtrip_witness:
  "\<exists>enc'. agent_decode agent_side_lib (sample_proxy True, frame 1 [31, 1] @ [1, 2]) =
      (Inr (Some (sample_agent_message\<lparr>am_encryption := enc'\<rparr>)), (sample_proxy True, [1, 2]))"
  using agent_frame_roundtrip [of agent_side_lib "sample_agent True" sample_agent_message _ "sample_proxy True"
      _ 0 "frame 1 [31, 1]" "[1, 2]", OF _ _ _ _ sample_agent_keys(1,2) _ sample_agent_keys(4)]
  by (auto simp: sample_side_laws sample_agent_keys sample_agent_encode)


theorem agent_decode_chunking_witness:
  "read_chunks (agent_decode agent_side_lib) (sample_proxy True) [[95], [], [80, 80]] =
   read_chunks (agent_decode agent_side_lib) (sample_proxy True) [[95, 80], [80]]"
  by (rule agent_decode_chunking) simp

section \<open>Witnesses: proxy to agent\<close>

lemma sample_proxy_keys:
  "rsa_crypto_fetcher (sample_proxy c) (pm_user_token sample_proxy_message) =
     Inr (Some \<lparr>private_key = 8, public_key = 9\<rparr>)"
  "rsa_crypto_fetcher (sample_agent c) (pm_user_token sample_proxy_message) =
     Inr (Some \<lparr>private_key = 9, public_key = 8\<rparr>)"
  "compress (sample_proxy c) = c" "status (sample_agent c) = Head"
  by (simp_all add: sample_codec_defs)

lemma proxy_frame_roundtrip_witness:
  "\<exists>enc'. proxy_decode proxy_side_lib (sample_agent True, frame 1 [31, 1] @ [1, 2]) =
      (Inr (Some (sample_proxy_message\<lparr>pm_encryption := enc'\<rparr>)), (sample_agent True, [1, 2]))"
  using proxy_frame_roundtrip [of proxy_side_lib "sample_proxy True" sample_proxy_message _ "sample_agent True"
      _ 0 "frame 1 [31, 1]" "[1, 2]", OF _ _ _ _ sample_proxy_keys(1,2) _ sample_proxy_keys(4)]
  by (auto simp: sample_side_laws sample_proxy_keys sample_proxy_encode)


section \<open>Witnesses: failures\<close>

lemma uncompressed_frame_refused_witness:
  "frame 1 [1] ! 10 = 1 \<and> (\<exists>e. fst (agent_decode agent_side_lib (sample_proxy True, frame 1 [1])) =
      Inl (Err (CommonDecoder (DecIo e))))"
proof -
  have "\<exists>cm raw. ser_codec_message agent_side_lib cm = Inr raw \<and> frame 1 [1] = frame 1 raw
    \<and> (\<forall>e. gz_decompress agent_side_lib raw = Inl e \<longrightarrow>
         fst (agent_decode agent_side_lib (sample_proxy True, frame 1 [1])) =
           Inl (Err (CommonDecoder (DecIo e))))" "frame 1 [1] ! 10 = 1"
    using uncompressed_frame_refused [of "sample_agent False" "sample_proxy True" agent_side_lib 0
        sample_agent_message "frame 1 [1]"]
    by (simp_all add: sample_agent_keys sample_agent_encode)
  moreover have "gz_decompress agent_side_lib raw = Inl (IoOs ''invalid gzip header'')"
    if "ser_codec_message agent_side_lib cm = Inr raw" for cm raw
    using that by (auto simp: agent_side_lib_def sample_lib_def split: if_splits)
  ultimately show ?thesis by blast
qed


theorem agent_decode_known_user_witness:
  "\<exists>rsa. rsa_crypto_fetcher (sample_proxy True) ''user1'' = Inr (Some rsa)"
proof -
  obtain enc' where "agent_decode agent_side_lib (sample_proxy True, frame 1 [31, 1] @ []) =
      (Inr (Some (sample_agent_message\<lparr>am_encryption := enc'\<rparr>)), (sample_proxy True, []))"
    using agent_decode_sealed [of agent_side_lib "sample_agent True" sample_agent_message _
        "sample_proxy True" _ 0 "[31, 1]" "[]", OF _ _ _ _ sample_agent_keys(1,2) _ sample_agent_keys(4)]
      sample_agent_encode [of 0 True "[]"]
    by (auto simp: sample_side_laws sample_agent_keys proxy_encode_framed framed_encode_eq frame_def
        split: sum.splits)
  from agent_decode_known_user [OF this] show ?thesis
    by (auto simp: sample_agent_message_def)
qed

end
