(* ===== verification/Config.thy ===== *)
theory Config
  imports Prelude
begin

text \<open>
  The configuration of the agent and of the proxy: \<open>agent/src/config.rs\<close> and
  \<open>proxy/src/config.rs\<close>.  Reading the TOML file is a library's work: a configuration is a value
  of the record, and each getter supplies its default for a missing entry.  Fields carry
  the prefix of their record, getters of the two sides the prefix of their side.
\<close>

definition unwrap_or :: "'a option \<Rightarrow> 'a \<Rightarrow> 'a" where
  "unwrap_or x d = (case x of None \<Rightarrow> d | Some v \<Rightarrow> v)"

section \<open>The agent\<close>

record AgentConfig =
  ac_user_token :: string
  ac_ipv6 :: "bool option"
  ac_port :: u16
  ac_rsa_dir :: string
  ac_worker_thread_number :: "u64 option"
  ac_compress :: "bool option"
  ac_proxy_addresses :: "string list"
  ac_client_receive_buffer_size :: "u64 option"
  ac_proxy_send_buffer_size :: "u64 option"
  ac_connect_to_proxy_timeout :: "u64 option"
  ac_proxy_relay_timeout :: "u64 option"
  ac_client_relay_timeout :: "u64 option"

definition agent_get_user_token :: "AgentConfig \<Rightarrow> string" where
  "agent_get_user_token self = ac_user_token self"

definition agent_get_proxy_addresses :: "AgentConfig \<Rightarrow> string list" where
  "agent_get_proxy_addresses self = ac_proxy_addresses self"

definition agent_get_ipv6 :: "AgentConfig \<Rightarrow> bool" where
  "agent_get_ipv6 self = unwrap_or (ac_ipv6 self) False"

definition agent_get_port :: "AgentConfig \<Rightarrow> u16" where
  "agent_get_port self = ac_port self"

definition agent_get_rsa_dir :: "AgentConfig \<Rightarrow> string" where
  "agent_get_rsa_dir self = ac_rsa_dir self"

definition agent_get_worker_thread_number :: "AgentConfig \<Rightarrow> u64" where
  "agent_get_worker_thread_number self = unwrap_or (ac_worker_thread_number self) 128"

definition agent_get_compress :: "AgentConfig \<Rightarrow> bool" where
  "agent_get_compress self = unwrap_or (ac_compress self) False"

definition agent_get_proxy_send_buffer_size :: "AgentConfig \<Rightarrow> u64" where
  "agent_get_proxy_send_buffer_size self = unwrap_or (ac_proxy_send_buffer_size self) (1024 * 512)"

definition agent_get_connect_to_proxy_timeout :: "AgentConfig \<Rightarrow> u64" where
  "agent_get_connect_to_proxy_timeout self = unwrap_or (ac_connect_to_proxy_timeout self) 20"

definition agent_get_client_receive_buffer_size :: "AgentConfig \<Rightarrow> u64" where
  "agent_get_client_receive_buffer_size self = unwrap_or (ac_client_receive_buffer_size self) (1024 * 512)"

definition agent_get_proxy_relay_timeout :: "AgentConfig \<Rightarrow> u64" where
  "agent_get_proxy_relay_timeout self = unwrap_or (ac_proxy_relay_timeout self) 20"

definition agent_get_client_relay_timeout :: "AgentConfig \<Rightarrow> u64" where
  "agent_get_client_relay_timeout self = unwrap_or (ac_client_relay_timeout self) 20"

section \<open>The proxy\<close>

definition DEFAULT_PROXY_SERVER_WORKER_THREAD_NUMBER :: u64 where
  "DEFAULT_PROXY_SERVER_WORKER_THREAD_NUMBER = 128"

record ProxyConfig =
  pc_ipv6 :: "bool option"
  pc_port :: u16
  pc_rsa_dir :: string
  pc_worker_thread_number :: "u64 option"
  pc_compress :: "bool option"
  pc_agent_receive_buffer_size :: "u64 option"
  pc_dst_tcp_buffer_size :: "u64 option"
  pc_dst_connect_timeout :: "u64 option"
  pc_dst_relay_timeout :: "u64 option"
  pc_agent_relay_timeout :: "u64 option"
  pc_dst_udp_recv_timeout :: "u64 option"
  pc_dst_udp_connect_timeout :: "u64 option"

definition proxy_get_ipv6 :: "ProxyConfig \<Rightarrow> bool" where
  "proxy_get_ipv6 self = unwrap_or (pc_ipv6 self) False"

definition proxy_get_port :: "ProxyConfig \<Rightarrow> u16" where
  "proxy_get_port self = pc_port self"

definition proxy_get_rsa_dir :: "ProxyConfig \<Rightarrow> string" where
  "proxy_get_rsa_dir self = pc_rsa_dir self"

definition proxy_get_worker_thread_number :: "ProxyConfig \<Rightarrow> u64" where
  "proxy_get_worker_thread_number self = unwrap_or (pc_worker_thread_number self) DEFAULT_PROXY_SERVER_WORKER_THREAD_NUMBER"

definition proxy_get_compress :: "ProxyConfig \<Rightarrow> bool" where
  "proxy_get_compress self = unwrap_or (pc_compress self) False"

definition proxy_get_agent_connection_codec_framed_buffer_size :: "ProxyConfig \<Rightarrow> u64" where
  "proxy_get_agent_connection_codec_framed_buffer_size self = unwrap_or (pc_agent_receive_buffer_size self) (1024 * 512)"

definition proxy_get_dst_connect_timeout :: "ProxyConfig \<Rightarrow> u64" where
  "proxy_get_dst_connect_timeout self = unwrap_or (pc_dst_connect_timeout self) 20"

definition proxy_get_dst_udp_recv_timeout :: "ProxyConfig \<Rightarrow> u64" where
  "proxy_get_dst_udp_recv_timeout self = unwrap_or (pc_dst_udp_recv_timeout self) 5"

definition proxy_get_dst_udp_connect_timeout :: "ProxyConfig \<Rightarrow> u64" where
  "proxy_get_dst_udp_connect_timeout self = unwrap_or (pc_dst_udp_connect_timeout self) 5"

end
