(* ===== verification/Keys.thy ===== *)
theory Keys
  imports Crypto Config
begin

text \<open>
  Where keys come from: the key stores of the two sides (\<open>agent/src/crypto.rs\<close>,
  \<open>proxy/src/crypto.rs\<close>), filled once from a directory with one subdirectory per user,
  and the generation of the key files (\<open>common/src/crypto/rsa.rs\<close>, \<open>tool/src/main.rs\<close>).
  The file system is a parameter of the stores and an explicit state of the generator.
\<close>

section \<open>Filling a key store\<close>

text \<open>
  \<open>read_dir\<close> lists a directory: each entry is an error or a file name, \<open>None\<close> if it is not
  Unicode.  \<open>open_file\<close> fails or gives a reader, which is what reading it to the end yields.
\<close>

record file_system =
  read_dir :: "string \<Rightarrow> io_error + (io_error + string option) list"
  open_file :: "string \<Rightarrow> io_error + (io_error + string)"

type_synonym ('pk, 'sk) key_cache = "string \<Rightarrow> ('pk, 'sk) RsaCrypto option"

text \<open>The closure of \<open>rsa_dir.for_each\<close> in \<open>AgentServerRsaCryptoFetcher::new\<close>.\<close>

definition agent_cache_entry ::
  "('pk, 'sk, 'z) crypto_lib_scheme \<Rightarrow> file_system \<Rightarrow> string \<Rightarrow> io_error + string option
   \<Rightarrow> ('pk, 'sk) key_cache \<Rightarrow> ('pk, 'sk) key_cache" where
  "agent_cache_entry L fs rsa_dir_path entry cache =
     (case entry of
        Inl e \<Rightarrow> cache
      | Inr None \<Rightarrow> cache
      | Inr (Some user_token) \<Rightarrow>
          (case open_file fs (rsa_dir_path @ user_token @ ''/ProxyPublicKey.pem'') of
             Inl e \<Rightarrow> cache
           | Inr public_key_file \<Rightarrow>
               (case open_file fs (rsa_dir_path @ user_token @ ''/AgentPrivateKey.pem'') of
                  Inl e \<Rightarrow> cache
                | Inr private_key_file \<Rightarrow>
                    (case rsa_crypto_new L public_key_file private_key_file of
                       Inl e \<Rightarrow> cache
                     | Inr rsa_crypto \<Rightarrow> cache(user_token \<mapsto> rsa_crypto)))))"

text \<open>The error is the context \<open>anyhow\<close> adds and the error below it.\<close>

definition agent_fetcher_new ::
  "('pk, 'sk, 'z) crypto_lib_scheme \<Rightarrow> file_system \<Rightarrow> AgentConfig
   \<Rightarrow> string \<times> io_error + ('pk, 'sk) key_cache" where
  "agent_fetcher_new L fs config =
     (let rsa_dir_path = agent_get_rsa_dir config in
      case read_dir fs rsa_dir_path of
        Inl e \<Rightarrow> Inl (''fail to read rsa directory'', e)
      | Inr rsa_dir \<Rightarrow> Inr (fold (agent_cache_entry L fs rsa_dir_path) rsa_dir Map.empty))"

definition agent_fetch :: "('pk, 'sk) key_cache \<Rightarrow> ('pk, 'sk) fetcher" where
  "agent_fetch cache = (\<lambda>user_token. Inr (cache user_token))"

text \<open>The same for \<open>ProxyServerRsaCryptoFetcher\<close>, with the other two of the four files.\<close>

definition proxy_cache_entry ::
  "('pk, 'sk, 'z) crypto_lib_scheme \<Rightarrow> file_system \<Rightarrow> string \<Rightarrow> io_error + string option
   \<Rightarrow> ('pk, 'sk) key_cache \<Rightarrow> ('pk, 'sk) key_cache" where
  "proxy_cache_entry L fs rsa_dir_path entry cache =
     (case entry of
        Inl e \<Rightarrow> cache
      | Inr None \<Rightarrow> cache
      | Inr (Some user_token) \<Rightarrow>
          (case open_file fs (rsa_dir_path @ user_token @ ''/AgentPublicKey.pem'') of
             Inl e \<Rightarrow> cache
           | Inr public_key_file \<Rightarrow>
               (case open_file fs (rsa_dir_path @ user_token @ ''/ProxyPrivateKey.pem'') of
                  Inl e \<Rightarrow> cache
                | Inr private_key_file \<Rightarrow>
                    (case rsa_crypto_new L public_key_file private_key_file of
                       Inl e \<Rightarrow> cache
                     | Inr rsa_crypto \<Rightarrow> cache(user_token \<mapsto> rsa_crypto)))))"

definition proxy_fetcher_new ::
  "('pk, 'sk, 'z) crypto_lib_scheme \<Rightarrow> file_system \<Rightarrow> ProxyConfig \<Rightarrow> RsaError + ('pk, 'sk) key_cache" where
  "proxy_fetcher_new L fs config =
     (let rsa_dir_path = proxy_get_rsa_dir config in
      case read_dir fs rsa_dir_path of
        Inl e \<Rightarrow> Inl (RsaIo e)
      | Inr rsa_dir \<Rightarrow> Inr (fold (proxy_cache_entry L fs rsa_dir_path) rsa_dir Map.empty))"

definition proxy_fetch :: "('pk, 'sk) key_cache \<Rightarrow> ('pk, 'sk) fetcher" where
  "proxy_fetch cache = (\<lambda>user_token. Inr (cache user_token))"

section \<open>What a key store holds\<close>

text \<open>The keys of one user, when both files open, are text and parse.\<close>

definition load_keys ::
  "('pk, 'sk, 'z) crypto_lib_scheme \<Rightarrow> file_system \<Rightarrow> string \<Rightarrow> string \<Rightarrow> ('pk, 'sk) RsaCrypto option" where
  "load_keys L fs public_path private_path =
     (case (open_file fs public_path, open_file fs private_path) of
        (Inr (Inr pub), Inr (Inr priv)) \<Rightarrow>
          (case (public_key_from_pem L pub, private_key_from_pem L priv) of
             (Inr pk, Inr sk) \<Rightarrow> Some \<lparr>private_key = sk, public_key = pk\<rparr>
           | _ \<Rightarrow> None)
      | _ \<Rightarrow> None)"

lemma agent_cache_entry_eq:
  "agent_cache_entry L fs d entry cache =
     (case entry of
        Inr (Some u) \<Rightarrow>
          (case load_keys L fs (d @ u @ ''/ProxyPublicKey.pem'') (d @ u @ ''/AgentPrivateKey.pem'') of
             None \<Rightarrow> cache | Some k \<Rightarrow> cache(u \<mapsto> k))
      | _ \<Rightarrow> cache)"
  by (auto simp: agent_cache_entry_def load_keys_def rsa_crypto_new_def split: sum.split option.split)

lemma proxy_cache_entry_eq:
  "proxy_cache_entry L fs d entry cache =
     (case entry of
        Inr (Some u) \<Rightarrow>
          (case load_keys L fs (d @ u @ ''/AgentPublicKey.pem'') (d @ u @ ''/ProxyPrivateKey.pem'') of
             None \<Rightarrow> cache | Some k \<Rightarrow> cache(u \<mapsto> k))
      | _ \<Rightarrow> cache)"
  by (auto simp: proxy_cache_entry_def load_keys_def rsa_crypto_new_def split: sum.split option.split)

text \<open>
  The contract of the two stores: an entry of the directory adds what it loads for its user, on its own,
  and changes nothing otherwise.  Then a store knows exactly the listed users that load, and neither
  the order of the listing nor entries listed twice matter.
\<close>

locale key_store =
  fixes add_entry :: "io_error + string option \<Rightarrow> ('pk, 'sk) key_cache \<Rightarrow> ('pk, 'sk) key_cache"
    and load :: "string \<Rightarrow> ('pk, 'sk) RsaCrypto option"
  assumes entry: "add_entry e cache = (case e of
      Inr (Some u) \<Rightarrow> (case load u of None \<Rightarrow> cache | Some k \<Rightarrow> cache(u \<mapsto> k)) | _ \<Rightarrow> cache)"
begin

lemma fill_lookup:
  "fold add_entry es cache u = (if Inr (Some u) \<in> set es \<and> load u \<noteq> None then load u else cache u)"
proof (induction es arbitrary: cache)
  case (Cons e es)
  then show ?case
    by (cases e) (auto simp: entry split: option.splits)
qed simp

lemma filled: "fold add_entry es Map.empty u = (if Inr (Some u) \<in> set es then load u else None)"
  by (simp add: fill_lookup)

lemma listing_order: "set es = set es' \<Longrightarrow> fold add_entry es cache = fold add_entry es' cache"
  by (rule ext) (simp add: fill_lookup)

end

interpretation agent_store: key_store "agent_cache_entry L fs d"
    "\<lambda>u. load_keys L fs (d @ u @ ''/ProxyPublicKey.pem'') (d @ u @ ''/AgentPrivateKey.pem'')"
  for L :: "('pk, 'sk, 'z) crypto_lib_scheme" and fs d
  by unfold_locales (rule agent_cache_entry_eq)

interpretation proxy_store: key_store "proxy_cache_entry L fs d"
    "\<lambda>u. load_keys L fs (d @ u @ ''/AgentPublicKey.pem'') (d @ u @ ''/ProxyPrivateKey.pem'')"
  for L :: "('pk, 'sk, 'z) crypto_lib_scheme" and fs d
  by unfold_locales (rule proxy_cache_entry_eq)

lemma agent_fetcher_lookup:
  assumes "agent_fetcher_new L fs config = Inr cache" and "d = agent_get_rsa_dir config"
    and "read_dir fs d = Inr es"
  shows "cache u = (if Inr (Some u) \<in> set es
    then load_keys L fs (d @ u @ ''/ProxyPublicKey.pem'') (d @ u @ ''/AgentPrivateKey.pem'') else None)"
  using assms agent_store.filled [of L fs d es u] by (auto simp: agent_fetcher_new_def Let_def)

lemma proxy_fetcher_lookup:
  assumes "proxy_fetcher_new L fs config = Inr cache" and "d = proxy_get_rsa_dir config"
    and "read_dir fs d = Inr es"
  shows "cache u = (if Inr (Some u) \<in> set es
    then load_keys L fs (d @ u @ ''/AgentPublicKey.pem'') (d @ u @ ''/ProxyPrivateKey.pem'') else None)"
  using assms proxy_store.filled [of L fs d es u] by (auto simp: proxy_fetcher_new_def Let_def)

section \<open>Generating keys\<close>

record ('pk, 'sk) keygen_lib = "('pk, 'sk) crypto_lib" +
  rsa_generate :: "nat \<Rightarrow> nat \<Rightarrow> ext_error + 'sk"
  rsa_public_of :: "'sk \<Rightarrow> 'pk"
  private_key_to_pem :: "'sk \<Rightarrow> ext_error + string"
  public_key_to_pem :: "'pk \<Rightarrow> ext_error + string"

text \<open>PEM text reads back as the key it was written from, and generated keys are pairs.\<close>

definition keygen_law :: "('pk, 'sk, 'z) keygen_lib_scheme \<Rightarrow> bool" where
  [law_defs]: "keygen_law L \<longleftrightarrow>
     (\<forall>sk s. private_key_to_pem L sk = Inr s \<longrightarrow> private_key_from_pem L s = Inr sk)
   \<and> (\<forall>pk s. public_key_to_pem L pk = Inr s \<longrightarrow> public_key_from_pem L s = Inr pk)
   \<and> (\<forall>rng bits sk. rsa_generate L rng bits = Inr sk \<longrightarrow> rsa_law L (rsa_public_of L sk) sk)"

text \<open>
  A disk: its directories, its files, and which writes and directory creations the operating
  system will refuse.  Writing needs the parent directory; creating a directory also
  creates its ancestors.
\<close>

record disk =
  dirs :: "string list"
  files :: "string \<Rightarrow> string option"
  write_fault :: "string \<Rightarrow> io_error option"
  mkdir_fault :: "string \<Rightarrow> io_error option"

definition path_parent :: "string \<Rightarrow> string option" where
  "path_parent p =
     (if p = '''' \<or> p = ''/'' then None
      else Some (rev (tl (dropWhile (\<lambda>c. c \<noteq> CHR ''/'') (rev p)))))"

definition path_ancestors :: "string \<Rightarrow> string list" where
  "path_ancestors p = map (\<lambda>n. take n p) (filter (\<lambda>n. p ! n = CHR ''/'') [0..<length p])"

definition fs_write :: "string \<Rightarrow> string \<Rightarrow> (disk, CommonError, unit) rust" where
  "fs_write path contents = (\<lambda>d.
     case write_fault d path of
       Some e \<Rightarrow> throw (CommonIo e) d
     | None \<Rightarrow>
         if (case path_parent path of None \<Rightarrow> False | Some p \<Rightarrow> p = '''' \<or> p \<in> set (dirs d))
         then ret () (d\<lparr>files := (files d)(path \<mapsto> contents)\<rparr>)
         else throw (CommonIo (IoOs ''No such file or directory'')) d)"

definition fs_create_dir_all :: "string \<Rightarrow> (disk, CommonError, unit) rust" where
  "fs_create_dir_all p = (\<lambda>d.
     case mkdir_fault d p of
       Some e \<Rightarrow> throw (CommonIo e) d
     | None \<Rightarrow> ret () (d\<lparr>dirs := p # path_ancestors p @ dirs d\<rparr>))"

definition path_exists :: "disk \<Rightarrow> string \<Rightarrow> bool" where
  "path_exists d p \<longleftrightarrow> p \<in> set (dirs d) \<or> files d p \<noteq> None"

text \<open>\<open>.expect(...)\<close>.\<close>

definition expect :: "'x + 'a \<Rightarrow> ('s, 'e, 'a) rust" where
  [rust_defs]: "expect r = (case r of Inl e \<Rightarrow> panic | Inr a \<Rightarrow> ret a)"

definition DEFAULT_AGENT_PRIVATE_KEY_PATH :: string where
  "DEFAULT_AGENT_PRIVATE_KEY_PATH = ''AgentPrivateKey.pem''"
definition DEFAULT_AGENT_PUBLIC_KEY_PATH :: string where
  "DEFAULT_AGENT_PUBLIC_KEY_PATH = ''AgentPublicKey.pem''"
definition DEFAULT_PROXY_PRIVATE_KEY_PATH :: string where
  "DEFAULT_PROXY_PRIVATE_KEY_PATH = ''ProxyPrivateKey.pem''"
definition DEFAULT_PROXY_PUBLIC_KEY_PATH :: string where
  "DEFAULT_PROXY_PUBLIC_KEY_PATH = ''ProxyPublicKey.pem''"

text \<open>The two \<open>match\<close>es of \<open>generate_rsa_key_pairs\<close> are the same but for the key.\<close>

definition write_key :: "string \<Rightarrow> string \<Rightarrow> (disk, CommonError, unit) rust" where
  "write_key path pem =
     (case path_parent path of
        None \<Rightarrow> fs_write path pem
      | Some parent \<Rightarrow> (\<lambda>d.
          bnd (if \<not> path_exists d parent then fs_create_dir_all parent else ret ()) (\<lambda>_.
          fs_write path pem) d))"

definition generate_rsa_key_pairs ::
  "('pk, 'sk, 'z) keygen_lib_scheme \<Rightarrow> nat \<Rightarrow> string \<Rightarrow> string \<Rightarrow> (disk, CommonError, unit) rust" where
  "generate_rsa_key_pairs L rng private_key_path public_key_path =
     bnd (expect (rsa_generate L rng 2048)) (\<lambda>private_key.
     let public_key = rsa_public_of L private_key in
     bnd (expect (private_key_to_pem L private_key)) (\<lambda>private_key_pem.
     bnd (expect (public_key_to_pem L public_key)) (\<lambda>public_key_pem.
     bnd (write_key private_key_path private_key_pem) (\<lambda>_.
     bnd (write_key public_key_path public_key_pem) (\<lambda>_.
     ret ())))))"

definition generate_agent_key_pairs ::
  "('pk, 'sk, 'z) keygen_lib_scheme \<Rightarrow> nat \<Rightarrow> string \<Rightarrow> string \<Rightarrow> (disk, CommonError, unit) rust" where
  "generate_agent_key_pairs L rng base_dir user_token =
     (let private_key_path = base_dir @ ''/'' @ user_token @ ''/'' @ DEFAULT_AGENT_PRIVATE_KEY_PATH;
          public_key_path = base_dir @ ''/'' @ user_token @ ''/'' @ DEFAULT_AGENT_PUBLIC_KEY_PATH
      in generate_rsa_key_pairs L rng private_key_path public_key_path)"

definition generate_proxy_key_pairs ::
  "('pk, 'sk, 'z) keygen_lib_scheme \<Rightarrow> nat \<Rightarrow> string \<Rightarrow> string \<Rightarrow> (disk, CommonError, unit) rust" where
  "generate_proxy_key_pairs L rng base_dir user_token =
     (let private_key_path = base_dir @ ''/'' @ user_token @ ''/'' @ DEFAULT_PROXY_PRIVATE_KEY_PATH;
          public_key_path = base_dir @ ''/'' @ user_token @ ''/'' @ DEFAULT_PROXY_PUBLIC_KEY_PATH
      in generate_rsa_key_pairs L rng private_key_path public_key_path)"

text \<open>\<open>main\<close> of the tool; the key generator's draws are numbered.\<close>

definition tool_main :: "('pk, 'sk, 'z) keygen_lib_scheme \<Rightarrow> (nat \<Rightarrow> nat) \<Rightarrow> (disk, CommonError, unit) rust" where
  "tool_main L rng =
     bnd (generate_agent_key_pairs L (rng 0) ''./resources/rsa'' ''user1'') (\<lambda>_.
     bnd (generate_proxy_key_pairs L (rng 1) ''./resources/rsa'' ''user1'') (\<lambda>_.
     bnd (generate_agent_key_pairs L (rng 2) ''./resources/rsa'' ''user2'') (\<lambda>_.
     bnd (generate_proxy_key_pairs L (rng 3) ''./resources/rsa'' ''user2'') (\<lambda>_.
     ret ()))))"

section \<open>Properties\<close>

text \<open>C33: A key store built from a directory knows a user exactly when the directory lists the user's name and both of that user's key files open, are text and parse; broken entries and unreadable names disturb nobody else, and the order of the listing does not matter.  On the agent the files are the proxy's public and the agent's private key, on the proxy the agent's public and the proxy's private key.\<close>

theorem key_stores_exact:
  assumes "read_dir fs (agent_get_rsa_dir ac) = Inr es" and "read_dir fs (proxy_get_rsa_dir pc) = Inr es'"
  shows "\<exists>ca cp. agent_fetcher_new L fs ac = Inr ca \<and> proxy_fetcher_new L fs pc = Inr cp
    \<and> (\<forall>u. agent_fetch ca u = Inr (if Inr (Some u) \<in> set es
          then load_keys L fs (agent_get_rsa_dir ac @ u @ ''/ProxyPublicKey.pem'')
            (agent_get_rsa_dir ac @ u @ ''/AgentPrivateKey.pem'') else None))
    \<and> (\<forall>u. proxy_fetch cp u = Inr (if Inr (Some u) \<in> set es'
          then load_keys L fs (proxy_get_rsa_dir pc @ u @ ''/AgentPublicKey.pem'')
            (proxy_get_rsa_dir pc @ u @ ''/ProxyPrivateKey.pem'') else None))"
proof -
  obtain ca where ca: "agent_fetcher_new L fs ac = Inr ca"
    using assms by (simp add: agent_fetcher_new_def Let_def)
  obtain cp where cp: "proxy_fetcher_new L fs pc = Inr cp"
    using assms by (simp add: proxy_fetcher_new_def Let_def)
  show ?thesis
    using ca cp agent_fetcher_lookup [OF ca refl assms(1)] proxy_fetcher_lookup [OF cp refl assms(2)]
    by (simp add: agent_fetch_def proxy_fetch_def)
qed

lemma fs_write_files:
  "fs_write p s d = (Inr (), d') \<Longrightarrow> files d' = (files d)(p \<mapsto> s)"
  by (auto simp: fs_write_def rust_defs split: option.splits if_splits)

lemma fs_create_dir_all_files:
  "fs_create_dir_all p d = (Inr (), d') \<Longrightarrow> files d' = files d"
  by (auto simp: fs_create_dir_all_def rust_defs split: option.splits)

lemma write_key_files:
  assumes "write_key p s d = (Inr (), d')"
  shows "files d' = (files d)(p \<mapsto> s)"
  using assms
  by (auto simp: write_key_def bnd_Inr_iff ret_def split: option.splits if_splits
      dest!: fs_write_files fs_create_dir_all_files)

lemma generate_rsa_key_pairs_files:
  assumes "generate_rsa_key_pairs L rng priv pub d = (Inr (), d')"
  shows "\<exists>sk s t. rsa_generate L rng 2048 = Inr sk \<and> private_key_to_pem L sk = Inr s
    \<and> public_key_to_pem L (rsa_public_of L sk) = Inr t
    \<and> files d' = (files d)(priv \<mapsto> s, pub \<mapsto> t)"
proof -
  obtain sk s t d1 where "rsa_generate L rng 2048 = Inr sk" "private_key_to_pem L sk = Inr s"
      "public_key_to_pem L (rsa_public_of L sk) = Inr t"
      "write_key priv s d = (Inr (), d1)" "write_key pub t d1 = (Inr (), d')"
    using assms
    by (auto simp: generate_rsa_key_pairs_def bnd_Inr_iff expect_def ret_def panic_def Let_def
        split: sum.splits)
  then show ?thesis
    by (auto dest!: write_key_files)
qed

text \<open>Reading the generated disk: a file that exists opens and is its text.\<close>

definition opens_disk :: "file_system \<Rightarrow> disk \<Rightarrow> bool" where
  "opens_disk fs d \<longleftrightarrow> (\<forall>p s. files d p = Some s \<longrightarrow> open_file fs p = Inr (Inr s))"

text \<open>C17: After the tool's two generators have succeeded for a user, an agent and a proxy that read that directory both know the user, and their keys fit together in both directions: what either side's public key encrypts, the other side's private key decrypts.\<close>

theorem generated_keys_fit:
  assumes law: "keygen_law L"
    and "generate_agent_key_pairs L r1 base u d = (Inr (), d1)"
    and "generate_proxy_key_pairs L r2 base u d1 = (Inr (), d2)"
    and "opens_disk fs d2" and "read_dir fs (base @ ''/'') = Inr es" and "Inr (Some u) \<in> set es"
    and "agent_get_rsa_dir ac = base @ ''/''" and "proxy_get_rsa_dir pc = base @ ''/''"
  shows "\<exists>ca cp ka kp. agent_fetcher_new L fs ac = Inr ca \<and> proxy_fetcher_new L fs pc = Inr cp
    \<and> agent_fetch ca u = Inr (Some ka) \<and> proxy_fetch cp u = Inr (Some kp)
    \<and> rsa_law L (public_key ka) (private_key kp) \<and> rsa_law L (public_key kp) (private_key ka)"
proof -
  let ?p = "base @ ''/'' @ u @ ''/''"
  obtain sa s t where a: "rsa_generate L r1 2048 = Inr sa" "private_key_to_pem L sa = Inr s"
      "public_key_to_pem L (rsa_public_of L sa) = Inr t"
      "files d1 = (files d)(?p @ ''AgentPrivateKey.pem'' \<mapsto> s, ?p @ ''AgentPublicKey.pem'' \<mapsto> t)"
    using generate_rsa_key_pairs_files [OF assms(2) [unfolded generate_agent_key_pairs_def Let_def]]
    by (auto simp: DEFAULT_AGENT_PRIVATE_KEY_PATH_def DEFAULT_AGENT_PUBLIC_KEY_PATH_def)
  obtain sp s' t' where p: "rsa_generate L r2 2048 = Inr sp" "private_key_to_pem L sp = Inr s'"
      "public_key_to_pem L (rsa_public_of L sp) = Inr t'"
      "files d2 = (files d1)(?p @ ''ProxyPrivateKey.pem'' \<mapsto> s', ?p @ ''ProxyPublicKey.pem'' \<mapsto> t')"
    using generate_rsa_key_pairs_files [OF assms(3) [unfolded generate_proxy_key_pairs_def Let_def]]
    by (auto simp: DEFAULT_PROXY_PRIVATE_KEY_PATH_def DEFAULT_PROXY_PUBLIC_KEY_PATH_def)
  have "files d2 (?p @ ''AgentPrivateKey.pem'') = Some s" "files d2 (?p @ ''AgentPublicKey.pem'') = Some t"
    "files d2 (?p @ ''ProxyPrivateKey.pem'') = Some s'" "files d2 (?p @ ''ProxyPublicKey.pem'') = Some t'"
    by (simp_all add: a(4) p(4))
  with assms(4) have "open_file fs (?p @ ''AgentPrivateKey.pem'') = Inr (Inr s)"
    "open_file fs (?p @ ''AgentPublicKey.pem'') = Inr (Inr t)"
    "open_file fs (?p @ ''ProxyPrivateKey.pem'') = Inr (Inr s')"
    "open_file fs (?p @ ''ProxyPublicKey.pem'') = Inr (Inr t')"
    by (simp_all add: opens_disk_def)
  moreover have "private_key_from_pem L s = Inr sa" "public_key_from_pem L t = Inr (rsa_public_of L sa)"
    "private_key_from_pem L s' = Inr sp" "public_key_from_pem L t' = Inr (rsa_public_of L sp)"
    using law a p by (simp_all add: keygen_law_def)
  moreover obtain ca cp where ca: "agent_fetcher_new L fs ac = Inr ca"
    and cp: "proxy_fetcher_new L fs pc = Inr cp"
    using assms by (simp add: agent_fetcher_new_def proxy_fetcher_new_def Let_def)
  ultimately have "ca u = Some \<lparr>private_key = sa, public_key = rsa_public_of L sp\<rparr>"
    "cp u = Some \<lparr>private_key = sp, public_key = rsa_public_of L sa\<rparr>"
    using agent_fetcher_lookup [OF ca assms(7) [symmetric] assms(5), of u]
      proxy_fetcher_lookup [OF cp assms(8) [symmetric] assms(5), of u] assms(6)
    by (simp_all add: load_keys_def)
  moreover have "rsa_law L (rsa_public_of L sp) sp" "rsa_law L (rsa_public_of L sa) sa"
    using law a(1) p(1) by (auto simp: keygen_law_def)
  ultimately show ?thesis
    using ca cp by (auto simp: agent_fetch_def proxy_fetch_def)
qed

end
