(* ===== verification/KeySamples.thy ===== *)
theory KeySamples
  imports Keys SampleLib
begin

text \<open>Concrete inputs for the theorems about key stores: a key is a number, its PEM text that many letters.\<close>

definition sample_keygen :: "(nat, nat) keygen_lib" where
  "sample_keygen =
     \<lparr>aes_encrypt_padded = sample_encrypt,
      aes_decrypt_padded = sample_decrypt,
      rsa_public_encrypt = (\<lambda>pk rng m. Inr (word_of_nat pk # m)),
      rsa_private_decrypt = (\<lambda>sk c. case c of [] \<Rightarrow> Inl ''decryption error''
         | k # m \<Rightarrow> if k = word_of_nat sk then Inr m else Inl ''decryption error''),
      public_key_from_pem = (\<lambda>s. Inr (length s)),
      private_key_from_pem = (\<lambda>s. Inr (length s)),
      rsa_generate = (\<lambda>rng bits. Inr rng),
      rsa_public_of = (\<lambda>sk. sk),
      private_key_to_pem = (\<lambda>sk. Inr (replicate sk CHR ''k'')),
      public_key_to_pem = (\<lambda>pk. Inr (replicate pk CHR ''p''))\<rparr>"

lemma sample_keygen_law: "keygen_law sample_keygen"
  by (auto simp: keygen_law_def rsa_law_def sample_keygen_def)

definition blank_disk :: disk where
  "blank_disk = \<lparr>dirs = [''r''], files = Map.empty, write_fault = (\<lambda>_. None), mkdir_fault = (\<lambda>_. None)\<rparr>"

definition fs_of_disk :: "disk \<Rightarrow> (io_error + string option) list \<Rightarrow> file_system" where
  "fs_of_disk d es = \<lparr>read_dir = (\<lambda>_. Inr es),
     open_file = (\<lambda>p. case files d p of None \<Rightarrow> Inl (IoOs ''not found'') | Some s \<Rightarrow> Inr (Inr s))\<rparr>"

lemma opens_fs_of_disk: "opens_disk (fs_of_disk d es) d"
  by (simp add: opens_disk_def fs_of_disk_def)

definition sample_agent_config :: AgentConfig where
  "sample_agent_config = \<lparr>ac_user_token = ''u'', ac_ipv6 = None, ac_port = 10080, ac_rsa_dir = ''r/'',
     ac_worker_thread_number = None, ac_compress = Some True, ac_proxy_addresses = [''127.0.0.1:80''],
     ac_client_receive_buffer_size = None, ac_proxy_send_buffer_size = None,
     ac_connect_to_proxy_timeout = None, ac_proxy_relay_timeout = None, ac_client_relay_timeout = None\<rparr>"

definition sample_proxy_config :: ProxyConfig where
  "sample_proxy_config = \<lparr>pc_ipv6 = None, pc_port = 80, pc_rsa_dir = ''r/'', pc_worker_thread_number = None,
     pc_compress = Some True, pc_agent_receive_buffer_size = None, pc_dst_tcp_buffer_size = None,
     pc_dst_connect_timeout = None, pc_dst_relay_timeout = None, pc_agent_relay_timeout = None,
     pc_dst_udp_recv_timeout = None, pc_dst_udp_connect_timeout = None\<rparr>"

lemma sample_config_dirs [simp]:
  "agent_get_rsa_dir sample_agent_config = ''r/''" "proxy_get_rsa_dir sample_proxy_config = ''r/''"
  by (simp_all add: agent_get_rsa_dir_def proxy_get_rsa_dir_def sample_agent_config_def
      sample_proxy_config_def)

lemma write_key_ok:
  assumes "write_fault d = (\<lambda>_. None)" "mkdir_fault d = (\<lambda>_. None)"
    and "path_parent path = Some p" and "files d p = None" and "path \<noteq> p"
  shows "\<exists>d'. write_key path pem d = (Inr (), d') \<and> write_fault d' = (\<lambda>_. None)
    \<and> mkdir_fault d' = (\<lambda>_. None) \<and> files d' p = None"
  using assms
  by (auto simp: write_key_def path_exists_def fs_create_dir_all_def fs_write_def rust_defs)

lemma sample_pairs:
  assumes "write_fault d = (\<lambda>_. None)" "mkdir_fault d = (\<lambda>_. None)" "files d p = None"
    and "path_parent priv = Some p" "path_parent pub = Some p" "priv \<noteq> p" "pub \<noteq> p"
  shows "\<exists>d'. generate_rsa_key_pairs sample_keygen rng priv pub d = (Inr (), d')
    \<and> write_fault d' = (\<lambda>_. None) \<and> mkdir_fault d' = (\<lambda>_. None) \<and> files d' p = None"
proof -
  obtain d1 where d1: "write_key priv (replicate rng CHR ''k'') d = (Inr (), d1)"
      "write_fault d1 = (\<lambda>_. None)" "mkdir_fault d1 = (\<lambda>_. None)" "files d1 p = None"
    using write_key_ok [OF assms(1,2,4,3,6)] by blast
  obtain d2 where "write_key pub (replicate rng CHR ''p'') d1 = (Inr (), d2)"
      "write_fault d2 = (\<lambda>_. None)" "mkdir_fault d2 = (\<lambda>_. None)" "files d2 p = None"
    using write_key_ok [OF d1(2,3) assms(5) d1(4) assms(7)] by blast
  with d1 show ?thesis
    by (intro exI [of _ d2])
      (simp add: generate_rsa_key_pairs_def bnd_def expect_def ret_def sample_keygen_def)
qed

lemmas key_paths = generate_agent_key_pairs_def generate_proxy_key_pairs_def
  DEFAULT_AGENT_PRIVATE_KEY_PATH_def DEFAULT_AGENT_PUBLIC_KEY_PATH_def
  DEFAULT_PROXY_PRIVATE_KEY_PATH_def DEFAULT_PROXY_PUBLIC_KEY_PATH_def

lemma sample_generate:
  "\<exists>d1 d2. generate_agent_key_pairs sample_keygen 1 ''r'' ''u'' blank_disk = (Inr (), d1)
    \<and> generate_proxy_key_pairs sample_keygen 2 ''r'' ''u'' d1 = (Inr (), d2)"
proof -
  have "write_fault blank_disk = (\<lambda>_. None)" "mkdir_fault blank_disk = (\<lambda>_. None)"
    "files blank_disk ''r/u'' = None"
    by (simp_all add: blank_disk_def)
  then obtain d1 where d1: "generate_agent_key_pairs sample_keygen 1 ''r'' ''u'' blank_disk = (Inr (), d1)"
      "write_fault d1 = (\<lambda>_. None)" "mkdir_fault d1 = (\<lambda>_. None)" "files d1 ''r/u'' = None"
    using sample_pairs [of blank_disk "''r/u''" "''r/u/AgentPrivateKey.pem''" "''r/u/AgentPublicKey.pem''" 1]
    by (auto simp: key_paths path_parent_def)
  then show ?thesis
    using sample_pairs [of d1 "''r/u''" "''r/u/ProxyPrivateKey.pem''" "''r/u/ProxyPublicKey.pem''" 2]
    by (auto simp: key_paths path_parent_def)
qed

theorem generated_keys_fit_witness:
  "\<exists>fs ca cp ka kp. agent_fetcher_new sample_keygen fs sample_agent_config = Inr ca
    \<and> proxy_fetcher_new sample_keygen fs sample_proxy_config = Inr cp
    \<and> agent_fetch ca ''u'' = Inr (Some ka) \<and> proxy_fetch cp ''u'' = Inr (Some kp)
    \<and> rsa_law sample_keygen (public_key ka) (private_key kp)
    \<and> rsa_law sample_keygen (public_key kp) (private_key ka)"
proof -
  obtain d1 d2 where g: "generate_agent_key_pairs sample_keygen 1 ''r'' ''u'' blank_disk = (Inr (), d1)"
      "generate_proxy_key_pairs sample_keygen 2 ''r'' ''u'' d1 = (Inr (), d2)"
    using sample_generate by blast
  have ls: "read_dir (fs_of_disk d2 [Inr (Some ''u'')]) (''r'' @ ''/'') = Inr [Inr (Some ''u'')]"
    by (simp add: fs_of_disk_def)
  show ?thesis
    using generated_keys_fit [OF sample_keygen_law g opens_fs_of_disk ls, of sample_agent_config
        sample_proxy_config] by fastforce
qed

theorem key_stores_exact_witness:
  "\<exists>fs ca cp. agent_fetcher_new sample_keygen fs sample_agent_config = Inr ca
    \<and> proxy_fetcher_new sample_keygen fs sample_proxy_config = Inr cp
    \<and> agent_fetch ca ''u'' = Inr None \<and> proxy_fetch cp ''u'' = Inr None"
proof -
  let ?fs = "fs_of_disk blank_disk [Inl (IoOs ''x''), Inr (Some ''u'')]"
  have "read_dir ?fs (agent_get_rsa_dir sample_agent_config) = Inr [Inl (IoOs ''x''), Inr (Some ''u'')]"
    "read_dir ?fs (proxy_get_rsa_dir sample_proxy_config) = Inr [Inl (IoOs ''x''), Inr (Some ''u'')]"
    by (simp_all add: fs_of_disk_def)
  from key_stores_exact [OF this, of sample_keygen] show ?thesis
    by (auto simp: load_keys_def fs_of_disk_def blank_disk_def intro!: exI [of _ ?fs])
qed

end
