(* ===== verification/AgentNet.thy ===== *)
theory AgentNet
  imports Message Framing Config
begin

text \<open>
  What an agent task sees of the outside, and the connection factory that uses it
  (\<open>agent/src/connection.rs\<close>, \<open>random_32_bytes\<close> of \<open>common/src/lib.rs\<close>).

  The network is a script inside the state: what the client will send and how the attempts to
  reach the proxy will end is written there before the task runs, and what the task sends is
  collected there.  Theorems about a task quantify over all scripts.  An established connection
  to the proxy is seen at the level of messages; \<open>Wire\<close> covers the bytes below.
\<close>

record proxy_link =
  link_in :: "(CommonError + PpaassProxyMessage) list"
  link_out :: "PpaassAgentMessage list"
  link_fault :: "CommonError option"
  link_closed :: bool

text \<open>
  How \<open>timeout(.., TcpStream::connect(..))\<close> ends; for an established connection also what
  \<open>set_nodelay\<close> returns.
\<close>

datatype dial =
    DialTimeout
  | DialError io_error
  | Dialed "io_error option" proxy_link

record agent_world =
  client_in :: reads
  client_out :: bytes
  client_fault :: "io_error option"
  client_closed :: bool
  dials :: "dial list"
  dialled :: "SocketAddr list list"
  links :: "proxy_link list"
  draws :: nat

text \<open>Configuration, random sources, name service and address parsing.\<close>

record agent_env =
  config :: AgentConfig
  new_v4 :: "nat \<Rightarrow> string"
  random_array :: "nat \<Rightarrow> bytes"
  resolve_name :: resolver
  socket_addr_from_str :: "string \<Rightarrow> SocketAddr option"

type_synonym ('e, 'a) agent = "(agent_world, 'e, 'a) rust"

definition uuid_new_v4 :: "agent_env \<Rightarrow> ('e, string) agent" where
  "uuid_new_v4 env = (\<lambda>w. (Inr (new_v4 env (draws w)), w\<lparr>draws := draws w + 1\<rparr>))"

definition random_32_bytes :: "agent_env \<Rightarrow> ('e, bytes) agent" where
  "random_32_bytes env = (\<lambda>w. (Inr (random_array env (draws w)), w\<lparr>draws := draws w + 1\<rparr>))"

text \<open>\<open>common/src/crypto/aes.rs\<close> offers the same under another name.\<close>

definition generate_aes_encryption_token :: "agent_env \<Rightarrow> ('e, bytes) agent" where
  "generate_aes_encryption_token env = random_32_bytes env"

section \<open>The client's side of a task\<close>

text \<open>\<open>framed.next().await\<close> on the client's connection: the codec's state and read buffer, and the item.\<close>

definition client_next :: "('s, 'e, 'a) decoder \<Rightarrow> (io_error \<Rightarrow> 'e) \<Rightarrow> 's \<times> bytes
    \<Rightarrow> ('e, 'a option \<times> ('s \<times> bytes)) agent" where
  "client_next decode conv framed = (\<lambda>w.
     case framed_next decode conv framed (client_in w) of
       (Inl f, framed', cs) \<Rightarrow> (Inl f, w\<lparr>client_in := cs\<rparr>)
     | (Inr item, framed', cs) \<Rightarrow> (Inr (item, framed'), w\<lparr>client_in := cs\<rparr>))"

text \<open>\<open>framed.send(item).await\<close>: encode into an empty write buffer and flush it.\<close>

definition client_send :: "('i \<Rightarrow> (bytes, 'e, unit) rust) \<Rightarrow> (io_error \<Rightarrow> 'e) \<Rightarrow> 'i \<Rightarrow> ('e, unit) agent" where
  "client_send encode conv item = (\<lambda>w.
     case encode item [] of
       (Inl f, dst) \<Rightarrow> (Inl f, w)
     | (Inr _, dst) \<Rightarrow>
         (case client_fault w of
            Some e \<Rightarrow> throw (conv e) w
          | None \<Rightarrow> ret () (w\<lparr>client_out := client_out w @ dst\<rparr>)))"

section \<open>Connections to the proxy\<close>

record ProxyConnectionFactory =
  factory_addresses :: "SocketAddr list"

text \<open>\<open>new\<close> keeps the configured addresses that parse and panics if there is none.\<close>

definition factory_new :: "agent_env \<Rightarrow> AgentError failure + ProxyConnectionFactory" where
  "factory_new env =
     (let proxy_addresses_configuration = agent_get_proxy_addresses (config env);
          proxy_addresses = List.map_filter (socket_addr_from_str env) proxy_addresses_configuration
      in if proxy_addresses = [] then Inl Panic
         else Inr \<lparr>factory_addresses = proxy_addresses\<rparr>)"

text \<open>The connection is its identifier and its place in \<open>links\<close>.\<close>

record ProxyConnection =
  connection_id :: string
  link :: nat

definition tcp_connect :: "SocketAddr list \<Rightarrow> ('e, dial) agent" where
  "tcp_connect addresses = (\<lambda>w.
     let w = w\<lparr>dialled := dialled w @ [addresses]\<rparr> in
     case dials w of
       [] \<Rightarrow> (Inr DialTimeout, w)
     | d # ds \<Rightarrow> (Inr d, w\<lparr>dials := ds\<rparr>))"

definition open_link :: "proxy_link \<Rightarrow> ('e, nat) agent" where
  "open_link l = (\<lambda>w. (Inr (length (links w)), w\<lparr>links := links w @ [l]\<rparr>))"

definition create_connection :: "agent_env \<Rightarrow> ProxyConnectionFactory \<Rightarrow> (AgentError, ProxyConnection) agent" where
  "create_connection env self =
     bnd (tcp_connect (factory_addresses self)) (\<lambda>d.
     case d of
       DialTimeout \<Rightarrow> throw (Network (NetTimeout (agent_get_connect_to_proxy_timeout (config env))))
     | DialError e \<Rightarrow> throw (Network (TcpConnect e))
     | Dialed nodelay l \<Rightarrow>
         (case nodelay of
            Some e \<Rightarrow> throw (Network (PropertyModification e))
          | None \<Rightarrow>
              bnd (open_link l) (\<lambda>i.
              bnd (uuid_new_v4 env) (\<lambda>uuid.
              ret \<lparr>connection_id = uuid, link = i\<rparr>))))"

text \<open>\<open>send\<close>, \<open>next\<close> and \<open>close\<close> on a connection; \<open>send\<close> errs as its \<open>link_fault\<close> says.\<close>

definition update_link :: "nat \<Rightarrow> (proxy_link \<Rightarrow> proxy_link) \<Rightarrow> agent_world \<Rightarrow> agent_world" where
  "update_link i f w = w\<lparr>links := (links w)[i := f (links w ! i)]\<rparr>"

definition proxy_send :: "ProxyConnection \<Rightarrow> PpaassAgentMessage \<Rightarrow> (CommonError, unit) agent" where
  "proxy_send c m = (\<lambda>w.
     case link_fault (links w ! link c) of
       Some e \<Rightarrow> throw e w
     | None \<Rightarrow> ret () (update_link (link c) (\<lambda>l. l\<lparr>link_out := link_out l @ [m]\<rparr>) w))"

definition proxy_next :: "ProxyConnection \<Rightarrow> ('e, (CommonError + PpaassProxyMessage) option) agent" where
  "proxy_next c = (\<lambda>w.
     case link_in (links w ! link c) of
       [] \<Rightarrow> ret None w
     | x # xs \<Rightarrow> ret (Some x) (update_link (link c) (\<lambda>l. l\<lparr>link_in := xs\<rparr>) w))"

definition proxy_close :: "ProxyConnection \<Rightarrow> ('e, unit) agent" where
  "proxy_close c = (\<lambda>w. ret () (update_link (link c) (\<lambda>l. l\<lparr>link_closed := True\<rparr>) w))"

named_theorems agent_net_defs \<open>the effects of an agent task\<close>

lemmas agent_net_unfold [agent_net_defs] =
  uuid_new_v4_def random_32_bytes_def client_next_def client_send_def tcp_connect_def open_link_def
  create_connection_def update_link_def proxy_send_def proxy_next_def proxy_close_def

end
