(* ===== verification/SocksMessage.thy ===== *)
theory SocksMessage
  imports Address Utf8
begin

text \<open>
  The messages of SOCKS 5, \<open>agent/src/transport/socks/message\<close>: authentication methods,
  commands and their results, the address format with its parser, and the UDP packet.
\<close>

section \<open>Authentication methods\<close>

datatype Socks5AuthMethod =
    NoAuthenticationRequired
  | GssApi
  | UsernameAndPassword
  | IanaAssigned
  | ReservedForPrivateMethods
  | NoAcceptableMethods

definition auth_method_of_u8 :: "byte \<Rightarrow> Socks5AuthMethod" where
  "auth_method_of_u8 v =
     (if v = 0 then NoAuthenticationRequired
      else if v = 1 then GssApi
      else if v = 2 then UsernameAndPassword
      else if v = 3 then IanaAssigned
      else if v = 8 then ReservedForPrivateMethods
      else if v = 16 then NoAcceptableMethods
      else NoAuthenticationRequired)"

fun u8_of_auth_method :: "Socks5AuthMethod \<Rightarrow> byte" where
  "u8_of_auth_method NoAuthenticationRequired = 0"
| "u8_of_auth_method GssApi = 1"
| "u8_of_auth_method UsernameAndPassword = 2"
| "u8_of_auth_method IanaAssigned = 3"
| "u8_of_auth_method ReservedForPrivateMethods = 8"
| "u8_of_auth_method NoAcceptableMethods = 16"

lemma auth_method_roundtrip [simp]: "auth_method_of_u8 (u8_of_auth_method m) = m"
  by (cases m) (simp_all add: auth_method_of_u8_def)

record Socks5AuthCommand =
  methods :: "Socks5AuthMethod list"

record Socks5AuthCommandResult =
  acr_method :: Socks5AuthMethod

section \<open>Commands and results\<close>

datatype Socks5InitCommandType =
    Connect
  | Bind
  | UdpAssociate

definition init_command_type_of_u8 :: "byte \<Rightarrow> Socks5DecodeError + Socks5InitCommandType" where
  "init_command_type_of_u8 v =
     (if v = 1 then Inr Connect
      else if v = 2 then Inr Bind
      else if v = 3 then Inr UdpAssociate
      else Inl (InvalidInitCommandType v))"

datatype Socks5InitCommandResultStatus =
    Succeeded
  | Failure
  | ConnectionNotAllowedByRuleSet
  | NetworkUnReachable
  | HostUnReachable
  | ConnectionRefused
  | TtlExpired
  | CommandNotSupported
  | AddressTypeNotSupported
  | Unassigned

definition result_status_of_u8 :: "byte \<Rightarrow> Socks5DecodeError + Socks5InitCommandResultStatus" where
  "result_status_of_u8 v =
     (if v = 0 then Inr Succeeded
      else if v = 1 then Inr Failure
      else if v = 2 then Inr ConnectionNotAllowedByRuleSet
      else if v = 3 then Inr NetworkUnReachable
      else if v = 4 then Inr HostUnReachable
      else if v = 5 then Inr ConnectionRefused
      else if v = 6 then Inr TtlExpired
      else if v = 7 then Inr CommandNotSupported
      else if v = 8 then Inr AddressTypeNotSupported
      else if v = 9 then Inr Unassigned
      else Inl (InvalidInitCommandResultStatus v))"

fun u8_of_result_status :: "Socks5InitCommandResultStatus \<Rightarrow> byte" where
  "u8_of_result_status Succeeded = 0"
| "u8_of_result_status Failure = 1"
| "u8_of_result_status ConnectionNotAllowedByRuleSet = 2"
| "u8_of_result_status NetworkUnReachable = 3"
| "u8_of_result_status HostUnReachable = 4"
| "u8_of_result_status ConnectionRefused = 5"
| "u8_of_result_status TtlExpired = 6"
| "u8_of_result_status CommandNotSupported = 7"
| "u8_of_result_status AddressTypeNotSupported = 8"
| "u8_of_result_status Unassigned = 9"

lemma result_status_roundtrip [simp]: "result_status_of_u8 (u8_of_result_status s) = Inr s"
  by (cases s) (simp_all add: result_status_of_u8_def)

section \<open>Addresses\<close>

datatype Socks5Address =
    SocksIp SocketAddr
  | SocksDomain string u16

record Socks5InitCommand =
  request_type :: Socks5InitCommandType
  ic_dst_address :: Socks5Address

record Socks5InitCommandResult =
  icr_status :: Socks5InitCommandResultStatus
  bind_address :: "Socks5Address option"

definition IPV4_FLAG :: byte where "IPV4_FLAG = 1"
definition IPV6_FLAG :: byte where "IPV6_FLAG = 4"
definition DOMAIN_FLAG :: byte where "DOMAIN_FLAG = 3"

text \<open>A guard on the bytes left, with the source's error text.\<close>

definition require_remaining :: "nat \<Rightarrow> (bytes, ParseError, 'a) rust \<Rightarrow> (bytes, ParseError, 'a) rust" where
  "require_remaining n m = (\<lambda>input.
     if length input < n
     then throw (InputExhausted (''Input bytes exhausted, remaining: '' @ dec (length input)
            @ '', require: '' @ dec n)) input
     else m input)"

definition parse_v4 :: "(bytes, ParseError, Socks5Address) rust" where
  "parse_v4 = require_remaining 6 (
     bnd get_u8 (\<lambda>a. bnd get_u8 (\<lambda>b. bnd get_u8 (\<lambda>c. bnd get_u8 (\<lambda>d.
     bnd get_u16 (\<lambda>port. ret (SocksIp (V4 (Ipv4Addr a b c d) port))))))))"

definition parse_v6 :: "(bytes, ParseError, Socks5Address) rust" where
  "parse_v6 = require_remaining 18 (
     bnd get_u16 (\<lambda>a. bnd get_u16 (\<lambda>b. bnd get_u16 (\<lambda>c. bnd get_u16 (\<lambda>d.
     bnd get_u16 (\<lambda>e. bnd get_u16 (\<lambda>f. bnd get_u16 (\<lambda>g. bnd get_u16 (\<lambda>h.
     bnd get_u16 (\<lambda>port. ret (SocksIp (V6 (Ipv6Addr a b c d e f g h) port 0 0))))))))))))"

definition domain_name_of :: "bytes \<Rightarrow> string" where
  "domain_name_of domain_name_bytes =
     (let v = text_of_bytes (utf8_lossy domain_name_bytes)
      in if v = ''0'' then ''127.0.0.1'' else v)"

definition parse_domain :: "(bytes, ParseError, Socks5Address) rust" where
  "parse_domain = require_remaining 1 (
     bnd get_u8 (\<lambda>len. let domain_name_length = unat len in
     require_remaining (domain_name_length + 2) (
     bnd (split_to domain_name_length) (\<lambda>domain_name_bytes.
     bnd get_u16 (\<lambda>port. ret (SocksDomain (domain_name_of domain_name_bytes) port))))))"

definition socks_address_parse :: "(bytes, ParseError, Socks5Address) rust" where
  "socks_address_parse = (\<lambda>input.
     if input = [] then throw (InputExhausted ''Input bytes exhausted, remaining: 0'') input
     else bnd get_u8 (\<lambda>address_type.
       if address_type = IPV4_FLAG then parse_v4
       else if address_type = IPV6_FLAG then parse_v6
       else if address_type = DOMAIN_FLAG then parse_domain
       else throw (InvalidFormat (''Invalid address type: '' @ dec (unat address_type)))) input)"

fun socks_address_bytes :: "Socks5Address \<Rightarrow> bytes" where
  "socks_address_bytes (SocksIp (V4 ip port)) =
     put_u16 port (put_slice (v4_octets ip) (put_u8 IPV4_FLAG []))"
| "socks_address_bytes (SocksIp (V6 ip port fl sc)) =
     put_u16 port (put_slice (v6_octets ip) (put_u8 IPV6_FLAG []))"
| "socks_address_bytes (SocksDomain addr_content port) =
     put_u16 port (put_slice (as_bytes addr_content)
       (put_u8 (word_of_nat (length addr_content)) (put_u8 DOMAIN_FLAG [])))"

fun unified_of_socks :: "Socks5Address \<Rightarrow> PpaassUnifiedAddress" where
  "unified_of_socks (SocksIp socket_addr) = UnifiedIp socket_addr"
| "unified_of_socks (SocksDomain host port) = UnifiedDomain host port"

fun socks_of_unified :: "PpaassUnifiedAddress \<Rightarrow> ConversionError + Socks5Address" where
  "socks_of_unified (UnifiedIp socket_addr) = Inr (SocksIp socket_addr)"
| "socks_of_unified (UnifiedDomain host port) = Inr (SocksDomain host port)"

definition socks_of_socket_addr :: "SocketAddr \<Rightarrow> Socks5Address" where
  "socks_of_socket_addr socket_addr = SocksIp socket_addr"

text \<open>\<open>ToString\<close>.\<close>

fun socks_to_string :: "Socks5Address \<Rightarrow> string" where
  "socks_to_string (SocksIp socket_addr) = show_socket_addr socket_addr"
| "socks_to_string (SocksDomain host port) = host @ '':'' @ dec (unat port)"

text \<open>\<open>TryFrom<Socks5Address> for SocketAddr\<close>: the first address the name resolves to.\<close>

fun socket_addr_of_socks :: "resolver \<Rightarrow> Socks5Address \<Rightarrow> ConversionError + SocketAddr" where
  "socket_addr_of_socks resolve (SocksIp socket_address) = Inr socket_address"
| "socket_addr_of_socks resolve (SocksDomain host port) =
     (let address_string = host @ '':'' @ dec (unat port) in
      case resolve address_string of
        Inl e \<Rightarrow> Inl (ConvIo e)
      | Inr [] \<Rightarrow> Inl (ConvFormat address_string)
      | Inr (a # _) \<Rightarrow> Inr a)"

lemma socks_of_unified_of_socks [simp]: "socks_of_unified (unified_of_socks a) = Inr a"
  by (cases a) simp_all

section \<open>UDP packets\<close>

record Socks5UdpDataPacket =
  frag :: byte
  udp_address :: Socks5Address
  udp_data :: bytes

definition no_remaining :: Socks5DecodeError where
  "no_remaining = NoRemaining ''No remaining to convert socks5 udp packet''"

definition udp_packet_of_bytes :: "bytes \<Rightarrow> Socks5DecodeError failure + Socks5UdpDataPacket" where
  "udp_packet_of_bytes = (\<lambda>src. fst ((\<lambda>src.
     if src = [] then throw no_remaining src
     else if length src < 2 then throw no_remaining src
     else bnd get_u16 (\<lambda>_ src.
       if length src < 1 then throw no_remaining src
       else bnd get_u8 (\<lambda>frag.
         bnd (map_err Parse socks_address_parse) (\<lambda>address src.
         ret \<lparr>frag = frag, udp_address = address, udp_data = src\<rparr> src)) src) src) src))"

definition bytes_of_udp_packet :: "Socks5UdpDataPacket \<Rightarrow> bytes" where
  "bytes_of_udp_packet packet =
     put_slice (udp_data packet) (put_slice (socks_address_bytes (udp_address packet))
       (put_u8 (frag packet) (put_u16 0 [])))"

section \<open>Facts about the parser\<close>

named_theorems socks_parse_defs \<open>the stages of the address parser\<close>

lemmas socks_parse_unfold [socks_parse_defs] =
  socks_address_parse_def parse_v4_def parse_v6_def parse_domain_def require_remaining_def
  IPV4_FLAG_def IPV6_FLAG_def DOMAIN_FLAG_def

lemma get_u16_2 [simp]: "get_u16 (a # b # bs) = (Inr (word_of_nat (unat a * 256 + unat b)), bs)"
  by (simp add: get_u16_def be_nat_def)

lemma require_remaining_ok [simp]: "n \<le> length input \<Longrightarrow> require_remaining n m input = m input"
  by (simp add: require_remaining_def)

text \<open>The three shapes a successful parse reads.\<close>

lemma socks_address_parse_v4 [simp]:
  "socks_address_parse (1 # a # b # c # d # be_bytes 2 (unat port) @ bs) =
    (Inr (SocksIp (V4 (Ipv4Addr a b c d) port)), bs)"
  by (simp add: socks_parse_defs rust_defs)

lemma v6_octets_append:
  "v6_octets (Ipv6Addr a b c d e f g h) @ bs =
     be_bytes 2 (unat a) @ be_bytes 2 (unat b) @ be_bytes 2 (unat c) @ be_bytes 2 (unat d) @
     be_bytes 2 (unat e) @ be_bytes 2 (unat f) @ be_bytes 2 (unat g) @ be_bytes 2 (unat h) @ bs"
  by (simp add: v6_octets_def)

lemma socks_address_parse_v6 [simp]:
  "socks_address_parse (4 # v6_octets ip @ be_bytes 2 (unat port) @ bs) =
    (Inr (SocksIp (V6 ip port 0 0)), bs)"
proof (cases ip)
  case (Ipv6Addr a b c d e f g h)
  have "socks_address_parse (4 # v6_octets ip @ be_bytes 2 (unat port) @ bs) =
      parse_v6 (v6_octets ip @ be_bytes 2 (unat port) @ bs)"
    by (simp add: socks_address_parse_def rust_defs IPV4_FLAG_def IPV6_FLAG_def)
  also have "\<dots> = (Inr (SocksIp (V6 ip port 0 0)), bs)"
    unfolding Ipv6Addr v6_octets_append by (simp add: parse_v6_def rust_defs)
  finally show ?thesis .
qed

lemma socks_address_parse_domain [simp]:
  assumes "unat len = length name"
  shows "socks_address_parse (3 # len # name @ be_bytes 2 (unat port) @ bs) =
    (Inr (SocksDomain (domain_name_of name) port), bs)"
  using assms by (simp add: socks_parse_defs rust_defs Let_def)

section \<open>What the wire format keeps\<close>

text \<open>Flow label and scope of an IPv6 address are not sent, and the host \<open>"0"\<close> is read as localhost.\<close>

fun socks_canonical :: "Socks5Address \<Rightarrow> Socks5Address" where
  "socks_canonical (SocksIp (V4 ip port)) = SocksIp (V4 ip port)"
| "socks_canonical (SocksIp (V6 ip port fl sc)) = SocksIp (V6 ip port 0 0)"
| "socks_canonical (SocksDomain host port) =
     SocksDomain (if host = ''0'' then ''127.0.0.1'' else host) port"

text \<open>A name the length byte can describe; \<open>utf8_valid\<close> is what Rust guarantees of any \<open>String\<close>.\<close>

fun socks_encodable :: "Socks5Address \<Rightarrow> bool" where
  "socks_encodable (SocksIp a) = True"
| "socks_encodable (SocksDomain host port) \<longleftrightarrow> length host < 256 \<and> utf8_valid (as_bytes host)"

lemma domain_name_of_valid:
  "utf8_valid (as_bytes host) \<Longrightarrow>
    domain_name_of (as_bytes host) = (if host = ''0'' then ''127.0.0.1'' else host)"
  by (simp add: domain_name_of_def utf8_lossy_id)

lemma socks_address_roundtrip_aux:
  assumes "socks_encodable a"
  shows "socks_address_parse (socks_address_bytes a @ rest) = (Inr (socks_canonical a), rest)"
proof (cases a)
  case (SocksDomain host port)
  with assms have h: "length host < 256" "utf8_valid (as_bytes host)"
    by simp_all
  have "unat (word_of_nat (length host) :: byte) = length (as_bytes host)"
    using h(1) by (simp add: unat_of_nat)
  then show ?thesis
    using h(2) SocksDomain by (simp add: buf_defs DOMAIN_FLAG_def domain_name_of_valid)
next
  case (SocksIp s)
  show ?thesis
  proof (cases s)
    case (V4 ip port)
    with SocksIp show ?thesis
      by (cases ip) (simp add: buf_defs IPV4_FLAG_def)
  next
    case (V6 ip port fl sc)
    with SocksIp show ?thesis
      by (simp add: buf_defs IPV6_FLAG_def)
  qed
qed

text \<open>C28: An address written into a reply or a UDP packet is read back as the same address (IPv6 flow label and scope id cleared, host 0 read as 127.0.0.1), and exactly its bytes are consumed.\<close>

theorem socks_address_roundtrip:
  assumes "socks_encodable a"
  shows "socks_address_parse (socks_address_bytes a @ rest) = (Inr (socks_canonical a), rest)"
  using assms by (rule socks_address_roundtrip_aux)

lemma utf8_valid_domain_name: "utf8_valid (as_bytes (domain_name_of name))"
proof -
  have "utf8_valid (as_bytes ''127.0.0.1'')"
    by (rule utf8_valid_ascii) (auto simp: as_bytes_def byte_of_char_def)
  then show ?thesis
    by (simp add: domain_name_of_def Let_def utf8_valid_lossy)
qed

text \<open>The parser only consumes, and never panics.\<close>

lemma consumes_require [consumes_rules]: "consumes m \<Longrightarrow> consumes (require_remaining n m)"
  by (auto simp: consumes_def require_remaining_def throw_def)

lemma consumes_if [consumes_rules]:
  "consumes m \<Longrightarrow> consumes m' \<Longrightarrow> consumes (if b then m else m')"
  by simp

lemma consumes_socks_address_parse [consumes_rules]: "consumes socks_address_parse"
proof -
  have body: "socks_address_parse input = (if input = [] then throw (InputExhausted ''Input bytes exhausted, remaining: 0'') input
      else bnd get_u8 (\<lambda>address_type.
       if address_type = IPV4_FLAG then parse_v4
       else if address_type = IPV6_FLAG then parse_v6
       else if address_type = DOMAIN_FLAG then parse_domain
       else throw (InvalidFormat (''Invalid address type: '' @ dec (unat address_type)))) input)" for input
    by (simp add: socks_address_parse_def)
  have v4: "consumes parse_v4" and v6: "consumes parse_v6"
    unfolding parse_v4_def parse_v6_def by (intro consumes_rules)+
  have dom: "consumes parse_domain"
    unfolding parse_domain_def Let_def by (intro consumes_rules)
  have "consumes (bnd get_u8 (\<lambda>address_type.
       if address_type = IPV4_FLAG then parse_v4
       else if address_type = IPV6_FLAG then parse_v6
       else if address_type = DOMAIN_FLAG then parse_domain
       else throw (InvalidFormat (''Invalid address type: '' @ dec (unat address_type)))))"
    by (intro consumes_rules v4 v6 dom)
  then show ?thesis
    by (auto simp: consumes_def body throw_def)
qed

lemma socks_address_parse_no_panic: "fst (socks_address_parse input) \<noteq> Inl Panic"
proof -
  have "fst (parse_v4 src) \<noteq> Inl Panic" "fst (parse_v6 src) \<noteq> Inl Panic"
    "fst (parse_domain src) \<noteq> Inl Panic" for src
    by (auto simp: socks_parse_defs rust_defs buf_defs Let_def split: list.split)
  then show ?thesis
    by (cases input) (auto simp: socks_address_parse_def rust_defs)
qed

text \<open>What the bytes of a parsed address were.\<close>

definition socks_wire_form :: "Socks5Address \<Rightarrow> bytes \<Rightarrow> bool" where
  "socks_wire_form a used \<longleftrightarrow>
     (case a of
        SocksIp s \<Rightarrow> used = socks_address_bytes (SocksIp s) \<and> socks_canonical a = a
      | SocksDomain host port \<Rightarrow> \<exists>len name. length name = unat (len :: byte) \<and> host = domain_name_of name
          \<and> used = DOMAIN_FLAG # len # name @ be_bytes 2 (unat port))"

lemma require_remaining_Inr_iff:
  "require_remaining n m src = (Inr a, rest) \<longleftrightarrow> n \<le> length src \<and> m src = (Inr a, rest)"
  by (auto simp: require_remaining_def throw_def)

lemmas read_Inr_iffs = bnd_Inr_iff get_u8_Inr_iff get_u16_Inr_iff split_to_Inr_iff
  require_remaining_Inr_iff

lemma ex_Ipv4Addr: "(\<exists>ip. P ip) \<longleftrightarrow> (\<exists>a b c d. P (Ipv4Addr a b c d))"
  by (metis Ipv4Addr.exhaust)

lemma ex_Ipv6Addr: "(\<exists>ip. P ip) \<longleftrightarrow> (\<exists>a b c d e f g h. P (Ipv6Addr a b c d e f g h))"
  by (metis Ipv6Addr.exhaust)

lemma parse_v4_form: "parse_v4 src = (Inr a, rest) \<Longrightarrow>
    \<exists>ip port. a = SocksIp (V4 ip port) \<and> src = v4_octets ip @ be_bytes 2 (unat port) @ rest"
  unfolding parse_v4_def
  by (auto simp: read_Inr_iffs ret_def ex_Ipv4Addr)

lemma parse_v6_form: "parse_v6 src = (Inr a, rest) \<Longrightarrow>
    \<exists>ip port. a = SocksIp (V6 ip port 0 0) \<and> src = v6_octets ip @ be_bytes 2 (unat port) @ rest"
  unfolding parse_v6_def
  by (auto simp: read_Inr_iffs ret_def v6_octets_append ex_Ipv6Addr)

lemma parse_domain_form: "parse_domain src = (Inr a, rest) \<Longrightarrow>
    \<exists>len name port. a = SocksDomain (domain_name_of name) port \<and> length name = unat len
      \<and> src = len # name @ be_bytes 2 (unat port) @ rest"
  unfolding parse_domain_def Let_def
  by (auto simp: read_Inr_iffs ret_def)

lemma socks_address_parse_Inr:
  assumes "socks_address_parse input = (Inr a, rest)"
  shows "\<exists>used. input = used @ rest \<and> socks_wire_form a used"
proof -
  obtain t src where input: "input = t # src"
    using assms by (cases input) (auto simp: socks_address_parse_def throw_def)
  with assms consider
      "t = IPV4_FLAG" "parse_v4 src = (Inr a, rest)"
    | "t = IPV6_FLAG" "parse_v6 src = (Inr a, rest)"
    | "t = DOMAIN_FLAG" "parse_domain src = (Inr a, rest)"
    by (auto simp: socks_address_parse_def bnd_def throw_def split: if_splits)
  then show ?thesis
    by cases (auto dest!: parse_v4_form parse_v6_form parse_domain_form
        simp: input socks_wire_form_def buf_defs)
qed

lemma socks_wire_form_parse:
  assumes "socks_wire_form a used"
  shows "socks_address_parse (used @ rest) = (Inr a, rest)"
proof (cases a)
  case (SocksIp s)
  with assms have "used = socks_address_bytes a" "socks_canonical a = a" "socks_encodable a"
    by (simp_all add: socks_wire_form_def)
  then show ?thesis
    using socks_address_roundtrip_aux [of a rest] by simp
next
  case (SocksDomain host port)
  with assms show ?thesis
    by (auto simp: socks_wire_form_def DOMAIN_FLAG_def)
qed

text \<open>A request whose address is still incomplete is an error, not a wait.\<close>

lemma socks_address_parse_prefix:
  assumes form: "socks_wire_form a (p @ q)" and "q \<noteq> []"
  shows "\<exists>msg rest. socks_address_parse p = (Inl (Err (InputExhausted msg)), rest)"
proof (cases p)
  case Nil
  then show ?thesis
    by (simp add: socks_address_parse_def throw_def)
next
  case (Cons t p')
  show ?thesis
  proof (cases a)
    case (SocksDomain host port)
    with form Cons obtain len name where
      t: "t = DOMAIN_FLAG" and p': "p' @ q = len # name @ be_bytes 2 (unat port)"
      and len: "length name = unat len"
      by (auto simp: socks_wire_form_def)
    show ?thesis
    proof (cases p')
      case Nil
      with Cons t show ?thesis
        by (simp add: socks_parse_defs rust_defs)
    next
      case (Cons l p'')
      from p' Cons have "l = len" "p'' @ q = name @ be_bytes 2 (unat port)"
        by simp_all
      moreover from this len have "length p'' + length q = unat len + 2"
        by (metis length_append length_be_bytes)
      ultimately have "length p'' + length q = unat l + 2"
        by simp
      with \<open>q \<noteq> []\<close> have "length p'' < unat l + 2"
        by (cases q) simp_all
      with \<open>p = t # p'\<close> Cons t show ?thesis
        by (simp add: socks_parse_defs rust_defs Let_def)
    qed
  next
    case (SocksIp s)
    show ?thesis
    proof (cases s)
      case (V4 ip port)
      with form SocksIp Cons have "t = IPV4_FLAG" "p' @ q = v4_octets ip @ be_bytes 2 (unat port)"
        by (simp_all add: socks_wire_form_def buf_defs)
      moreover have "length p' < 6"
        using arg_cong [OF calculation(2), of length] \<open>q \<noteq> []\<close> by (cases ip; cases q) simp_all
      ultimately show ?thesis
        using Cons by (simp add: socks_parse_defs rust_defs)
    next
      case (V6 ip port fl sc)
      with form SocksIp Cons have "t = IPV6_FLAG" "p' @ q = v6_octets ip @ be_bytes 2 (unat port)"
        by (simp_all add: socks_wire_form_def buf_defs)
      moreover have "length p' < 18"
        using arg_cong [OF calculation(2), of length] \<open>q \<noteq> []\<close>
        by (cases ip; cases q) (simp_all add: v6_octets_def)
      ultimately show ?thesis
        using Cons by (simp add: socks_parse_defs rust_defs)
    qed
  qed
qed

definition socks_text_ok :: "Socks5Address \<Rightarrow> bool" where
  "socks_text_ok a \<longleftrightarrow> (case a of SocksIp s \<Rightarrow> True | SocksDomain host port \<Rightarrow> utf8_valid (as_bytes host))"

lemma socks_address_parse_total_aux:
  "case socks_address_parse input of (r, rest) \<Rightarrow>
     \<exists>used. input = used @ rest \<and>
       (case r of Inl f \<Rightarrow> \<exists>e. f = Err e | Inr a \<Rightarrow> socks_wire_form a used \<and> socks_text_ok a)"
proof (cases "socks_address_parse input")
  case (Pair r rest)
  show ?thesis
  proof (cases r)
    case (Inl f)
    have "f \<noteq> Panic"
      using socks_address_parse_no_panic [of input] Pair Inl by auto
    moreover obtain used where "input = used @ snd (socks_address_parse input)"
      using consumes_socks_address_parse by (auto simp: consumes_def)
    ultimately show ?thesis
      using Pair Inl by (cases f) auto
  next
    case (Inr a)
    then obtain used where "input = used @ rest" "socks_wire_form a used"
      using Pair socks_address_parse_Inr by blast
    moreover from this have "socks_text_ok a"
      by (auto simp: socks_wire_form_def socks_text_ok_def utf8_valid_domain_name
          split: Socks5Address.splits)
    ultimately show ?thesis
      using Pair Inr by auto
  qed
qed

text \<open>C29: On any input the address parser returns an address or an error, never panics, and leaves a suffix of the input; on success the bytes it consumed are a wire form of the address it returns (for an IP address exactly the bytes the code itself would write), and a host name is valid UTF-8.\<close>

theorem socks_address_parse_total:
  "case socks_address_parse input of (r, rest) \<Rightarrow>
     \<exists>used. input = used @ rest \<and>
       (case r of Inl f \<Rightarrow> \<exists>e. f = Err e | Inr a \<Rightarrow> socks_wire_form a used \<and> socks_text_ok a)"
  by (rule socks_address_parse_total_aux)

section \<open>Names longer than the length byte\<close>

lemma utf8_lossy_ff: "utf8_lossy (replicate n 0xFF) = concat (replicate n replacement_char)"
proof (induction n)
  case (Suc n)
  then show ?case
    by (subst utf8_lossy.simps)
      (simp add: utf8_step_def safe_get_def utf8_char_width_def)
qed simp

lemma length_domain_name_ff:
  "length (domain_name_of (replicate (Suc n) 0xFF)) = 3 * Suc n"
proof -
  have "length (text_of_bytes (utf8_lossy (replicate (Suc n) 0xFF))) = 3 * Suc n"
    by (simp add: utf8_lossy_ff text_of_bytes_def length_concat replacement_char_def
        sum_list_replicate del: replicate_Suc)
  moreover from this have "text_of_bytes (utf8_lossy (replicate (Suc n) 0xFF)) \<noteq> ''0''"
    by auto
  ultimately show ?thesis
    by (simp add: domain_name_of_def Let_def del: replicate_Suc)
qed

lemma socks_long_name_cut:
  "\<exists>a rest. socks_address_parse (socks_address_bytes (SocksDomain host port)) = (Inr a, rest)
     \<and> length rest = 256 * (length host div 256)"
proof -
  let ?k = "length host mod 256"
  let ?b = "as_bytes host @ be_bytes 2 (unat port)"
  have len: "unat (word_of_nat (length host) :: byte) = ?k"
    by (simp add: unat_of_nat)
  have k: "?k + 2 \<le> length ?b"
    by simp
  have "length ?b = 256 * (length host div 256) + ?k + 2"
    unfolding length_append length_as_bytes length_be_bytes mult_div_mod_eq ..
  then have l: "length (drop 2 (drop ?k ?b)) = 256 * (length host div 256)"
    unfolding length_drop by (simp only: diff_diff_left diff_add_inverse2 add.assoc)
  have "parse_domain (word_of_nat (length host) # ?b) =
      (Inr (SocksDomain (domain_name_of (take ?k ?b)) (word_of_nat (be_nat (take 2 (drop ?k ?b))))),
       drop 2 (drop ?k ?b))"
    using k mod_less_eq_dividend [of "length host" 256]
    by (simp add: not_less [symmetric] parse_domain_def require_remaining_def bnd_def ret_def split_to_def
        get_u16_def Let_def len del: drop_drop)
  with l show ?thesis
    by (simp add: socks_address_parse_def bnd_def DOMAIN_FLAG_def IPV4_FLAG_def IPV6_FLAG_def buf_defs del: drop_drop)
qed

text \<open>C40: A request may name a host by 86 or more bytes that are not UTF-8; parsing replaces each by a three-byte character, and the name is then too long for the length byte of the reply that echoes it: the reply's reader stops inside the name and leaves bytes behind.\<close>

theorem socks_lossy_name_desync:
  assumes "86 \<le> n" and "n < 256"
  shows "\<exists>host a rest.
    socks_address_parse (DOMAIN_FLAG # word_of_nat n # replicate n 0xFF @ be_bytes 2 (unat port))
      = (Inr (SocksDomain host port), [])
    \<and> socks_address_parse (socks_address_bytes (SocksDomain host port)) = (Inr a, rest) \<and> rest \<noteq> []"
proof -
  obtain k where k: "n = Suc k"
    using assms(1) by (cases n) simp_all
  define host where "host = domain_name_of (replicate n 0xFF)"
  have len: "length host = 3 * n"
    by (simp only: host_def k length_domain_name_ff)
  have "unat (word_of_nat n :: byte) = length (replicate n (0xFF :: byte))"
    using assms(2) by (simp add: unat_of_nat)
  then have "socks_address_parse (DOMAIN_FLAG # word_of_nat n # replicate n 0xFF @ be_bytes 2 (unat port))
      = (Inr (SocksDomain host port), [])"
    using socks_address_parse_domain [of "word_of_nat n" "replicate n 0xFF" port "[]"]
    by (simp add: DOMAIN_FLAG_def host_def)
  moreover have "0 < length host div 256"
    using assms(1) by (simp add: len div_greater_zero_iff)
  moreover obtain a rest where
    "socks_address_parse (socks_address_bytes (SocksDomain host port)) = (Inr a, rest)"
    "length rest = 256 * (length host div 256)"
    using socks_long_name_cut by blast
  ultimately show ?thesis
    by fastforce
qed

section \<open>UDP packets\<close>

lemma udp_packet_of_bytes_eq:
  "udp_packet_of_bytes (a # b # f # src) =
     (case socks_address_parse src of
        (Inl (Err e), _) \<Rightarrow> Inl (Err (Parse e))
      | (Inl Panic, _) \<Rightarrow> Inl Panic
      | (Inr address, rest) \<Rightarrow> Inr \<lparr>frag = f, udp_address = address, udp_data = rest\<rparr>)"
  by (auto simp: udp_packet_of_bytes_def rust_defs split: prod.splits sum.splits failure.splits)

lemma udp_packet_of_short: "length src < 3 \<Longrightarrow> udp_packet_of_bytes src = Inl (Err no_remaining)"
  by (auto simp: udp_packet_of_bytes_def rust_defs get_u16_def)

lemma put_u16_0: "put_u16 0 [] = [0, 0]"
  by (simp add: put_u16_def numeral_2_eq_2)

text \<open>C39: A SOCKS UDP packet survives serialisation and parsing: fragment number, address (in the form the wire keeps) and data.\<close>

theorem udp_packet_roundtrip:
  assumes "socks_encodable (udp_address p)"
  shows "udp_packet_of_bytes (bytes_of_udp_packet p) =
    Inr (p\<lparr>udp_address := socks_canonical (udp_address p)\<rparr>)"
  using socks_address_roundtrip_aux [OF assms, of "udp_data p"]
  by (simp add: bytes_of_udp_packet_def put_u16_0 put_u8_def put_slice_def udp_packet_of_bytes_eq)

text \<open>Any datagram of a client parses to a packet or to an error, never to a panic; the packet's fragment number, address and data are then the datagram's bytes in order, after two reserved bytes that are ignored.\<close>

lemma udp_packet_total:
  "case udp_packet_of_bytes src of
     Inl f \<Rightarrow> \<exists>e. f = Err e
   | Inr p \<Rightarrow> \<exists>r1 r2 used. src = r1 # r2 # frag p # used @ udp_data p
       \<and> socks_wire_form (udp_address p) used \<and> socks_text_ok (udp_address p)"
proof (cases "length src < 3")
  case True
  then show ?thesis
    by (simp add: udp_packet_of_short)
next
  case False
  then obtain a b f src' where src: "src = a # b # f # src'"
    by (cases src; cases "tl src"; cases "tl (tl src)") auto
  show ?thesis
    using socks_address_parse_total_aux [of src']
    by (auto simp: src udp_packet_of_bytes_eq split: prod.splits sum.splits failure.splits)
qed

section \<open>Concrete inputs\<close>

lemma socks_address_roundtrip_witness:
  "socks_address_parse (socks_address_bytes (SocksDomain ''0'' 80) @ [7]) =
    (Inr (SocksDomain ''127.0.0.1'' 80), [7])"
proof -
  have "utf8_valid (as_bytes ''0'')"
    by (rule utf8_valid_ascii) (simp add: as_bytes_def byte_of_char_def)
  then show ?thesis
    using socks_address_roundtrip [of "SocksDomain ''0'' 80" "[7]"] by simp
qed

lemma socks_lossy_name_desync_witness:
  "\<exists>host a rest.
    socks_address_parse (DOMAIN_FLAG # 86 # replicate 86 0xFF @ be_bytes 2 80) = (Inr (SocksDomain host 80), [])
    \<and> socks_address_parse (socks_address_bytes (SocksDomain host 80)) = (Inr a, rest) \<and> rest \<noteq> []"
  using socks_lossy_name_desync [of 86 80] by simp

lemma udp_packet_roundtrip_witness:
  "udp_packet_of_bytes (bytes_of_udp_packet
      \<lparr>frag = 1, udp_address = SocksIp (V6 (Ipv6Addr 0 0 0 0 0 0 0 1) 53 9 9), udp_data = [1, 2]\<rparr>) =
    Inr \<lparr>frag = 1, udp_address = SocksIp (V6 (Ipv6Addr 0 0 0 0 0 0 0 1) 53 0 0), udp_data = [1, 2]\<rparr>"
  using udp_packet_roundtrip [of "\<lparr>frag = 1, udp_address = SocksIp (V6 (Ipv6Addr 0 0 0 0 0 0 0 1) 53 9 9),
      udp_data = [1, 2]\<rparr>"] by simp

end
