(* ===== verification/SocksCodec.thy ===== *)
theory SocksCodec
  imports SocksMessage Framing Streams
begin

text \<open>
  \<open>agent/src/transport/socks/codec.rs\<close>: the codec of the authentication exchange and the codec
  of the command exchange.  Neither keeps a state, so their states are \<open>unit\<close>.
\<close>

definition SOCKS_V5 :: byte where "SOCKS_V5 = 5"
definition SOCKS_V4 :: byte where "SOCKS_V4 = 4"

section \<open>Authentication\<close>

text \<open>\<open>(0..methods_number).for_each(|_| methods.push(... src.get_u8()))\<close>.\<close>

fun read_methods :: "nat \<Rightarrow> (bytes, Socks5DecodeError, Socks5AuthMethod list) rust" where
  "read_methods 0 = ret []"
| "read_methods (Suc n) =
     bnd get_u8 (\<lambda>b. bnd (read_methods n) (\<lambda>ms. ret (auth_method_of_u8 b # ms)))"

definition socks_auth_read :: "(bytes, Socks5DecodeError, Socks5AuthCommand option) rust" where
  "socks_auth_read = (\<lambda>src.
     if length src < 2 then ret None src
     else
       bnd get_u8 (\<lambda>version.
       if version \<noteq> SOCKS_V5 then throw (InvalidVersion version)
       else
         bnd get_u8 (\<lambda>methods_number.
         bnd (read_methods (unat methods_number)) (\<lambda>ms.
         ret (Some \<lparr>methods = ms\<rparr>)))) src)"

definition socks_auth_decode :: "(unit, Socks5DecodeError, Socks5AuthCommand) decoder" where
  "socks_auth_decode = (\<lambda>(self, src). case socks_auth_read src of (r, src') \<Rightarrow> (r, (self, src')))"

definition socks_auth_encode :: "Socks5AuthCommandResult \<Rightarrow> (bytes, Socks5EncodeError, unit) rust" where
  "socks_auth_encode item = (\<lambda>dst.
     ret () (put_u8 (u8_of_auth_method (acr_method item)) (put_u8 SOCKS_V5 dst)))"

section \<open>Commands\<close>

definition socks_init_read :: "(bytes, Socks5DecodeError, Socks5InitCommand option) rust" where
  "socks_init_read = (\<lambda>src.
     if length src < 4 then ret None src
     else
       bnd get_u8 (\<lambda>version.
       if version \<noteq> SOCKS_V5 then throw (InvalidVersion version)
       else
         bnd get_u8 (\<lambda>t.
         bnd (try_res id (init_command_type_of_u8 t)) (\<lambda>request_type.
         bnd get_u8 (\<lambda>_.
         bnd (map_err Parse socks_address_parse) (\<lambda>dst_address.
         ret (Some \<lparr>request_type = request_type, ic_dst_address = dst_address\<rparr>)))))) src)"

definition socks_init_decode :: "(unit, Socks5DecodeError, Socks5InitCommand) decoder" where
  "socks_init_decode = (\<lambda>(self, src). case socks_init_read src of (r, src') \<Rightarrow> (r, (self, src')))"

definition socks_init_encode :: "Socks5InitCommandResult \<Rightarrow> (bytes, Socks5EncodeError, unit) rust" where
  "socks_init_encode item = (\<lambda>dst.
     let dst = put_u8 0 (put_u8 (u8_of_result_status (icr_status item)) (put_u8 5 dst))
     in ret () (case bind_address item of
          None \<Rightarrow> dst
        | Some address \<Rightarrow> put_slice (socks_address_bytes address) dst))"

section \<open>What the readers do\<close>

lemma read_methods_eq:
  "read_methods n src =
     (if length src < n then (Inl Panic, [])
      else (Inr (map auth_method_of_u8 (take n src)), drop n src))"
  by (induction n arbitrary: src; case_tac src) (auto simp: rust_defs get_u8_def)

lemma socks_auth_read_eq:
  "socks_auth_read (v # n # src) =
     (if v \<noteq> SOCKS_V5 then (Inl (Err (InvalidVersion v)), n # src)
      else if length src < unat n then (Inl Panic, [])
      else (Inr (Some \<lparr>methods = map auth_method_of_u8 (take (unat n) src)\<rparr>), drop (unat n) src))"
  by (simp add: socks_auth_read_def rust_defs read_methods_eq)

lemma socks_auth_read_short [simp]: "length src < 2 \<Longrightarrow> socks_auth_read src = (Inr None, src)"
  by (simp add: socks_auth_read_def ret_def)

lemma two_bytes: "\<not> length src < 2 \<Longrightarrow> \<exists>a b src'. src = a # b # src'"
  by (cases src; cases "tl src") auto

lemma four_bytes: "\<not> length src < 4 \<Longrightarrow> \<exists>a b c d src'. src = a # b # c # d # src'"
  by (cases src; cases "tl src"; cases "tl (tl src)"; cases "tl (tl (tl src))") auto

lemma socks_init_read_short [simp]: "length src < 4 \<Longrightarrow> socks_init_read src = (Inr None, src)"
  by (simp add: socks_init_read_def ret_def)

lemma socks_init_read_eq:
  assumes "src \<noteq> []"
  shows "socks_init_read (v # t # r # src) =
     (if v \<noteq> SOCKS_V5 then (Inl (Err (InvalidVersion v)), t # r # src)
      else case init_command_type_of_u8 t of
        Inl e \<Rightarrow> (Inl (Err e), r # src)
      | Inr ct \<Rightarrow>
          (case socks_address_parse src of
             (Inl (Err e), rest) \<Rightarrow> (Inl (Err (Parse e)), rest)
           | (Inl Panic, rest) \<Rightarrow> (Inl Panic, rest)
           | (Inr a, rest) \<Rightarrow>
               (Inr (Some \<lparr>request_type = ct, ic_dst_address = a\<rparr>), rest)))"
  using assms
  by (auto simp: socks_init_read_def rust_defs Suc_le_eq numeral_eq_Suc
      split: sum.splits prod.splits failure.splits)

lemma init_command_type_iff:
  "init_command_type_of_u8 t = Inr ct \<longleftrightarrow>
     (t, ct) \<in> {(1, Connect), (2, Bind), (3, UdpAssociate)}"
  by (auto simp: init_command_type_of_u8_def)

lemma socks_parse_append:
  assumes "socks_address_parse src = (Inr a, rest)"
  shows "socks_address_parse (src @ suf) = (Inr a, rest @ suf)"
  using socks_address_parse_Inr [OF assms] by (auto simp: socks_wire_form_parse)

lemma socks_wire_form_nonempty: "socks_wire_form a used \<Longrightarrow> 0 < length used"
  by (cases a rule: socks_address_bytes.cases) (auto simp: socks_wire_form_def buf_defs)

interpretation socks_auth: stream_decoder socks_auth_decode
proof
  fix self self' :: unit and src src' suf :: bytes and x
  show "socks_auth_decode (self, src @ suf) = socks_auth_decode (self', src' @ suf)"
    if "socks_auth_decode (self, src) = (Inr None, (self', src'))"
  proof (cases "length src < 2")
    case False
    then obtain v n s where "src = v # n # s"
      using two_bytes by blast
    with that show ?thesis
      by (simp add: socks_auth_decode_def socks_auth_read_eq split: if_splits)
  qed (use that in \<open>simp add: socks_auth_decode_def\<close>)
  show "socks_auth_decode (self, src @ suf) = (Inr (Some x), (self', src' @ suf))"
    if "socks_auth_decode (self, src) = (Inr (Some x), (self', src'))"
  proof (cases "length src < 2")
    case False
    then obtain v n s where "src = v # n # s"
      using two_bytes by blast
    with that show ?thesis
      by (auto simp: socks_auth_decode_def socks_auth_read_eq split: if_splits)
  qed (use that in \<open>simp add: socks_auth_decode_def\<close>)
qed

interpretation socks_init: stream_decoder socks_init_decode
proof
  fix self self' :: unit and src src' suf :: bytes and x
  show "socks_init_decode (self, src @ suf) = socks_init_decode (self', src' @ suf)"
    if "socks_init_decode (self, src) = (Inr None, (self', src'))"
  proof (cases "length src < 4")
    case False
    then obtain v t r d s where "src = v # t # r # d # s"
      using four_bytes by blast
    with that show ?thesis
      by (simp add: socks_init_decode_def socks_init_read_eq
          split: if_splits sum.splits prod.splits failure.splits)
  qed (use that in \<open>simp add: socks_init_decode_def\<close>)
  show "socks_init_decode (self, src @ suf) = (Inr (Some x), (self', src' @ suf))"
    if "socks_init_decode (self, src) = (Inr (Some x), (self', src'))"
  proof (cases "length src < 4")
    case False
    then obtain v t r d s where src: "src = v # t # r # d # s"
      using four_bytes by blast
    with that obtain ct a where
      p: "v = SOCKS_V5" "init_command_type_of_u8 t = Inr ct"
        "socks_address_parse (d # s) = (Inr a, src')"
        "x = \<lparr>request_type = ct, ic_dst_address = a\<rparr>"
      by (auto simp: socks_init_decode_def socks_init_read_eq
          split: if_splits sum.splits prod.splits failure.splits)
    then have "socks_address_parse (d # s @ suf) = (Inr a, src' @ suf)"
      using socks_parse_append [OF p(3), of suf] by simp
    with p src show ?thesis
      by (simp add: socks_init_decode_def socks_init_read_eq)
  qed (use that in \<open>simp add: socks_init_decode_def\<close>)
qed

text \<open>Both encoders append their reply and look at nothing before it.\<close>

interpretation socks_auth_encoder: stream_encoder socks_auth_encode
  by unfold_locales (simp add: socks_auth_encode_def ret_def buf_defs)

interpretation socks_init_encoder: stream_encoder socks_init_encode
  by unfold_locales (simp add: socks_init_encode_def ret_def buf_defs Let_def split: option.split)

section \<open>Properties\<close>

text \<open>C31: The authentication decoder panics exactly when the version and the number of methods have arrived but not all the methods; a greeting that the network splits there takes the connection's task down.\<close>

theorem socks_auth_decode_panics_iff:
  "fst (socks_auth_decode (u, src)) = Inl Panic \<longleftrightarrow>
     2 \<le> length src \<and> src ! 0 = SOCKS_V5 \<and> length src < 2 + unat (src ! 1)"
proof (cases "length src < 2")
  case False
  then obtain v n s where "src = v # n # s"
    using two_bytes by blast
  then show ?thesis
    by (auto simp: socks_auth_decode_def socks_auth_read_eq)
qed (simp add: socks_auth_decode_def)

text \<open>A complete greeting decodes to its methods in order, with the bytes after it untouched.\<close>

lemma socks_auth_decode_complete:
  assumes "length ms = unat n"
  shows "socks_auth_decode (u, SOCKS_V5 # n # ms @ rest) =
    (Inr (Some \<lparr>methods = map auth_method_of_u8 ms\<rparr>), (u, rest))"
  using assms by (simp add: socks_auth_decode_def socks_auth_read_eq)

text \<open>C30: The command decoder never panics; it waits exactly while fewer than four bytes are there, and it returns a command exactly when the buffer begins with version 5, a known command, a reserved byte and the wire form of an address.\<close>

theorem socks_init_decode_iff:
  "fst (socks_init_decode (u, src)) \<noteq> Inl Panic
   \<and> (fst (socks_init_decode (u, src)) = Inr None \<longleftrightarrow> length src < 4)
   \<and> (socks_init_decode (u, src) = (Inr (Some \<lparr>request_type = ct, ic_dst_address = a\<rparr>), (u, rest)) \<longleftrightarrow>
       (\<exists>t r used. src = SOCKS_V5 # t # r # used @ rest \<and> init_command_type_of_u8 t = Inr ct
          \<and> socks_wire_form a used))"
proof (cases "length src < 4")
  case True
  moreover have "\<not> (\<exists>t r used. src = SOCKS_V5 # t # r # used @ rest
      \<and> init_command_type_of_u8 t = Inr ct \<and> socks_wire_form a used)"
    using True by (auto dest: socks_wire_form_nonempty)
  ultimately show ?thesis
    by (simp add: socks_init_decode_def)
next
  case False
  then obtain v t r d s where src: "src = v # t # r # d # s"
    using four_bytes by blast
  have "fst (socks_address_parse (d # s)) \<noteq> Inl Panic"
    by (rule socks_address_parse_no_panic)
  then have "fst (socks_init_decode (u, src)) \<noteq> Inl Panic"
    "fst (socks_init_decode (u, src)) \<noteq> Inr None"
    by (auto simp: src socks_init_decode_def socks_init_read_eq
        split: sum.splits prod.splits failure.splits)
  moreover have "socks_init_decode (u, src) = (Inr (Some \<lparr>request_type = ct, ic_dst_address = a\<rparr>), (u, rest))
      \<longleftrightarrow> v = SOCKS_V5 \<and> init_command_type_of_u8 t = Inr ct \<and> socks_address_parse (d # s) = (Inr a, rest)"
    by (auto simp: src socks_init_decode_def socks_init_read_eq
        split: sum.splits prod.splits failure.splits)
  moreover have "socks_address_parse (d # s) = (Inr a, rest) \<longleftrightarrow>
      (\<exists>used. d # s = used @ rest \<and> socks_wire_form a used)"
    using socks_address_parse_Inr socks_wire_form_parse by metis
  ultimately show ?thesis
    using False by (auto simp: src)
qed

text \<open>A command whose address has not arrived completely, four bytes or more being there, is answered with an input-exhausted error, although with the remaining bytes the same request decodes to its command.\<close>

lemma socks_init_split_rejected:
  assumes "socks_wire_form a (p @ q)" and "p \<noteq> []" and "q \<noteq> []"
    and "init_command_type_of_u8 t = Inr ct"
  shows "(\<exists>msg st. socks_init_decode (u, SOCKS_V5 # t # r # p) =
      (Inl (Err (Parse (InputExhausted msg))), st))
    \<and> socks_init_decode (u, SOCKS_V5 # t # r # p @ q) =
      (Inr (Some \<lparr>request_type = ct, ic_dst_address = a\<rparr>), (u, []))"
proof -
  obtain msg rest where "socks_address_parse p = (Inl (Err (InputExhausted msg)), rest)"
    using socks_address_parse_prefix [OF assms(1,3)] by blast
  moreover have "socks_address_parse (p @ q) = (Inr a, [])"
    using socks_wire_form_parse [OF assms(1), of "[]"] by simp
  ultimately show ?thesis
    using assms(2,4) by (simp add: socks_init_decode_def socks_init_read_eq)
qed

section \<open>Concrete inputs\<close>

lemma socks_init_split_rejected_witness:
  "(\<exists>msg st. socks_init_decode ((), [SOCKS_V5, 1, 0, 1, 10, 0]) =
      (Inl (Err (Parse (InputExhausted msg))), st))
    \<and> socks_init_decode ((), [SOCKS_V5, 1, 0, 1, 10, 0, 0, 1] @ be_bytes 2 80) =
      (Inr (Some \<lparr>request_type = Connect, ic_dst_address = SocksIp (V4 (Ipv4Addr 10 0 0 1) 80)\<rparr>), ((), []))"
proof -
  have "socks_wire_form (SocksIp (V4 (Ipv4Addr 10 0 0 1) 80)) ([1, 10, 0] @ ([0, 1] @ be_bytes 2 80))"
    by (simp add: socks_wire_form_def buf_defs IPV4_FLAG_def)
  moreover have "init_command_type_of_u8 1 = Inr Connect"
    by (simp add: init_command_type_of_u8_def)
  ultimately show ?thesis
    using socks_init_split_rejected [where u = "()" and r = 0] by fastforce
qed

end
