(* ===== verification/Dispatcher.thy ===== *)
theory Dispatcher
  imports AgentNet SocksCodec
begin

text \<open>
  \<open>agent/src/transport/dispatcher.rs\<close>: the first byte of a client decides the protocol, and
  the bytes read so far are handed to that protocol's handshake.
\<close>

datatype ClientProtocol =
    Http
  | Socks5
  | Socks4

definition switch_decode :: "(unit, AgentDecoderError, ClientProtocol) decoder" where
  "switch_decode = (\<lambda>(self, src).
     if length src < 1 then ret None (self, src)
     else
       let protocol_flag = src ! 0 in
       if protocol_flag = SOCKS_V5 then ret (Some Socks5) (self, src)
       else if protocol_flag = SOCKS_V4 then ret (Some Socks4) (self, src)
       else ret (Some Http) (self, src))"

record ClientTransportHandshakeInfo =
  hi_src_address :: PpaassUnifiedAddress
  hi_initial_buf :: bytes

text \<open>The boxed \<open>dyn ClientTransportHandshake\<close>: which of the two implementations.\<close>

datatype client_transport =
    Socks5ClientTransport
  | HttpClientTransport

definition dispatch :: "SocketAddr \<Rightarrow> (AgentError, ClientTransportHandshakeInfo \<times> client_transport) agent" where
  "dispatch client_socket_address =
     bnd (map_err Decode (client_next switch_decode AgentDecIo ((), []))) (\<lambda>(client_protocol, client_message_framed).
     case client_protocol of
       None \<Rightarrow> throw (Decode UnknownProtocol)
     | Some Socks5 \<Rightarrow>
         let initial_buf = snd client_message_framed in
         ret (\<lparr>hi_src_address = unified_of_socket_addr client_socket_address,
               hi_initial_buf = initial_buf\<rparr>, Socks5ClientTransport)
     | Some Socks4 \<Rightarrow> throw (Decode UnsupportProtocol)
     | Some Http \<Rightarrow>
         let initial_buf = snd client_message_framed in
         ret (\<lparr>hi_src_address = unified_of_socket_addr client_socket_address,
               hi_initial_buf = initial_buf\<rparr>, HttpClientTransport))"

lemma switch_decode_Cons [simp]:
  "switch_decode (u, b # src) =
     (Inr (Some (if b = SOCKS_V5 then Socks5 else if b = SOCKS_V4 then Socks4 else Http)), (u, b # src))"
  by (simp add: switch_decode_def ret_def)

lemma switch_decode_Nil [simp]: "switch_decode (u, []) = (Inr None, (u, []))"
  by (simp add: switch_decode_def ret_def)

interpretation switch: stream_decoder switch_decode
proof
  fix self self' :: unit and src src' suf :: bytes and x
  show "switch_decode (self, src @ suf) = switch_decode (self', src' @ suf)"
    if "switch_decode (self, src) = (Inr None, (self', src'))"
    using that by (cases src) simp_all
  show "switch_decode (self, src @ suf) = (Inr (Some x), (self', src' @ suf))"
    if "switch_decode (self, src) = (Inr (Some x), (self', src'))"
    using that by (cases src) auto
qed

text \<open>The dispatcher decides on the first byte that arrives and consumes nothing: version 5 goes to the SOCKS handshake, version 4 is refused, anything else goes to the HTTP handshake, and the bytes already read are handed over whole.\<close>

lemma dispatch_first_byte:
  assumes "client_in w = Inr (b # bs) # cs"
  shows "dispatch addr w =
    (let info = \<lparr>hi_src_address = UnifiedIp addr, hi_initial_buf = b # bs\<rparr>; w' = w\<lparr>client_in := cs\<rparr> in
     if b = 5 then (Inr (info, Socks5ClientTransport), w')
     else if b = 4 then (Inl (Err (Decode UnsupportProtocol)), w')
     else (Inr (info, HttpClientTransport), w'))"
  using assms
  by (simp add: dispatch_def rust_defs client_next_def framed_next_def SOCKS_V5_def SOCKS_V4_def
      unified_of_socket_addr_def Let_def)

text \<open>A client that closes without a byte, and one whose connection fails first.\<close>

lemma dispatch_nothing:
  "client_in w = [] \<Longrightarrow> dispatch addr w = (Inl (Err (Decode UnknownProtocol)), w)"
  "client_in w = Inl e # cs \<Longrightarrow>
    dispatch addr w = (Inl (Err (Decode (AgentDecIo e))), w\<lparr>client_in := cs\<rparr>)"
  by (simp_all add: dispatch_def rust_defs client_next_def framed_next_def)

end
