(* ===== verification/SocksHandshake.thy ===== *)
theory SocksHandshake
  imports Dispatcher
begin

text \<open>
  \<open>agent/src/transport/socks/mod.rs\<close>: the SOCKS handshake and its three commands.  Binding a
  local UDP socket is an effect whose outcome and address are arguments.
\<close>

section \<open>What a handshake hands to the relay\<close>

record ClientTransportTcpDataRelay =
  tr_tunnel_id :: string
  tr_src_address :: PpaassUnifiedAddress
  tr_dst_address :: PpaassUnifiedAddress
  tr_proxy_connection :: ProxyConnection
  tr_init_data :: "bytes option"

record ClientTransportUdpDataRelay =
  ur_client_udp_restrict_address :: PpaassUnifiedAddress

datatype ClientTransportDataRelayInfo =
    RelayTcp ClientTransportTcpDataRelay
  | RelayUdp ClientTransportUdpDataRelay

fun show_reason :: "ProxyTcpInitFailureReason \<Rightarrow> string" where
  "show_reason CanNotConnectToDestination = ''CanNotConnectToDestination''"
| "show_reason GeneralFailure = ''GeneralFailure''"

section \<open>The commands\<close>

text \<open>\<open>unimplemented!\<close>.\<close>

definition handle_bind_command ::
  "PpaassUnifiedAddress \<Rightarrow> PpaassUnifiedAddress \<Rightarrow> (AgentError, ClientTransportDataRelayInfo) agent" where
  "handle_bind_command src_address dst_address = panic"

text \<open>\<open>UdpSocket::bind\<close> and then \<open>local_addr\<close>: either may fail.\<close>

record udp_bind =
  bind_outcome :: "io_error + unit"
  local_addr :: "io_error + SocketAddr"

definition handle_udp_associate_command ::
  "udp_bind \<Rightarrow> PpaassUnifiedAddress \<Rightarrow> (AgentError, ClientTransportDataRelayInfo) agent" where
  "handle_udp_associate_command socket client_udp_restrict_address =
     bnd (try_res AgentIo (bind_outcome socket)) (\<lambda>_.
     bnd (try_res AgentIo (local_addr socket)) (\<lambda>addr.
     let socks5_init_success_result =
           \<lparr>icr_status = Succeeded, bind_address = Some (socks_of_socket_addr addr)\<rparr> in
     bnd (map_err (\<lambda>e. Encode (EncSocks5 e))
           (client_send socks_init_encode Socks5EncodeIo socks5_init_success_result)) (\<lambda>_.
     ret (RelayUdp \<lparr>ur_client_udp_restrict_address = client_udp_restrict_address\<rparr>))))"

text \<open>The destinations that \<open>handle_connect_command\<close> refuses before anything else.\<close>

definition connect_guard :: "PpaassUnifiedAddress \<Rightarrow> AgentError + unit" where
  "connect_guard dst_address =
     (case dst_address of
        UnifiedIp socket_addr \<Rightarrow>
          if is_loopback socket_addr
          then Inl (AgentOther (''Loopback address is not allowed: '' @ show_socket_addr socket_addr))
          else if is_unspecified socket_addr
          then Inl (AgentOther (''Unspecified address is not allowed: '' @ show_socket_addr socket_addr))
          else Inr ()
      | UnifiedDomain host port \<Rightarrow>
          if host = ''0.0.0.1'' \<or> host = ''127.0.0.1'' \<or> host = ''localhost''
          then Inl (AgentOther ''0.0.0.1 or 127.0.0.1 is not a valid destination address'')
          else Inr ())"

text \<open>Reading the tunnel id out of the proxy's answer; the protocol's name is part of the text.\<close>

definition tunnel_of_response ::
  "string \<Rightarrow> PpaassUnifiedAddress \<Rightarrow> PpaassProxyMessage \<Rightarrow> AgentError + string" where
  "tunnel_of_response protocol src_address proxy_message =
     (case pm_payload proxy_message of
        ProxyTcp (ProxyTcpInit src dst (Success tunnel_id)) \<Rightarrow> Inr tunnel_id
      | ProxyTcp (ProxyTcpInit src dst (Fail reason)) \<Rightarrow>
          Inl (InvalidProxyResponse (''Client '' @ protocol @ '' tcp connection ['' @ show_unified src_address
            @ ''] fail to initialize tcp connection with proxy because of reason: '' @ show_reason reason))
      | _ \<Rightarrow> Inl (InvalidProxyResponse ''Not a tcp init response.''))"

definition handle_connect_command ::
  "agent_env \<Rightarrow> ProxyConnectionFactory \<Rightarrow> PpaassUnifiedAddress \<Rightarrow> PpaassUnifiedAddress
   \<Rightarrow> (AgentError, ClientTransportDataRelayInfo) agent" where
  "handle_connect_command env factory src_address dst_address =
     bnd (try_res id (connect_guard dst_address)) (\<lambda>_.
     let user_token = agent_get_user_token (config env) in
     bnd (random_32_bytes env) (\<lambda>random.
     let payload_encryption = encryption_select user_token (Some random) in
     bnd (uuid_new_v4 env) (\<lambda>uuid.
     bnd (try_res AgentCommon
           (generate_agent_tcp_init_message uuid user_token src_address dst_address payload_encryption))
       (\<lambda>tcp_init_request.
     bnd (create_connection env factory) (\<lambda>proxy_connection.
     bnd (map_err AgentCommon (proxy_send proxy_connection tcp_init_request)) (\<lambda>_.
     bnd (proxy_next proxy_connection) (\<lambda>proxy_message.
     case proxy_message of
       None \<Rightarrow> throw (Network ConnectionExhausted)
     | Some (Inl e) \<Rightarrow> throw (AgentCommon e)
     | Some (Inr proxy_message) \<Rightarrow>
     bnd (try_res id (tunnel_of_response ''socks5'' src_address proxy_message)) (\<lambda>tunnel_id.
     bnd (try_res Conversion (socks_of_unified dst_address)) (\<lambda>bind_addr.
     let socks5_init_success_result = \<lparr>icr_status = Succeeded, bind_address = Some bind_addr\<rparr> in
     bnd (map_err (\<lambda>e. Encode (EncSocks5 e))
           (client_send socks_init_encode Socks5EncodeIo socks5_init_success_result)) (\<lambda>_.
     ret (RelayTcp
       \<lparr>tr_tunnel_id = tunnel_id, tr_src_address = src_address, tr_dst_address = dst_address,
        tr_proxy_connection = proxy_connection, tr_init_data = None\<rparr>)))))))))))"

section \<open>The handshake\<close>

text \<open>
  After the authentication reply the framed connection is taken apart and only its stream
  kept, so the second codec starts with an empty read buffer: \<open>((), [])\<close>.
\<close>

definition socks_handshake ::
  "agent_env \<Rightarrow> ProxyConnectionFactory \<Rightarrow> udp_bind \<Rightarrow> ClientTransportHandshakeInfo
   \<Rightarrow> (AgentError, ClientTransportDataRelayInfo) agent" where
  "socks_handshake env factory socket info =
     (let src_address = hi_src_address info in
     bnd (map_err (\<lambda>e. Decode (DecSocks5 e))
           (client_next socks_auth_decode Socks5DecodeIo ((), hi_initial_buf info))) (\<lambda>(auth, _).
     case auth of
       None \<Rightarrow> throw (Network ConnectionExhausted)
     | Some client_auth_command \<Rightarrow>
     bnd (map_err (\<lambda>e. Encode (EncSocks5 e))
           (client_send socks_auth_encode Socks5EncodeIo \<lparr>acr_method = NoAuthenticationRequired\<rparr>)) (\<lambda>_.
     bnd (map_err (\<lambda>e. Decode (DecSocks5 e))
           (client_next socks_init_decode Socks5DecodeIo ((), []))) (\<lambda>(init, _).
     case init of
       None \<Rightarrow> throw (Network ConnectionExhausted)
     | Some socks5_init_command \<Rightarrow>
     let dst_address = unified_of_socks (ic_dst_address socks5_init_command) in
     (case request_type socks5_init_command of
        Bind \<Rightarrow> handle_bind_command src_address dst_address
      | UdpAssociate \<Rightarrow> handle_udp_associate_command socket dst_address
      | Connect \<Rightarrow> handle_connect_command env factory src_address dst_address)))))"

section \<open>The stages of a handshake\<close>

lemma client_next_now:
  assumes "buf \<noteq> []" and "decode (s, buf) = (Inr (Some x), st)"
  shows "client_next decode conv (s, buf) w = (Inr (Some x, st), w)"
  using assms by (simp add: client_next_def framed_next_def)

lemma client_next_chunk:
  assumes "decode (s, c) = (Inr (Some x), st)" and "client_in w = Inr c # cs"
  shows "client_next decode conv (s, []) w = (Inr (Some x, st), w\<lparr>client_in := cs\<rparr>)"
  using assms by (simp add: client_next_def framed_next_def)

text \<open>Reading never writes: only the script of the client's bytes changes.\<close>

lemma client_next_frame:
  "\<exists>cs. snd (client_next decode conv framed w) = w\<lparr>client_in := cs\<rparr>"
  by (auto simp: client_next_def split: prod.split sum.split)

lemma auth_reply:
  "client_send socks_auth_encode conv \<lparr>acr_method = NoAuthenticationRequired\<rparr> w =
    (case client_fault w of Some e \<Rightarrow> (Inl (Err (conv e)), w)
     | None \<Rightarrow> (Inr (), w\<lparr>client_out := client_out w @ [5, 0]\<rparr>))"
  by (simp add: client_send_def socks_auth_encode_def rust_defs buf_defs SOCKS_V5_def split: option.split)

lemma init_reply:
  "client_send socks_init_encode conv \<lparr>icr_status = Succeeded, bind_address = Some a\<rparr> w =
    (case client_fault w of Some e \<Rightarrow> (Inl (Err (conv e)), w)
     | None \<Rightarrow> (Inr (), w\<lparr>client_out := client_out w @ [5, 0, 0] @ socks_address_bytes a\<rparr>))"
  by (simp add: client_send_def socks_init_encode_def rust_defs buf_defs Let_def split: option.split)

lemma auth_decode_greeting:
  "length ms = unat n \<Longrightarrow> socks_auth_decode ((), SOCKS_V5 # n # ms @ extra) =
    (Inr (Some \<lparr>methods = map auth_method_of_u8 ms\<rparr>), ((), extra))"
  by (simp add: socks_auth_decode_def socks_auth_read_eq)

lemma init_decode_request:
  assumes "socks_wire_form a used" and "init_command_type_of_u8 t = Inr ct"
  shows "socks_init_decode ((), SOCKS_V5 # t # r # used @ extra) =
    (Inr (Some \<lparr>request_type = ct, ic_dst_address = a\<rparr>), ((), extra))"
proof -
  have "used @ extra \<noteq> []"
    using socks_wire_form_nonempty [OF assms(1)] by simp
  then show ?thesis
    using socks_wire_form_parse [OF assms(1), of extra] assms(2)
    by (simp add: socks_init_decode_def socks_init_read_eq)
qed

text \<open>The handshake after a complete greeting.\<close>

lemma socks_handshake_greeting:
  assumes "length ms = unat n" and "hi_initial_buf info = SOCKS_V5 # n # ms @ extra"
    and "client_fault w = None"
  shows "socks_handshake env factory socket info w =
    bnd (map_err (\<lambda>e. Decode (DecSocks5 e))
           (client_next socks_init_decode Socks5DecodeIo ((), []))) (\<lambda>(init, _).
     case init of
       None \<Rightarrow> throw (Network ConnectionExhausted)
     | Some cmd \<Rightarrow>
     let dst_address = unified_of_socks (ic_dst_address cmd) in
     (case request_type cmd of
        Bind \<Rightarrow> handle_bind_command (hi_src_address info) dst_address
      | UdpAssociate \<Rightarrow> handle_udp_associate_command socket dst_address
      | Connect \<Rightarrow> handle_connect_command env factory (hi_src_address info) dst_address))
     (w\<lparr>client_out := client_out w @ [5, 0]\<rparr>)"
proof -
  have "client_next socks_auth_decode Socks5DecodeIo ((), hi_initial_buf info) w =
      (Inr (Some \<lparr>methods = map auth_method_of_u8 ms\<rparr>, ((), extra)), w)"
    using assms auth_decode_greeting by (intro client_next_now) simp_all
  then show ?thesis
    using assms(3) by (simp add: socks_handshake_def Let_def bnd_def map_err_def auth_reply)
qed

section \<open>Properties\<close>

text \<open>A CONNECT to a loopback or unspecified IP address, or to one of the three local names, is refused before any connection is opened, any random number drawn or any byte written.\<close>

lemma connect_refused_untouched:
  assumes "case dst of UnifiedIp a \<Rightarrow> is_loopback a \<or> is_unspecified a
    | UnifiedDomain host port \<Rightarrow> host \<in> {''0.0.0.1'', ''127.0.0.1'', ''localhost''}"
  shows "\<exists>msg. handle_connect_command env factory src dst w = (Inl (Err (AgentOther msg)), w)"
  using assms
  by (auto simp: handle_connect_command_def connect_guard_def rust_defs
      split: PpaassUnifiedAddress.splits)

text \<open>The guard of CONNECT compares names and addresses literally: the IPv4-mapped form of 127.0.0.1, another name of the loopback network and another spelling of localhost pass it.\<close>

lemma connect_guard_gap:
  "connect_guard (UnifiedIp (V6 (Ipv6Addr 0 0 0 0 0 0xFFFF 0x7F00 1) port 0 0)) = Inr ()
   \<and> connect_guard (UnifiedDomain ''127.0.0.2'' port) = Inr ()
   \<and> connect_guard (UnifiedDomain ''LOCALHOST'' port) = Inr ()
   \<and> connect_guard (UnifiedDomain ''::1'' port) = Inr ()"
  by (simp add: connect_guard_def)

text \<open>C32: Bytes a client sends together with its greeting, such as the pipelined command, are dropped: after the authentication reply the handshake goes on as if they had never arrived.\<close>

theorem socks_handshake_drops_pipelined:
  assumes "length ms = unat n"
  shows "socks_handshake env factory socket
      \<lparr>hi_src_address = src, hi_initial_buf = SOCKS_V5 # n # ms @ extra\<rparr> w =
    socks_handshake env factory socket
      \<lparr>hi_src_address = src, hi_initial_buf = SOCKS_V5 # n # ms\<rparr> w"
proof -
  have "client_next socks_auth_decode Socks5DecodeIo ((), SOCKS_V5 # n # ms @ x) w =
      (Inr (Some \<lparr>methods = map auth_method_of_u8 ms\<rparr>, ((), x)), w)" for x
    using assms auth_decode_greeting by (intro client_next_now) simp_all
  from this [of extra] this [of "[]"] show ?thesis
    by (simp add: socks_handshake_def Let_def bnd_def map_err_def)
qed

lemma socks_connect_run:
  assumes greeting: "length ms = unat n" "hi_initial_buf info = SOCKS_V5 # n # ms"
    and request: "socks_wire_form a used" "client_in w = Inr (SOCKS_V5 # 1 # rsv # used) # cs"
    and allowed: "connect_guard (unified_of_socks a) = Inr ()"
    and net: "client_fault w = None" "dials w = Dialed None l # ds" "link_fault l = None"
      "link_in l = Inr answer # answers"
    and answer: "pm_payload answer = ProxyTcp (ProxyTcpInit s d (Success tunnel))"
  shows "\<exists>w'. socks_handshake env factory socket info w =
      (Inr (RelayTcp \<lparr>tr_tunnel_id = tunnel, tr_src_address = hi_src_address info,
          tr_dst_address = unified_of_socks a,
          tr_proxy_connection = \<lparr>connection_id = new_v4 env (draws w + 2), link = length (links w)\<rparr>,
          tr_init_data = None\<rparr>), w')
    \<and> client_out w' = client_out w @ [5, 0] @ [5, 0, 0] @ socks_address_bytes a
    \<and> client_in w' = cs \<and> draws w' = draws w + 3 \<and> dials w' = ds \<and> dialled w' = dialled w @ [factory_addresses factory]
    \<and> links w' = links w @ [l\<lparr>link_in := answers, link_out := link_out l @
        [\<lparr>am_message_id = new_v4 env (draws w + 1), am_user_token = agent_get_user_token (config env),
          am_encryption = AesEncryption (random_array env (draws w)),
          am_payload = AgentTcp (AgentTcpInit (hi_src_address info) (unified_of_socks a))\<rparr>]\<rparr>]"
proof -
  let ?w = "w\<lparr>client_out := client_out w @ [5, 0]\<rparr>"
  have "init_command_type_of_u8 1 = Inr Connect"
    by (simp add: init_command_type_of_u8_def)
  then have "client_next socks_init_decode Socks5DecodeIo ((), []) ?w =
      (Inr (Some \<lparr>request_type = Connect, ic_dst_address = a\<rparr>, ((), [])), ?w\<lparr>client_in := cs\<rparr>)"
    using request init_decode_request [OF request(1), of 1 Connect rsv "[]"]
    by (intro client_next_chunk) simp_all
  then have "socks_handshake env factory socket info w =
      handle_connect_command env factory (hi_src_address info) (unified_of_socks a) (?w\<lparr>client_in := cs\<rparr>)"
    using socks_handshake_greeting [where extra = "[]"] greeting net(1)
    by (simp add: bnd_def map_err_def)
  then show ?thesis
    using allowed net answer
    by (simp add: handle_connect_command_def agent_net_defs rust_defs Let_def generator_defs
        tunnel_of_response_def init_reply del: client_send_def)
qed

text \<open>C15: A complete CONNECT exchange: the client receives the authentication reply and a success reply that echoes the destination, one connection to the proxy is opened to the configured addresses, exactly one message is sent on it, the init request with the configured user, a fresh identifier and a fresh AES token, and the relay gets the tunnel id the proxy answered with.\<close>

theorem socks_connect_succeeds:
  assumes greeting: "length ms = unat n" "hi_initial_buf info = SOCKS_V5 # n # ms"
    and request: "socks_wire_form a used" "client_in w = Inr (SOCKS_V5 # 1 # rsv # used) # cs"
    and allowed: "connect_guard (unified_of_socks a) = Inr ()"
    and net: "client_fault w = None" "dials w = Dialed None l # ds" "link_fault l = None"
      "link_in l = Inr answer # answers"
    and answer: "pm_payload answer = ProxyTcp (ProxyTcpInit s d (Success tunnel))"
  shows "\<exists>w'. socks_handshake env factory socket info w =
      (Inr (RelayTcp \<lparr>tr_tunnel_id = tunnel, tr_src_address = hi_src_address info,
          tr_dst_address = unified_of_socks a,
          tr_proxy_connection = \<lparr>connection_id = new_v4 env (draws w + 2), link = length (links w)\<rparr>,
          tr_init_data = None\<rparr>), w')
    \<and> client_out w' = client_out w @ [5, 0] @ [5, 0, 0] @ socks_address_bytes a
    \<and> client_in w' = cs \<and> draws w' = draws w + 3 \<and> dials w' = ds \<and> dialled w' = dialled w @ [factory_addresses factory]
    \<and> links w' = links w @ [l\<lparr>link_in := answers, link_out := link_out l @
        [\<lparr>am_message_id = new_v4 env (draws w + 1), am_user_token = agent_get_user_token (config env),
          am_encryption = AesEncryption (random_array env (draws w)),
          am_payload = AgentTcp (AgentTcpInit (hi_src_address info) (unified_of_socks a))\<rparr>]\<rparr>]"
  using assms by (rule socks_connect_run)

lemma create_connection_frame:
  "create_connection env factory w = (r, w1) \<Longrightarrow>
    client_out w1 = client_out w \<and> client_fault w1 = client_fault w"
  by (auto simp: create_connection_def tcp_connect_def open_link_def uuid_new_v4_def rust_defs Let_def
      split: list.splits dial.splits option.splits)

lemma proxy_send_frame:
  "proxy_send c m w = (r, w1) \<Longrightarrow> client_out w1 = client_out w \<and> client_fault w1 = client_fault w"
  by (auto simp: proxy_send_def update_link_def rust_defs split: option.splits)

lemma proxy_next_frame:
  "proxy_next c w = (r, w1) \<Longrightarrow> client_out w1 = client_out w \<and> client_fault w1 = client_fault w"
  by (auto simp: proxy_next_def update_link_def rust_defs split: list.splits)

lemma bnd_outcome:
  assumes "bnd m f w = (r, w')"
  obtains x where "m w = (Inl x, w')" and "r = Inl x"
  | a w1 where "m w = (Inr a, w1)" and "f a w1 = (r, w')"
  using assms by (auto simp: bnd_def split: prod.splits sum.splits)

lemma handle_connect_outcome:
  assumes "handle_connect_command env factory src dst w = (r, w')"
  shows "case r of
      Inl f \<Rightarrow> client_out w' = client_out w
    | Inr (RelayTcp t) \<Rightarrow> tr_dst_address t = dst \<and> connect_guard dst = Inr () \<and>
        (\<exists>a. unified_of_socks a = dst
          \<and> client_out w' = client_out w @ [5, 0, 0] @ socks_address_bytes a)
    | Inr (RelayUdp u) \<Rightarrow> False"
proof -
  have dst: "\<exists>a. socks_of_unified dst = Inr a \<and> unified_of_socks a = dst"
    by (cases dst) simp_all
  show ?thesis
    using assms dst unfolding handle_connect_command_def
    by (fastforce elim!: bnd_outcome dest!: create_connection_frame proxy_send_frame proxy_next_frame
        simp: try_res_def throw_def ret_def Let_def random_32_bytes_def uuid_new_v4_def init_reply map_err_def
        split: sum.splits option.splits prod.splits failure.splits)
qed

lemma handle_udp_associate_outcome:
  assumes "handle_udp_associate_command socket restrict w = (r, w')"
  shows "case r of
      Inl f \<Rightarrow> client_out w' = client_out w
    | Inr (RelayTcp t) \<Rightarrow> False
    | Inr (RelayUdp u) \<Rightarrow> \<exists>addr. local_addr socket = Inr addr
        \<and> client_out w' = client_out w @ [5, 0, 0] @ socks_address_bytes (SocksIp addr)"
  using assms unfolding handle_udp_associate_command_def
  by (auto elim!: bnd_outcome simp: try_res_def throw_def ret_def Let_def init_reply map_err_def
      socks_of_socket_addr_def split: sum.splits option.splits prod.splits failure.splits)

lemma client_next_outcome:
  "client_next decode conv framed w = (r, w1) \<Longrightarrow>
    client_out w1 = client_out w \<and> client_fault w1 = client_fault w"
  using client_next_frame [of decode conv framed w] by fastforce

lemma read_stage:
  "map_err g (client_next decode conv framed) w = (r, w1) \<Longrightarrow> client_out w1 = client_out w"
  by (auto simp: map_err_def split: prod.splits sum.splits failure.splits dest: client_next_outcome)

lemma auth_reply_stage:
  "map_err g (client_send socks_auth_encode conv \<lparr>acr_method = NoAuthenticationRequired\<rparr>) w = (r, w1) \<Longrightarrow>
    (\<exists>f. r = Inl f) \<and> client_out w1 = client_out w \<or> client_out w1 = client_out w @ [5, 0]"
  by (auto simp: map_err_def auth_reply split: option.splits)

text \<open>The handshake up to the command: the authentication reply is all it can have written.\<close>

lemma socks_handshake_outcome:
  assumes "socks_handshake env factory socket info w = (r, w')"
  shows "(\<exists>f. r = Inl f \<and> client_out w' \<in> {client_out w, client_out w @ [5, 0]})
    \<or> (\<exists>w1 dst. client_out w1 = client_out w @ [5, 0] \<and>
        (handle_bind_command (hi_src_address info) dst w1 = (r, w')
         \<or> handle_udp_associate_command socket dst w1 = (r, w')
         \<or> handle_connect_command env factory (hi_src_address info) dst w1 = (r, w')))"
proof -
  from assms obtain x w1 where auth: "map_err (\<lambda>e. Decode (DecSocks5 e))
      (client_next socks_auth_decode Socks5DecodeIo ((), hi_initial_buf info)) w = (x, w1)"
    by (metis prod.exhaust)
  note out1 = read_stage [OF auth]
  show ?thesis
  proof (cases "\<exists>cmd fr. x = Inr (Some cmd, fr)")
    case False
    with assms auth out1 show ?thesis
      by (auto simp: socks_handshake_def Let_def bnd_def throw_def split: sum.splits option.splits prod.splits)
  next
    case True
    obtain y w2 where reply: "map_err (\<lambda>e. Encode (EncSocks5 e)) (client_send socks_auth_encode
        Socks5EncodeIo \<lparr>acr_method = NoAuthenticationRequired\<rparr>) w1 = (y, w2)"
      by (metis prod.exhaust)
    obtain z w3 where init: "map_err (\<lambda>e. Decode (DecSocks5 e))
        (client_next socks_init_decode Socks5DecodeIo ((), [])) w2 = (z, w3)"
      by (metis prod.exhaust)
    note outs = out1 auth_reply_stage [OF reply] read_stage [OF init]
    show ?thesis
    proof (cases "\<exists>f. y = Inl f")
      case True
      with assms auth \<open>\<exists>cmd fr. x = Inr (Some cmd, fr)\<close> reply outs show ?thesis
        by (auto simp: socks_handshake_def Let_def bnd_def)
    next
      case False
      then obtain u where y: "y = Inr u"
        by (cases y) auto
      with outs have out3: "client_out w3 = client_out w @ [5, 0]"
        by auto
      show ?thesis
        using assms auth \<open>\<exists>cmd fr. x = Inr (Some cmd, fr)\<close> reply init y out3
        by (auto simp: socks_handshake_def Let_def bnd_def throw_def
            split: sum.splits option.splits prod.splits Socks5InitCommandType.splits)
    qed
  qed
qed

text \<open>C13: In every run, whatever the client sends and the proxy answers, a success reply is written only if the handshake gets that far: when it ends with an error or a panic the client has received nothing, or the authentication reply alone; when it ends in a TCP relay the client has received exactly the authentication reply and a success reply naming the relay's destination, which passed the guard.\<close>

theorem socks_reply_only_on_success:
  "case socks_handshake env factory socket info w of (r, w') \<Rightarrow>
    (case r of
      Inl f \<Rightarrow> client_out w' \<in> {client_out w, client_out w @ [5, 0]}
    | Inr (RelayTcp t) \<Rightarrow> connect_guard (tr_dst_address t) = Inr () \<and>
        (\<exists>a. unified_of_socks a = tr_dst_address t
          \<and> client_out w' = client_out w @ [5, 0] @ [5, 0, 0] @ socks_address_bytes a)
    | Inr (RelayUdp u) \<Rightarrow> \<exists>addr. local_addr socket = Inr addr
        \<and> client_out w' = client_out w @ [5, 0] @ [5, 0, 0] @ socks_address_bytes (SocksIp addr))"
proof -
  obtain r w' where run: "socks_handshake env factory socket info w = (r, w')"
    by (metis prod.exhaust)
  show ?thesis
    using socks_handshake_outcome [OF run]
  proof (elim disjE exE conjE)
    fix w1 :: agent_world and dst
    assume out: "client_out w1 = client_out w @ [5, 0]"
    show ?thesis if "handle_bind_command (hi_src_address info) dst w1 = (r, w')"
      using that out by (auto simp: run handle_bind_command_def panic_def)
    show ?thesis if "handle_udp_associate_command socket dst w1 = (r, w')"
      using handle_udp_associate_outcome [OF that] out
      by (auto simp: run split: sum.splits ClientTransportDataRelayInfo.splits)
    show ?thesis if "handle_connect_command env factory (hi_src_address info) dst w1 = (r, w')"
      using handle_connect_outcome [OF that] out
      by (auto simp: run split: sum.splits ClientTransportDataRelayInfo.splits)
  qed (auto simp: run)
qed

text \<open>A client that asks for BIND gets the authentication reply and then nothing: the handler is unimplemented and its task panics.\<close>

lemma socks_bind_panics:
  assumes "length ms = unat n" "hi_initial_buf info = SOCKS_V5 # n # ms"
    and "socks_wire_form a used" "client_in w = Inr (SOCKS_V5 # 2 # rsv # used) # cs"
    and "client_fault w = None"
  shows "socks_handshake env factory socket info w =
    (Inl Panic, w\<lparr>client_in := cs, client_out := client_out w @ [5, 0]\<rparr>)"
proof -
  let ?w = "w\<lparr>client_out := client_out w @ [5, 0]\<rparr>"
  have "init_command_type_of_u8 2 = Inr Bind"
    by (simp add: init_command_type_of_u8_def)
  then have "client_next socks_init_decode Socks5DecodeIo ((), []) ?w =
      (Inr (Some \<lparr>request_type = Bind, ic_dst_address = a\<rparr>, ((), [])), ?w\<lparr>client_in := cs\<rparr>)"
    using assms init_decode_request [OF assms(3), of 2 Bind rsv "[]"]
    by (intro client_next_chunk) simp_all
  then show ?thesis
    using socks_handshake_greeting [where extra = "[]"] assms
    by (simp add: bnd_def map_err_def handle_bind_command_def panic_def)
qed

end
