(* ===== verification/Http.thy ===== *)
theory Http
  imports SocksHandshake
begin

text \<open>
  \<open>agent/src/transport/http\<close>: the codec and the handshake of HTTP proxying.  Parsing and
  printing of HTTP messages (\<open>httpcodec\<close>, \<open>bytecodec\<close>) and of URLs (\<open>url\<close>) are libraries:
  the fields of \<open>http_lib\<close>.
\<close>

section \<open>The libraries\<close>

datatype http_decode_failure =
    IncompleteDecoding
  | OtherKind ext_error

record http_response =
  hr_version :: string
  hr_status :: u16
  hr_reason :: string
  hr_body :: bytes

record ('rd, 're, 'req, 'url) http_lib =
  request_decoder_default :: 'rd
  response_encoder_default :: 're
  decode_exact :: "'rd \<Rightarrow> bytes \<Rightarrow> (http_decode_failure + 'req) \<times> 'rd"
  encode_response :: "'re \<Rightarrow> http_response \<Rightarrow> (ext_error + bytes) \<times> 're"
  encode_request :: "'req \<Rightarrow> ext_error + bytes"
  request_method :: "'req \<Rightarrow> string"
  request_target :: "'req \<Rightarrow> string"
  url_parse :: "string \<Rightarrow> ext_error + 'url"
  url_port :: "'url \<Rightarrow> u16 option"
  url_scheme :: "'url \<Rightarrow> string"
  url_host :: "'url \<Rightarrow> string option"
  url_to_string :: "'url \<Rightarrow> string"

section \<open>The codec\<close>

record ('rd, 're) HttpCodec =
  request_decoder :: 'rd
  response_encoder :: 're

definition http_codec_default :: "('rd, 're, 'req, 'url) http_lib \<Rightarrow> ('rd, 're) HttpCodec" where
  "http_codec_default L = \<lparr>request_decoder = request_decoder_default L,
     response_encoder = response_encoder_default L\<rparr>"

definition http_decode ::
  "('rd, 're, 'req, 'url) http_lib \<Rightarrow> (('rd, 're) HttpCodec, HttpDecodeError, 'req) decoder" where
  "http_decode L = (\<lambda>(self, src).
     case decode_exact L (request_decoder self) src of
       (Inr decode_result, st) \<Rightarrow> ret (Some decode_result) (self\<lparr>request_decoder := st\<rparr>, src)
     | (Inl IncompleteDecoding, st) \<Rightarrow> ret None (self\<lparr>request_decoder := st\<rparr>, src)
     | (Inl (OtherKind e), st) \<Rightarrow> throw (HttpDecodeLowLevel e) (self\<lparr>request_decoder := st\<rparr>, src))"

definition http_encode ::
  "('rd, 're, 'req, 'url) http_lib \<Rightarrow> http_response
   \<Rightarrow> (('rd, 're) HttpCodec \<times> bytes, HttpEncodeError, unit) rust" where
  "http_encode L item = (\<lambda>(self, dst).
     case encode_response L (response_encoder self) item of
       (Inl e, st) \<Rightarrow> throw (HttpEncodeLowLevel e) (self\<lparr>response_encoder := st\<rparr>, dst)
     | (Inr encode_result, st) \<Rightarrow>
         ret () (self\<lparr>response_encoder := st\<rparr>, put_slice encode_result dst))"

text \<open>\<open>http_framed.send(response)\<close>: the framed connection is taken apart afterwards, its codec dropped.\<close>

definition http_encode_into ::
  "('rd, 're, 'req, 'url) http_lib \<Rightarrow> ('rd, 're) HttpCodec \<Rightarrow> http_response
   \<Rightarrow> (bytes, HttpEncodeError, unit) rust" where
  "http_encode_into L self item = (\<lambda>dst.
     case http_encode L item (self, dst) of (r, (_, dst')) \<Rightarrow> (r, dst'))"

section \<open>The handshake\<close>

definition HTTPS_SCHEMA :: string where "HTTPS_SCHEMA = ''https''"
definition SCHEMA_SEP :: string where "SCHEMA_SEP = ''://''"
definition CONNECT_METHOD :: string where "CONNECT_METHOD = ''connect''"
definition HTTPS_DEFAULT_PORT :: u16 where "HTTPS_DEFAULT_PORT = 443"
definition HTTP_DEFAULT_PORT :: u16 where "HTTP_DEFAULT_PORT = 80"
definition OK_CODE :: u16 where "OK_CODE = 200"
definition CONNECTION_ESTABLISHED :: string where
  "CONNECTION_ESTABLISHED = ''Connection Established''"

text \<open>\<open>str::to_lowercase\<close> on a method name, which \<open>httpcodec\<close> only accepts in ASCII.\<close>

definition to_lowercase :: "string \<Rightarrow> string" where
  "to_lowercase s = map (\<lambda>c. let n = of_char c :: nat in
     if 65 \<le> n \<and> n \<le> 90 then char_of (n + 32) else c) s"

text \<open>Where the request goes, and what of it must be sent there: lines 57 to 69.\<close>

definition http_request_url ::
  "('rd, 're, 'req, 'url) http_lib \<Rightarrow> 'req \<Rightarrow> AgentError + string \<times> bytes option" where
  "http_request_url L http_message =
     (let http_method = to_lowercase (request_method L http_message) in
      if http_method = CONNECT_METHOD
      then Inr (HTTPS_SCHEMA @ SCHEMA_SEP @ request_target L http_message, None)
      else
        let request_url = request_target L http_message in
        case encode_request L http_message of
          Inl e \<Rightarrow> Inl (Encode (EncHttp (HttpEncodeLowLevel e)))
        | Inr encode_result \<Rightarrow> Inr (request_url, Some encode_result))"

text \<open>The destination named by the URL: lines 70 to 85.\<close>

definition http_destination ::
  "('rd, 're, 'req, 'url) http_lib \<Rightarrow> string \<Rightarrow> AgentError + PpaassUnifiedAddress" where
  "http_destination L request_url =
     (case url_parse L request_url of
        Inl e \<Rightarrow> Inl (Conversion (UrlFormat e))
      | Inr parsed_request_url \<Rightarrow>
          let target_port =
                (case url_port L parsed_request_url of
                   Some port \<Rightarrow> port
                 | None \<Rightarrow> if url_scheme L parsed_request_url = HTTPS_SCHEMA then HTTPS_DEFAULT_PORT
                     else HTTP_DEFAULT_PORT) in
          (case url_host L parsed_request_url of
             None \<Rightarrow> Inl (Conversion (NoHost (url_to_string L parsed_request_url)))
           | Some target_host \<Rightarrow>
               if target_host = ''0.0.0.1'' \<or> target_host = ''127.0.0.1''
               then Inl (AgentOther ''0.0.0.1 or 127.0.0.1 is not a valid destination address'')
               else Inr (UnifiedDomain target_host target_port)))"

definition http_handshake ::
  "('rd, 're, 'req, 'url) http_lib \<Rightarrow> agent_env \<Rightarrow> ProxyConnectionFactory \<Rightarrow> ClientTransportHandshakeInfo
   \<Rightarrow> (AgentError, ClientTransportDataRelayInfo) agent" where
  "http_handshake L env factory info =
     (let src_address = hi_src_address info in
     bnd (map_err (\<lambda>e. Decode (DecHttp e))
           (client_next (http_decode L) HttpDecodeIo (http_codec_default L, hi_initial_buf info)))
       (\<lambda>(http_message, http_framed).
     case http_message of
       None \<Rightarrow> throw (Network ConnectionExhausted)
     | Some http_message \<Rightarrow>
     bnd (try_res id (http_request_url L http_message)) (\<lambda>(request_url, init_data).
     bnd (try_res id (http_destination L request_url)) (\<lambda>dst_address.
     let user_token = agent_get_user_token (config env) in
     bnd (random_32_bytes env) (\<lambda>random.
     let payload_encryption = encryption_select user_token (Some random) in
     bnd (uuid_new_v4 env) (\<lambda>uuid.
     bnd (try_res AgentCommon
           (generate_agent_tcp_init_message uuid user_token src_address dst_address payload_encryption))
       (\<lambda>tcp_init_request.
     bnd (create_connection env factory) (\<lambda>proxy_connection.
     bnd (map_err AgentCommon (proxy_send proxy_connection tcp_init_request)) (\<lambda>_.
     bnd (proxy_next proxy_connection) (\<lambda>proxy_message.
     case proxy_message of
       None \<Rightarrow> throw (Network ConnectionExhausted)
     | Some (Inl e) \<Rightarrow> throw (AgentCommon e)
     | Some (Inr proxy_message) \<Rightarrow>
     bnd (try_res id (tunnel_of_response ''http'' src_address proxy_message)) (\<lambda>tunnel_id.
     bnd (if init_data = None
          then map_err (\<lambda>e. Encode (EncHttp e))
            (client_send (http_encode_into L (fst http_framed)) HttpEncodeIo
              \<lparr>hr_version = ''HTTP/1.1'', hr_status = OK_CODE, hr_reason = CONNECTION_ESTABLISHED,
               hr_body = []\<rparr>)
          else ret ()) (\<lambda>_.
     ret (RelayTcp
       \<lparr>tr_tunnel_id = tunnel_id, tr_src_address = src_address, tr_dst_address = dst_address,
        tr_proxy_connection = proxy_connection, tr_init_data = init_data\<rparr>)))))))))))))"

section \<open>Properties\<close>

text \<open>The codec never advances the buffer it was given.\<close>

lemma http_decode_buffer: "snd (snd (http_decode L (self, src))) = src"
  by (auto simp: http_decode_def rust_defs split: prod.splits sum.splits http_decode_failure.splits)

text \<open>The response the client of a CONNECT gets.\<close>

definition established :: http_response where
  "established = \<lparr>hr_version = ''HTTP/1.1'', hr_status = 200, hr_reason = ''Connection Established'', hr_body = []\<rparr>"

lemma http_connect_run:
  assumes request: "hi_initial_buf info \<noteq> []"
      "decode_exact L (request_decoder_default L) (hi_initial_buf info) = (Inr req, st)"
    and url: "http_request_url L req = Inr (u, init)" "url_parse L u = Inr pu"
      "url_host L pu = Some host" "host \<noteq> ''0.0.0.1''" "host \<noteq> ''127.0.0.1''"
    and net: "client_fault w = None" "dials w = Dialed None l # ds" "link_fault l = None"
      "link_in l = Inr answer # answers"
    and answer: "pm_payload answer = ProxyTcp (ProxyTcpInit s d (Success tunnel))"
    and response: "encode_response L (response_encoder_default L) established = (Inr reply, re)"
  shows "\<exists>w' dst. http_handshake L env factory info w =
      (Inr (RelayTcp \<lparr>tr_tunnel_id = tunnel, tr_src_address = hi_src_address info, tr_dst_address = dst,
          tr_proxy_connection = \<lparr>connection_id = new_v4 env (draws w + 2), link = length (links w)\<rparr>,
          tr_init_data = init\<rparr>), w')
    \<and> dst = UnifiedDomain host (case url_port L pu of Some p \<Rightarrow> p
        | None \<Rightarrow> if url_scheme L pu = ''https'' then 443 else 80)
    \<and> client_out w' = client_out w @ (if to_lowercase (request_method L req) = ''connect'' then reply else [])
    \<and> (init = None \<longleftrightarrow> to_lowercase (request_method L req) = ''connect'')
    \<and> client_in w' = client_in w \<and> draws w' = draws w + 3
    \<and> links w' = links w @ [l\<lparr>link_in := answers, link_out := link_out l @
        [\<lparr>am_message_id = new_v4 env (draws w + 1), am_user_token = agent_get_user_token (config env),
          am_encryption = AesEncryption (random_array env (draws w)),
          am_payload = AgentTcp (AgentTcpInit (hi_src_address info) dst)\<rparr>]\<rparr>]"
proof -
  have "http_decode L (http_codec_default L, hi_initial_buf info) = (Inr (Some req),
      ((http_codec_default L)\<lparr>request_decoder := st\<rparr>, hi_initial_buf info))"
    using request(2) by (simp add: http_decode_def http_codec_default_def ret_def)
  then have read: "client_next (http_decode L) HttpDecodeIo (http_codec_default L, hi_initial_buf info) w =
      (Inr (Some req, ((http_codec_default L)\<lparr>request_decoder := st\<rparr>, hi_initial_buf info)), w)"
    using request(1) by (intro client_next_now)
  have init: "init = None \<longleftrightarrow> to_lowercase (request_method L req) = ''connect''"
    using url(1) by (auto simp: http_request_url_def Let_def CONNECT_METHOD_def split: if_splits sum.splits)
  define dst where "dst = UnifiedDomain host (case url_port L pu of Some p \<Rightarrow> p
        | None \<Rightarrow> if url_scheme L pu = ''https'' then 443 else 80)"
  have dest: "http_destination L u = Inr dst"
    using url by (simp add: http_destination_def Let_def dst_def HTTPS_SCHEMA_def HTTPS_DEFAULT_PORT_def
        HTTP_DEFAULT_PORT_def split: option.split)
  have send: "client_send (http_encode_into L ((http_codec_default L)\<lparr>request_decoder := st\<rparr>)) HttpEncodeIo
      \<lparr>hr_version = ''HTTP/1.1'', hr_status = OK_CODE, hr_reason = CONNECTION_ESTABLISHED, hr_body = []\<rparr> v =
      (Inr (), v\<lparr>client_out := client_out v @ reply\<rparr>)" if "client_fault v = None" for v
    using response that by (simp add: client_send_def http_encode_into_def http_encode_def http_codec_default_def established_def
        OK_CODE_def CONNECTION_ESTABLISHED_def rust_defs put_slice_def)
  show ?thesis
    using net answer
    by (auto simp: http_handshake_def Let_def bnd_def map_err_def read url(1) dest try_res_def ret_def
        agent_net_defs generator_defs tunnel_of_response_def send init dst_def [symmetric] throw_def
        simp del: client_send_def client_next_def)
qed


text \<open>The two protocols do not guard the same destinations: a host named localhost, refused by SOCKS CONNECT, is accepted from an HTTP client, and so is every IP literal other than the two that are listed.\<close>

lemma http_guard_weaker:
  assumes "url_parse L u = Inr pu" and "url_host L pu = Some host" and "url_port L pu = Some port"
  shows "http_destination L u =
      (if host = ''0.0.0.1'' \<or> host = ''127.0.0.1''
       then Inl (AgentOther ''0.0.0.1 or 127.0.0.1 is not a valid destination address'')
       else Inr (UnifiedDomain host port))
    \<and> (\<exists>e. connect_guard (UnifiedDomain ''localhost'' port) = Inl e)"
  using assms by (simp add: http_destination_def Let_def connect_guard_def)

end
