(* ===== verification/AgentRelay.thy ===== *)
theory AgentRelay
  imports Http Streams
begin

text \<open>
  \<open>agent/src/transport/mod.rs\<close> (the TCP relay every transport inherits), the UDP relay of
  \<open>agent/src/transport/socks/mod.rs\<close>, and \<open>agent/src/server.rs\<close>.
\<close>

section \<open>The TCP relay\<close>

text \<open>The closure of the first task: an error of the client's stream ends it.\<close>

definition client_message_step ::
  "agent_env \<Rightarrow> string \<Rightarrow> PpaassMessagePayloadEncryption \<Rightarrow> io_error + bytes
   \<Rightarrow> (CommonError, PpaassAgentMessage option) agent" where
  "client_message_step env user_token payload_encryption client_message =
     (case client_message of
        Inl e \<Rightarrow> ret None
      | Inr client_message \<Rightarrow>
          bnd (uuid_new_v4 env) (\<lambda>uuid.
          case generate_agent_tcp_data_message uuid user_token payload_encryption client_message of
            Inl e \<Rightarrow> ret None
          | Inr tcp_data \<Rightarrow> ret (Some tcp_data)))"

text \<open>The first spawned task: client to proxy, then close the connection to the proxy.\<close>

definition client_to_proxy_task ::
  "agent_env \<Rightarrow> string \<Rightarrow> PpaassMessagePayloadEncryption \<Rightarrow> ProxyConnection \<Rightarrow> (unit, unit) agent" where
  "client_to_proxy_task env user_token payload_encryption proxy_connection = (\<lambda>w.
     bnd (logged (map_while_forward (client_message_step env user_token payload_encryption)
                    (proxy_send proxy_connection) (client_in w))) (\<lambda>_.
     proxy_close proxy_connection) (w\<lparr>client_in := []\<rparr>))"

text \<open>The closure of the second: anything but a TCP data message ends the relay.\<close>

definition proxy_message_step :: "CommonError + PpaassProxyMessage \<Rightarrow> bytes option" where
  "proxy_message_step proxy_message =
     (case proxy_message of
        Inl e \<Rightarrow> None
      | Inr proxy_message \<Rightarrow>
          (case pm_payload proxy_message of
             ProxyTcp (ProxyTcpData content) \<Rightarrow> Some content
           | _ \<Rightarrow> None))"

definition client_write :: "bytes \<Rightarrow> (NetworkError, unit) agent" where
  "client_write bs = (\<lambda>w. case client_fault w of
       Some e \<Rightarrow> throw (General e) w
     | None \<Rightarrow> ret () (w\<lparr>client_out := client_out w @ bs\<rparr>))"

definition client_close :: "('e, unit) agent" where
  "client_close = (\<lambda>w. ret () (w\<lparr>client_closed := True\<rparr>))"

definition proxy_to_client_task :: "ProxyConnection \<Rightarrow> (unit, unit) agent" where
  "proxy_to_client_task proxy_connection = (\<lambda>w.
     bnd (logged (map_while_forward (\<lambda>m. ret (proxy_message_step m)) client_write
                    (link_in (links w ! link proxy_connection)))) (\<lambda>_.
     client_close) (update_link (link proxy_connection) (\<lambda>l. l\<lparr>link_in := []\<rparr>) w))"

text \<open>
  \<open>tcp_relay\<close> itself: the token of the relay is drawn, the data the handshake has already
  read is sent, and the two tasks are spawned; what they share is returned.
\<close>

definition tcp_relay ::
  "agent_env \<Rightarrow> ClientTransportTcpDataRelay \<Rightarrow> (AgentError, string \<times> PpaassMessagePayloadEncryption) agent" where
  "tcp_relay env info =
     (let user_token = agent_get_user_token (config env) in
     bnd (random_32_bytes env) (\<lambda>random.
     let payload_encryption = encryption_select user_token (Some random) in
     bnd (case tr_init_data info of
            None \<Rightarrow> ret ()
          | Some init_data \<Rightarrow>
              bnd (uuid_new_v4 env) (\<lambda>uuid.
              bnd (try_res AgentCommon
                    (generate_agent_tcp_data_message uuid user_token payload_encryption init_data))
                (\<lambda>agent_message.
              map_err AgentCommon (proxy_send (tr_proxy_connection info) agent_message)))) (\<lambda>_.
     ret (user_token, payload_encryption))))"

section \<open>The UDP relay\<close>

text \<open>The loop ends when a read of the control connection returns no bytes.\<close>

fun check_udp_relay_tcp_connection :: "reads \<Rightarrow> AgentError + unit" where
  "check_udp_relay_tcp_connection [] = Inr ()"
| "check_udp_relay_tcp_connection (Inl e # cs) = Inl (AgentIo e)"
| "check_udp_relay_tcp_connection (Inr c # cs) =
     (if c = [] then Inr () else check_udp_relay_tcp_connection cs)"

text \<open>
  One turn of the loop after a datagram has been received.  \<open>sent\<close> is what \<open>send_to\<close> does
  with the reply: its outcome, and the datagram with its addresses on the log of the socket.
  \<open>Some ()\<close> ends the relay without an error.
\<close>

record udp_world = agent_world +
  udp_out :: "(bytes \<times> SocketAddr list) list"
  udp_send_fault :: "io_error option"

definition on_agent :: "('e, 'a) agent \<Rightarrow> (udp_world, 'e, 'a) rust" where
  "on_agent m = (\<lambda>w. case m (agent_world.truncate w) of (r, v) \<Rightarrow>
     (r, agent_world.extend v \<lparr>udp_out = udp_out w, udp_send_fault = udp_send_fault w\<rparr>))"

definition udp_send_to :: "bytes \<Rightarrow> SocketAddr list \<Rightarrow> (udp_world, AgentError, unit) rust" where
  "udp_send_to bs addrs = (\<lambda>w. case udp_send_fault w of
       Some e \<Rightarrow> throw (AgentIo e) w
     | None \<Rightarrow> ret () (w\<lparr>udp_out := udp_out w @ [(bs, addrs)]\<rparr>))"

definition relay_udp_datagram ::
  "agent_env \<Rightarrow> ProxyConnectionFactory \<Rightarrow> PpaassMessagePayloadEncryption \<Rightarrow> PpaassUnifiedAddress
   \<Rightarrow> bytes \<times> SocketAddr \<Rightarrow> (udp_world, AgentError, unit option) rust" where
  "relay_udp_datagram env factory payload_encryption client_udp_restrict_address = (\<lambda>(client_udp_bytes, client_udp_address).
     let user_token = agent_get_user_token (config env);
         src_address = unified_of_socket_addr client_udp_address in
     if \<not> unified_eq client_udp_restrict_address src_address then ret None
     else
     bnd (try_call (\<lambda>e. Decode (DecSocks5 e)) (udp_packet_of_bytes client_udp_bytes)) (\<lambda>packet.
     let dst_address = unified_of_socks (udp_address packet) in
     bnd (on_agent (uuid_new_v4 env)) (\<lambda>uuid.
     bnd (try_res AgentCommon (generate_agent_udp_data_message uuid user_token payload_encryption
           client_udp_restrict_address dst_address (udp_data packet) True)) (\<lambda>agent_udp_message.
     bnd (on_agent (create_connection env factory)) (\<lambda>proxy_connection.
     bnd (on_agent (map_err AgentCommon (proxy_send proxy_connection agent_udp_message))) (\<lambda>_.
     bnd (on_agent (proxy_next proxy_connection)) (\<lambda>proxy_udp_message.
     case proxy_udp_message of
       None \<Rightarrow> ret (Some ())
     | Some (Inl e) \<Rightarrow> throw (AgentCommon e)
     | Some (Inr proxy_udp_message) \<Rightarrow>
     (case pm_payload proxy_udp_message of
        ProxyTcp _ \<Rightarrow> throw (InvalidProxyResponse ''Not a udp data.'')
      | ProxyUdp p \<Rightarrow>
     bnd (try_res Conversion (socks_of_unified (pu_dst_address p))) (\<lambda>address.
     let agent_socks5_udp_packet_bytes =
           bytes_of_udp_packet \<lparr>frag = 0, udp_address = address, udp_data = pu_data p\<rparr> in
     bnd (try_res AgentIo (collect_socket_addrs (resolve_name env) (pu_src_address p))) (\<lambda>src_socket_address.
     bnd (udp_send_to agent_socks5_udp_packet_bytes src_socket_address) (\<lambda>_.
     ret None)))))))))))"

text \<open>
  The loop over what \<open>recv_from\<close> returns; \<open>None\<close> when it is still waiting for the next datagram
  after those of the script.
\<close>

fun relay_udp_loop ::
  "agent_env \<Rightarrow> ProxyConnectionFactory \<Rightarrow> PpaassMessagePayloadEncryption \<Rightarrow> PpaassUnifiedAddress
   \<Rightarrow> (io_error + bytes \<times> SocketAddr) list \<Rightarrow> (udp_world, AgentError, unit option) rust" where
  "relay_udp_loop env factory enc restrict [] = ret None"
| "relay_udp_loop env factory enc restrict (Inl e # ds) = throw (Network (ClientUdpRecv e))"
| "relay_udp_loop env factory enc restrict (Inr d # ds) =
     bnd (relay_udp_datagram env factory enc restrict d) (\<lambda>r. case r of
       Some u \<Rightarrow> ret (Some u)
     | None \<Rightarrow> relay_udp_loop env factory enc restrict ds)"

definition relay_udp_data ::
  "agent_env \<Rightarrow> ProxyConnectionFactory \<Rightarrow> PpaassUnifiedAddress \<Rightarrow> (io_error + bytes \<times> SocketAddr) list
   \<Rightarrow> (udp_world, AgentError, unit option) rust" where
  "relay_udp_data env factory client_udp_restrict_address ds =
     bnd (on_agent (random_32_bytes env)) (\<lambda>random.
     let payload_encryption = encryption_select (agent_get_user_token (config env)) (Some random) in
     relay_udp_loop env factory payload_encryption client_udp_restrict_address ds)"

text \<open>
  \<open>udp_relay\<close>: \<open>select!\<close> waits for the first of two futures.  The datagrams are those received
  before the control connection ends; if the relay is still waiting after them, the outcome of the
  control connection decides, otherwise the relay has ended first.
\<close>

definition udp_relay ::
  "agent_env \<Rightarrow> ProxyConnectionFactory \<Rightarrow> ClientTransportUdpDataRelay \<Rightarrow> reads
   \<Rightarrow> (io_error + bytes \<times> SocketAddr) list \<Rightarrow> (udp_world, AgentError, unit) rust" where
  "udp_relay env factory udp_relay_info client_tcp_stream ds =
     bnd (relay_udp_data env factory (ur_client_udp_restrict_address udp_relay_info) ds) (\<lambda>r. case r of
       Some u \<Rightarrow> ret u
     | None \<Rightarrow> try_res id (check_udp_relay_tcp_connection client_tcp_stream))"

section \<open>Serving a client\<close>

text \<open>What is left to do when \<open>handle_client_connection\<close> has dispatched, shaken hands and set up the relay.\<close>

datatype served =
    TcpTasks ProxyConnection string PpaassMessagePayloadEncryption
  | UdpLoop PpaassUnifiedAddress

definition handle_client_connection ::
  "('rd, 're, 'req, 'url) http_lib \<Rightarrow> agent_env \<Rightarrow> ProxyConnectionFactory \<Rightarrow> udp_bind \<Rightarrow> SocketAddr
   \<Rightarrow> (AgentError, served) agent" where
  "handle_client_connection L env factory socket client_socket_address =
     bnd (dispatch client_socket_address) (\<lambda>(handshake_info, handshake).
     bnd (case handshake of
            Socks5ClientTransport \<Rightarrow> socks_handshake env factory socket handshake_info
          | HttpClientTransport \<Rightarrow> http_handshake L env factory handshake_info) (\<lambda>relay_info.
     case relay_info of
       RelayTcp tcp_relay_info \<Rightarrow>
         bnd (tcp_relay env tcp_relay_info) (\<lambda>(user_token, payload_encryption).
         ret (TcpTasks (tr_proxy_connection tcp_relay_info) user_token payload_encryption))
     | RelayUdp udp_relay_info \<Rightarrow>
         ret (UdpLoop (ur_client_udp_restrict_address udp_relay_info))))"

text \<open>
  The server: bind, then accept for ever.  Each accept of the script fails, or yields a
  connection on which \<open>set_nodelay\<close> may fail; the result is the connections a task was
  spawned for by the end of the script.
\<close>

definition agent_bind_addr :: "AgentConfig \<Rightarrow> string" where
  "agent_bind_addr conf =
     (if agent_get_ipv6 conf then ''::1:'' @ dec (unat (agent_get_port conf))
      else ''0.0.0.0:'' @ dec (unat (agent_get_port conf)))"

definition accept_client_connection :: "io_error + io_error option \<times> SocketAddr \<Rightarrow> NetworkError + SocketAddr" where
  "accept_client_connection outcome =
     (case outcome of
        Inl e \<Rightarrow> Inl (AcceptConnection e)
      | Inr (Some e, client_socket_address) \<Rightarrow> Inl (PropertyModification e)
      | Inr (None, client_socket_address) \<Rightarrow> Inr client_socket_address)"

fun agent_accept_loop :: "(io_error + io_error option \<times> SocketAddr) list \<Rightarrow> SocketAddr list" where
  "agent_accept_loop [] = []"
| "agent_accept_loop (outcome # outcomes) =
     (case accept_client_connection outcome of
        Inl e \<Rightarrow> agent_accept_loop outcomes
      | Inr client_socket_address \<Rightarrow> client_socket_address # agent_accept_loop outcomes)"

definition agent_server_start ::
  "AgentConfig \<Rightarrow> (string \<Rightarrow> io_error + unit) \<Rightarrow> (io_error + io_error option \<times> SocketAddr) list
   \<Rightarrow> AgentError + SocketAddr list" where
  "agent_server_start conf bind_tcp outcomes =
     (case bind_tcp (agent_bind_addr conf) of
        Inl e \<Rightarrow> Inl (Network (TcpBind e))
      | Inr _ \<Rightarrow> Inr (agent_accept_loop outcomes))"

section \<open>What the TCP relay forwards\<close>

text \<open>The chunks before the first error.\<close>

fun data_prefix :: "('x + 'a) list \<Rightarrow> 'a list" where
  "data_prefix [] = []"
| "data_prefix (Inl e # cs) = []"
| "data_prefix (Inr c # cs) = c # data_prefix cs"

fun agent_data_messages ::
  "agent_env \<Rightarrow> string \<Rightarrow> PpaassMessagePayloadEncryption \<Rightarrow> nat \<Rightarrow> bytes list \<Rightarrow> PpaassAgentMessage list" where
  "agent_data_messages env user_token enc n [] = []"
| "agent_data_messages env user_token enc n (c # cs) =
     \<lparr>am_message_id = new_v4 env n, am_user_token = user_token, am_encryption = enc,
      am_payload = AgentTcp (AgentTcpData c)\<rparr> # agent_data_messages env user_token enc (Suc n) cs"

lemma agent_data_messages_payload [simp]:
  "map am_payload (agent_data_messages env u enc n cs) = map (\<lambda>c. AgentTcp (AgentTcpData c)) cs"
  by (induction cs arbitrary: n) simp_all

lemma forward_client_chunks:
  assumes "link c < length (links w)" and "link_fault (links w ! link c) = None"
  shows "map_while_forward (client_message_step env u enc) (proxy_send c) cs w =
    (Inr (), (update_link (link c) (\<lambda>l. l\<lparr>link_out := link_out l @
        agent_data_messages env u enc (draws w) (data_prefix cs)\<rparr>) w)
      \<lparr>draws := draws w + length (data_prefix cs)\<rparr>)"
  using assms
proof (induction cs arbitrary: w)
  case Nil
  then show ?case
    by (simp add: ret_def update_link_def)
next
  case (Cons x cs)
  show ?case
  proof (cases x)
    case (Inl e)
    then show ?thesis
      by (simp add: client_message_step_def rust_defs update_link_def)
  next
    case (Inr b)
    let ?m = "\<lparr>am_message_id = new_v4 env (draws w), am_user_token = u, am_encryption = enc,
      am_payload = AgentTcp (AgentTcpData b)\<rparr>"
    let ?w = "update_link (link c) (\<lambda>l. l\<lparr>link_out := link_out l @ [?m]\<rparr>) (w\<lparr>draws := Suc (draws w)\<rparr>)"
    have "map_while_forward (client_message_step env u enc) (proxy_send c) (x # cs) w =
        map_while_forward (client_message_step env u enc) (proxy_send c) cs ?w"
      using Cons.prems Inr
      by (simp add: client_message_step_def rust_defs uuid_new_v4_def generator_defs proxy_send_def update_link_def)
    moreover have "link c < length (links ?w)" "link_fault (links ?w ! link c) = None"
      using Cons.prems by (simp_all add: update_link_def)
    ultimately show ?thesis
      using Cons.IH [of ?w] Inr Cons.prems by (simp add: update_link_def)
  qed
qed

lemma client_to_proxy_effect:
  assumes "link c < length (links w)" and "link_fault (links w ! link c) = None"
  shows "client_to_proxy_task env u enc c w =
    (Inr (), w\<lparr>client_in := [], draws := draws w + length (data_prefix (client_in w)),
      links := (links w)[link c := (links w ! link c)
        \<lparr>link_out := link_out (links w ! link c) @ agent_data_messages env u enc (draws w) (data_prefix (client_in w)),
         link_closed := True\<rparr>]\<rparr>)"
  using assms
  by (simp add: client_to_proxy_task_def logged_def bnd_def forward_client_chunks proxy_close_def ret_def
      update_link_def)

text \<open>C24: The task from the client to the proxy sends every chunk the client's connection yields before its end or its first error, in order, each as one TCP data message of the relay's user and token with an identifier of its own, then closes the connection; it touches nothing else.\<close>

theorem client_to_proxy_forwards:
  assumes "link c < length (links w)" and "link_fault (links w ! link c) = None"
  shows "client_to_proxy_task env u enc c w =
    (Inr (), w\<lparr>client_in := [], draws := draws w + length (data_prefix (client_in w)),
      links := (links w)[link c := (links w ! link c)
        \<lparr>link_out := link_out (links w ! link c) @ agent_data_messages env u enc (draws w) (data_prefix (client_in w)),
         link_closed := True\<rparr>]\<rparr>)"
  using assms by (rule client_to_proxy_effect)

fun proxy_data_prefix :: "(CommonError + PpaassProxyMessage) list \<Rightarrow> bytes list" where
  "proxy_data_prefix [] = []"
| "proxy_data_prefix (m # ms) =
     (case proxy_message_step m of None \<Rightarrow> [] | Some content \<Rightarrow> content # proxy_data_prefix ms)"

lemma forward_proxy_messages:
  assumes "client_fault w = None"
  shows "map_while_forward (\<lambda>m. ret (proxy_message_step m)) client_write ms w =
    (Inr (), w\<lparr>client_out := client_out w @ concat (proxy_data_prefix ms)\<rparr>)"
  using assms
proof (induction ms arbitrary: w)
  case (Cons m ms)
  show ?case
  proof (cases "proxy_message_step m")
    case (Some content)
    then show ?thesis
      using Cons.prems Cons.IH [of "w\<lparr>client_out := client_out w @ content\<rparr>"]
      by (simp add: rust_defs client_write_def)
  qed (simp add: rust_defs)
qed (simp add: ret_def)

text \<open>C25: The task from the proxy to the client writes the contents of the TCP data messages the proxy sends, in order, up to the end, the first error or the first message of another kind, then closes the client's connection.\<close>

theorem proxy_to_client_forwards:
  assumes "client_fault w = None"
  shows "proxy_to_client_task c w =
    (Inr (), (update_link (link c) (\<lambda>l. l\<lparr>link_in := []\<rparr>) w)
      \<lparr>client_out := client_out w @ concat (proxy_data_prefix (link_in (links w ! link c))),
       client_closed := True\<rparr>)"
proof -
  have "client_fault (update_link i f w) = None" "client_out (update_link i f w) = client_out w" for i f
    using assms by (simp_all add: update_link_def)
  then show ?thesis
    by (simp add: proxy_to_client_task_def logged_def bnd_def forward_proxy_messages client_close_def)
      (simp add: ret_def)
qed

section \<open>What the UDP relay does\<close>

text \<open>A datagram from any other address than the one the client announced is ignored: nothing is parsed, dialled or sent for it.\<close>

lemma udp_foreign_ignored:
  assumes "unified_of_socket_addr from \<noteq> restrict"
  shows "relay_udp_loop env factory enc restrict (Inr (bs, from) # ds) w =
    relay_udp_loop env factory enc restrict ds w"
  using assms by (auto simp: relay_udp_datagram_def Let_def bnd_def ret_def)

fun sock_port :: "SocketAddr \<Rightarrow> u16" where
  "sock_port (V4 ip port) = port"
| "sock_port (V6 ip port fl sc) = port"

text \<open>A client that does not know its address announces port 0 (or a host name); then no datagram is ever relayed, since the filter compares with the announced address literally and no datagram comes from port 0 (or from a name).\<close>

lemma udp_unknown_client_blocked:
  assumes "case restrict of UnifiedIp a \<Rightarrow> sock_port a = 0 | UnifiedDomain host port \<Rightarrow> True"
    and "\<And>d. d \<in> set ds \<Longrightarrow> \<exists>bs from. d = Inr (bs, from) \<and> sock_port from \<noteq> 0"
  shows "relay_udp_loop env factory enc restrict ds w = (Inr None, w)"
  using assms(2)
proof (induction ds)
  case (Cons d ds)
  obtain bs src where d: "d = Inr (bs, src)" "sock_port src \<noteq> 0"
    using Cons.prems [of d] by auto
  with assms(1) have "\<not> unified_eq restrict (unified_of_socket_addr src)"
    by (auto simp: unified_of_socket_addr_def split: PpaassUnifiedAddress.splits)
  with Cons d show ?case
    by (simp add: relay_udp_datagram_def Let_def bnd_def ret_def)
qed (simp add: ret_def)

text \<open>One malformed datagram of the announced client ends the whole relay with an error; the datagrams after it are never read.\<close>

lemma udp_malformed_ends_relay:
  assumes "udp_packet_of_bytes bs = Inl (Err e)"
  shows "relay_udp_loop env factory enc (UnifiedIp from) (Inr (bs, from) # ds) w =
    (Inl (Err (Decode (DecSocks5 e))), w)"
  using assms
  by (simp add: relay_udp_datagram_def Let_def unified_of_socket_addr_def rust_defs)

text \<open>A datagram of the announced client is answered over a connection of its own: one message with the datagram's destination and data goes to the proxy, and the proxy's answer is sent back to the client as one SOCKS packet that names the destination.\<close>

lemma udp_relay_run:
  assumes packet: "udp_packet_of_bytes bs = Inr p"
    and net: "dials w = Dialed None l # ds" "link_fault l = None" "link_in l = Inr answer # answers"
      "udp_send_fault w = None"
    and answer: "pm_payload answer = ProxyUdp q" "pu_src_address q = UnifiedIp client"
      "socks_of_unified (pu_dst_address q) = Inr a"
  shows "\<exists>w'. relay_udp_datagram env factory enc (UnifiedIp client) (bs, client) w = (Inr None, w')
    \<and> udp_out w' = udp_out w @ [(bytes_of_udp_packet \<lparr>frag = 0, udp_address = a, udp_data = pu_data q\<rparr>, [client])]
    \<and> client_out w' = client_out w
    \<and> links w' = links w @ [l\<lparr>link_in := answers, link_out := link_out l @
        [\<lparr>am_message_id = new_v4 env (draws w), am_user_token = agent_get_user_token (config env),
          am_encryption = enc,
          am_payload = AgentUdp \<lparr>au_src_address = UnifiedIp client,
            au_dst_address = unified_of_socks (udp_address p), au_data = udp_data p,
            au_need_response = True\<rparr>\<rparr>]\<rparr>]"
  using assms
  by (simp add: relay_udp_datagram_def Let_def unified_of_socket_addr_def rust_defs on_agent_def
      agent_net_defs generator_defs udp_send_to_def agent_world.defs del: client_send_def client_next_def)

section \<open>The server\<close>

text \<open>The server outlives its clients: every connection that is accepted and set up gets a task, whatever failed before it.\<close>

lemma agent_serves_all:
  assumes "bind_tcp (agent_bind_addr conf) = Inr ()"
  shows "agent_server_start conf bind_tcp outcomes =
    Inr (List.map_filter (\<lambda>x. case x of Inr (None, a) \<Rightarrow> Some a | _ \<Rightarrow> None) outcomes)"
proof -
  have "agent_accept_loop outcomes =
      List.map_filter (\<lambda>x. case x of Inr (None, a) \<Rightarrow> Some a | _ \<Rightarrow> None) outcomes"
    by (induction outcomes)
      (auto simp: accept_client_connection_def map_filter_simps split: sum.splits option.splits prod.splits)
  with assms show ?thesis
    by (simp add: agent_server_start_def)
qed

end
