(* ===== verification/AgentSamples.thy ===== *)
theory AgentSamples
  imports AgentRelay KeySamples
begin

text \<open>Concrete runs of the agent's handshakes and relays.\<close>

definition sample_env :: agent_env where
  "sample_env = \<lparr>config = sample_agent_config, new_v4 = (\<lambda>n. replicate n CHR ''i''),
     random_array = (\<lambda>n. replicate 32 (word_of_nat n)),
     resolve_name = (\<lambda>_. Inl (IoOs ''no such host'')), socket_addr_from_str = (\<lambda>_. None)\<rparr>"

definition sample_answer :: PpaassProxyMessage where
  "sample_answer = \<lparr>pm_message_id = ''m'', pm_user_token = ''u'', pm_encryption = Plain,
     pm_payload = ProxyTcp (ProxyTcpInit (UnifiedDomain ''c'' 1) (UnifiedDomain ''d'' 2) (Success ''t1''))\<rparr>"

definition sample_data :: PpaassProxyMessage where
  "sample_data = \<lparr>pm_message_id = ''n'', pm_user_token = ''u'', pm_encryption = Plain,
     pm_payload = ProxyTcp (ProxyTcpData [8, 9])\<rparr>"

definition sample_udp_answer :: PpaassProxyMessage where
  "sample_udp_answer = \<lparr>pm_message_id = ''n'', pm_user_token = ''u'', pm_encryption = Plain,
     pm_payload = ProxyUdp \<lparr>pu_src_address = UnifiedIp (V4 (Ipv4Addr 10 0 0 2) 5000),
       pu_dst_address = UnifiedDomain ''d'' 53, pu_data = [7]\<rparr>\<rparr>"

definition sample_link :: "PpaassProxyMessage \<Rightarrow> proxy_link" where
  "sample_link answer = \<lparr>link_in = [Inr answer, Inr sample_data], link_out = [], link_fault = None,
     link_closed = False\<rparr>"

definition sample_world :: "reads \<Rightarrow> PpaassProxyMessage \<Rightarrow> proxy_link list \<Rightarrow> agent_world" where
  "sample_world cs answer ls = \<lparr>client_in = cs, client_out = [], client_fault = None, client_closed = False,
     dials = [Dialed None (sample_link answer)], dialled = [], links = ls, draws = 0\<rparr>"

definition sample_client :: SocketAddr where
  "sample_client = V4 (Ipv4Addr 10 0 0 2) 5000"

lemma sample_id [simp]: "new_v4 sample_env (Suc (Suc 0)) = ''ii''"
  by (simp add: sample_env_def)

definition sample_bind :: udp_bind where
  "sample_bind = \<lparr>bind_outcome = Inr (), local_addr = Inr sample_client\<rparr>"

lemma dispatch_first_byte_witness:
  "dispatch sample_client (sample_world [Inr [4, 1]] sample_answer []) =
    (Inl (Err (Decode UnsupportProtocol)), sample_world [] sample_answer [])"
  using dispatch_first_byte [of "sample_world [Inr [4, 1]] sample_answer []" 4 "[1]" "[]" sample_client]
  by (simp add: sample_world_def Let_def)

lemma connect_refused_untouched_witness:
  "\<exists>msg. handle_connect_command sample_env \<lparr>factory_addresses = []\<rparr> (UnifiedDomain ''c'' 1)
      (UnifiedIp (V4 (Ipv4Addr 127 1 2 3) 80)) (sample_world [] sample_answer [])
    = (Inl (Err (AgentOther msg)), sample_world [] sample_answer [])"
  using connect_refused_untouched [of "UnifiedIp (V4 (Ipv4Addr 127 1 2 3) 80)"] by simp

theorem socks_handshake_drops_pipelined_witness:
  "socks_handshake sample_env \<lparr>factory_addresses = []\<rparr> sample_bind
      \<lparr>hi_src_address = UnifiedDomain ''c'' 1, hi_initial_buf = [SOCKS_V5, 1, 0, 5, 1, 0, 1]\<rparr>
      (sample_world [] sample_answer []) =
    socks_handshake sample_env \<lparr>factory_addresses = []\<rparr> sample_bind
      \<lparr>hi_src_address = UnifiedDomain ''c'' 1, hi_initial_buf = [SOCKS_V5, 1, 0]\<rparr>
      (sample_world [] sample_answer [])"
  using socks_handshake_drops_pipelined [of "[0]" 1 sample_env "\<lparr>factory_addresses = []\<rparr>" sample_bind
      "UnifiedDomain ''c'' 1" "[5, 1, 0, 1]"] by simp

lemma sample_wire_form:
  "socks_wire_form (SocksDomain ''d'' 80) [3, 1, 100, 0, 80]"
  "socks_address_bytes (SocksDomain ''d'' 80) = [3, 1, 100, 0, 80]"
proof -
  have port: "be_bytes 2 80 = [0, 80]"
    by (simp add: be_bytes_2)
  have "utf8_valid (as_bytes ''d'')"
    by (rule utf8_valid_ascii) (simp add: as_bytes_def byte_of_char_def)
  then have "domain_name_of (as_bytes ''d'') = ''d''"
    by (simp add: domain_name_of_valid)
  moreover have d: "as_bytes ''d'' = [100]"
    by (simp add: as_bytes_def byte_of_char_def)
  ultimately show "socks_wire_form (SocksDomain ''d'' 80) [3, 1, 100, 0, 80]"
    by (auto simp: socks_wire_form_def DOMAIN_FLAG_def port intro!: exI [of _ 1] exI [of _ "[100]"])
  show "socks_address_bytes (SocksDomain ''d'' 80) = [3, 1, 100, 0, 80]"
    by (simp add: buf_defs DOMAIN_FLAG_def d port)
qed

theorem socks_connect_succeeds_witness:
  "\<exists>w'. socks_handshake sample_env \<lparr>factory_addresses = [sample_client]\<rparr> sample_bind
      \<lparr>hi_src_address = UnifiedIp sample_client, hi_initial_buf = [SOCKS_V5, 1, 0]\<rparr>
      (sample_world [Inr [SOCKS_V5, 1, 0, 3, 1, 100, 0, 80]] sample_answer []) =
      (Inr (RelayTcp \<lparr>tr_tunnel_id = ''t1'', tr_src_address = UnifiedIp sample_client,
          tr_dst_address = UnifiedDomain ''d'' 80,
          tr_proxy_connection = \<lparr>connection_id = ''ii'', link = 0\<rparr>, tr_init_data = None\<rparr>), w')
    \<and> client_out w' = [5, 0, 5, 0, 0, 3, 1, 100, 0, 80]"
proof -
  let ?w = "sample_world [Inr [SOCKS_V5, 1, 0, 3, 1, 100, 0, 80]] sample_answer []"
  have "client_in ?w = Inr (SOCKS_V5 # 1 # 0 # [3, 1, 100, 0, 80]) # []" "client_fault ?w = None"
    "dials ?w = Dialed None (sample_link sample_answer) # []" "link_fault (sample_link sample_answer) = None"
    "link_in (sample_link sample_answer) = Inr sample_answer # [Inr sample_data]"
    "connect_guard (unified_of_socks (SocksDomain ''d'' 80)) = Inr ()"
    by (simp_all add: sample_world_def sample_link_def connect_guard_def)
  moreover have "pm_payload sample_answer =
      ProxyTcp (ProxyTcpInit (UnifiedDomain ''c'' 1) (UnifiedDomain ''d'' 2) (Success ''t1''))"
    by (simp add: sample_answer_def)
  ultimately obtain w' where "socks_handshake sample_env \<lparr>factory_addresses = [sample_client]\<rparr>
      sample_bind
      \<lparr>hi_src_address = UnifiedIp sample_client, hi_initial_buf = [SOCKS_V5, 1, 0]\<rparr> ?w =
      (Inr (RelayTcp \<lparr>tr_tunnel_id = ''t1'', tr_src_address = UnifiedIp sample_client,
          tr_dst_address = UnifiedDomain ''d'' 80,
          tr_proxy_connection = \<lparr>connection_id = new_v4 sample_env (draws ?w + 2), link = length (links ?w)\<rparr>,
          tr_init_data = None\<rparr>), w')"
      "client_out w' = client_out ?w @ [5, 0] @ [5, 0, 0] @ socks_address_bytes (SocksDomain ''d'' 80)"
    using socks_connect_succeeds [of "[0]" 1 "\<lparr>hi_src_address = UnifiedIp sample_client,
        hi_initial_buf = [SOCKS_V5, 1, 0]\<rparr>" "SocksDomain ''d'' 80" "[3, 1, 100, 0, 80]" ?w 0 "[]"
        "sample_link sample_answer" "[]" sample_answer "[Inr sample_data]" "UnifiedDomain ''c'' 1"
        "UnifiedDomain ''d'' 2" "''t1''" sample_env "\<lparr>factory_addresses = [sample_client]\<rparr>" sample_bind] sample_wire_form(1)
    by auto
  moreover have "client_out ?w = []" "draws ?w = 0" "links ?w = []"
    by (simp_all add: sample_world_def)
  moreover note sample_wire_form(2)
  ultimately show ?thesis
    by (intro exI [of _ w']) simp
qed

text \<open>An HTTP library that knows one request: its decoder takes the whole buffer, its URL is its target.\<close>

definition sample_http :: "(unit, unit, string, string) http_lib" where
  "sample_http = \<lparr>request_decoder_default = (), response_encoder_default = (),
     decode_exact = (\<lambda>_ bs. (Inr (text_of_bytes bs), ())),
     encode_response = (\<lambda>_ r. (Inr [50, 48, 48], ())),
     encode_request = (\<lambda>req. Inr (as_bytes req)),
     request_method = (\<lambda>req. if req = ''c'' then ''CONNECT'' else ''GET''), request_target = (\<lambda>req. req),
     url_parse = Inr, url_port = (\<lambda>_. None), url_scheme = (\<lambda>u. take 5 u), url_host = (\<lambda>u. Some (drop 8 u)),
     url_to_string = (\<lambda>u. u)\<rparr>"

lemma lower_connect: "to_lowercase ''CONNECT'' = ''connect''"
  by code_simp


theorem client_to_proxy_forwards_witness:
  "\<exists>w'. client_to_proxy_task sample_env ''u'' Plain \<lparr>connection_id = '''', link = 0\<rparr>
      (sample_world [Inr [1, 2], Inr [3], Inl (IoOs ''reset''), Inr [4]] sample_answer [sample_link sample_answer]) = (Inr (), w')
    \<and> map am_payload (link_out (links w' ! 0)) = [AgentTcp (AgentTcpData [1, 2]), AgentTcp (AgentTcpData [3])]
    \<and> link_closed (links w' ! 0)"
  using client_to_proxy_forwards [of "\<lparr>connection_id = '''', link = 0\<rparr>" "sample_world [Inr [1, 2], Inr [3],
      Inl (IoOs ''reset''), Inr [4]] sample_answer [sample_link sample_answer]" sample_env "''u''" Plain]
  by (simp add: sample_world_def sample_link_def)

theorem proxy_to_client_forwards_witness:
  "\<exists>w'. proxy_to_client_task \<lparr>connection_id = '''', link = 0\<rparr>
      (sample_world [] sample_answer [sample_link sample_data]) = (Inr (), w')
    \<and> client_out w' = [8, 9, 8, 9] \<and> client_closed w'"
  using proxy_to_client_forwards [of "sample_world [] sample_answer [sample_link sample_data]"
      "\<lparr>connection_id = '''', link = 0\<rparr>"]
  by (simp add: sample_world_def sample_link_def proxy_message_step_def sample_data_def)

definition sample_udp_world :: udp_world where
  "sample_udp_world = agent_world.extend (sample_world [] sample_udp_answer [])
     \<lparr>udp_out = [], udp_send_fault = None\<rparr>"

lemma udp_unknown_client_blocked_witness:
  "relay_udp_loop sample_env \<lparr>factory_addresses = []\<rparr> Plain (UnifiedIp (V4 (Ipv4Addr 0 0 0 0) 0))
      [Inr ([0, 0, 0], sample_client)] sample_udp_world = (Inr None, sample_udp_world)"
proof (rule udp_unknown_client_blocked)
  show "\<exists>bs from. d = Inr (bs, from) \<and> sock_port from \<noteq> 0"
    if "d \<in> set [Inr ([0, 0, 0], sample_client)]" for d :: "io_error + bytes \<times> SocketAddr"
    using that by (simp add: sample_client_def)
qed simp

lemma sample_udp_packet:
  "udp_packet_of_bytes [0, 0, 0, 1, 8, 8, 8, 8, 0, 53, 6] =
    Inr \<lparr>frag = 0, udp_address = SocksIp (V4 (Ipv4Addr 8 8 8 8) 53), udp_data = [6]\<rparr>"
proof -
  have "be_bytes 2 (unat (53 :: u16)) = [0, 53]"
    by (simp add: be_bytes_2)
  then have "socks_address_parse [1, 8, 8, 8, 8, 0, 53, 6] = (Inr (SocksIp (V4 (Ipv4Addr 8 8 8 8) 53)), [6])"
    using socks_address_parse_v4 [of 8 8 8 8 53 "[6]"] by simp
  then show ?thesis
    by (simp add: udp_packet_of_bytes_eq)
qed

end
