(* ===== verification/ProxyNet.thy ===== *)
theory ProxyNet
  imports Message Framing Config Streams
begin

text \<open>
  What a transport of the proxy sees of the outside: its agent, the destination, and the
  server's count of transports.  As on the agent's side the network is a script in the state:
  what will arrive and which operations will fail is there before the run, what is sent is
  collected.
\<close>

text \<open>How \<open>timeout(.., TcpStream::connect(..))\<close> ends, with the outcomes of \<open>set_nodelay\<close> and \<open>set_linger\<close>.\<close>

datatype dst_dial =
    DstTimeout
  | DstError io_error
  | DstConnected "io_error option" "io_error option"

datatype udp_dial =
    UdpTimeout
  | UdpError io_error
  | UdpConnected

datatype udp_recv =
    RecvTimeout
  | RecvError io_error
  | RecvBytes bytes

record proxy_world =
  agent_in :: "(CommonError + PpaassAgentMessage) list"
  agent_out :: "PpaassProxyMessage list"
  agent_fault :: "CommonError option"
  agent_close_fault :: "CommonError option"
  agent_closed :: bool
  dst_dial_outcome :: dst_dial
  dst_dialled :: "SocketAddr list list"
  dst_in :: reads
  dst_out :: bytes
  dst_fault :: "io_error option"
  dst_closed :: bool
  udp_bind_fault :: "io_error option"
  udp_dial_outcome :: udp_dial
  udp_dialled :: "SocketAddr list list"
  udp_sent :: "bytes list"
  udp_write_fault :: "io_error option"
  udp_in :: "udp_recv list"
  transport_number :: u64
  pdraws :: nat

record proxy_env =
  pconfig :: ProxyConfig
  pnew_v4 :: "nat \<Rightarrow> string"
  prandom_array :: "nat \<Rightarrow> bytes"
  presolve_name :: resolver
  debug_agent_message :: "PpaassAgentMessage \<Rightarrow> string"

type_synonym ('e, 'a) proxy = "(proxy_world, 'e, 'a) rust"

definition proxy_uuid :: "proxy_env \<Rightarrow> ('e, string) proxy" where
  "proxy_uuid env = (\<lambda>w. (Inr (pnew_v4 env (pdraws w)), w\<lparr>pdraws := pdraws w + 1\<rparr>))"

definition proxy_random_32_bytes :: "proxy_env \<Rightarrow> ('e, bytes) proxy" where
  "proxy_random_32_bytes env = (\<lambda>w. (Inr (prandom_array env (pdraws w)), w\<lparr>pdraws := pdraws w + 1\<rparr>))"

section \<open>The agent's connection\<close>

definition agent_next :: "('e, (CommonError + PpaassAgentMessage) option) proxy" where
  "agent_next = (\<lambda>w. case agent_in w of
       [] \<Rightarrow> ret None w
     | x # xs \<Rightarrow> ret (Some x) (w\<lparr>agent_in := xs\<rparr>))"

definition agent_send :: "PpaassProxyMessage \<Rightarrow> (CommonError, unit) proxy" where
  "agent_send m = (\<lambda>w. case agent_fault w of
       Some e \<Rightarrow> throw e w
     | None \<Rightarrow> ret () (w\<lparr>agent_out := agent_out w @ [m]\<rparr>))"

definition agent_close :: "(CommonError, unit) proxy" where
  "agent_close = (\<lambda>w. case agent_close_fault w of
       Some e \<Rightarrow> throw e (w\<lparr>agent_closed := True\<rparr>)
     | None \<Rightarrow> ret () (w\<lparr>agent_closed := True\<rparr>))"

section \<open>The destination\<close>

definition dst_connect :: "SocketAddr list \<Rightarrow> ('e, dst_dial) proxy" where
  "dst_connect addresses = (\<lambda>w. (Inr (dst_dial_outcome w), w\<lparr>dst_dialled := dst_dialled w @ [addresses]\<rparr>))"

definition dst_write :: "bytes \<Rightarrow> (io_error, unit) proxy" where
  "dst_write bs = (\<lambda>w. case dst_fault w of
       Some e \<Rightarrow> throw e w
     | None \<Rightarrow> ret () (w\<lparr>dst_out := dst_out w @ bs\<rparr>))"

definition dst_close :: "('e, unit) proxy" where
  "dst_close = (\<lambda>w. ret () (w\<lparr>dst_closed := True\<rparr>))"

definition udp_socket_bind :: "(io_error, unit) proxy" where
  "udp_socket_bind = (\<lambda>w. case udp_bind_fault w of Some e \<Rightarrow> throw e w | None \<Rightarrow> ret () w)"

definition udp_connect :: "SocketAddr list \<Rightarrow> ('e, udp_dial) proxy" where
  "udp_connect addresses = (\<lambda>w. (Inr (udp_dial_outcome w), w\<lparr>udp_dialled := udp_dialled w @ [addresses]\<rparr>))"

definition udp_send :: "bytes \<Rightarrow> (io_error, unit) proxy" where
  "udp_send bs = (\<lambda>w. case udp_write_fault w of
       Some e \<Rightarrow> throw e w
     | None \<Rightarrow> ret () (w\<lparr>udp_sent := udp_sent w @ [bs]\<rparr>))"

text \<open>\<open>timeout(.., recv(&mut buf))\<close>: a datagram is cut to the buffer; when nothing comes any more, time runs out.\<close>

definition udp_recv_timeout :: "nat \<Rightarrow> ('e, udp_recv) proxy" where
  "udp_recv_timeout buf_size = (\<lambda>w. case udp_in w of
       [] \<Rightarrow> (Inr RecvTimeout, w)
     | x # xs \<Rightarrow> (Inr (case x of RecvBytes bs \<Rightarrow> RecvBytes (take buf_size bs) | y \<Rightarrow> y), w\<lparr>udp_in := xs\<rparr>))"

section \<open>The count of transports\<close>

text \<open>\<open>fetch_add\<close> and \<open>fetch_sub\<close> on an \<open>AtomicU64\<close> wrap around.\<close>

definition fetch_add_1 :: "('e, unit) proxy" where
  "fetch_add_1 = (\<lambda>w. (Inr (), w\<lparr>transport_number := transport_number w + 1\<rparr>))"

definition fetch_sub_1 :: "('e, unit) proxy" where
  "fetch_sub_1 = (\<lambda>w. (Inr (), w\<lparr>transport_number := transport_number w - 1\<rparr>))"

named_theorems proxy_net_defs \<open>the effects of a transport of the proxy\<close>

lemmas proxy_net_unfold [proxy_net_defs] =
  proxy_uuid_def proxy_random_32_bytes_def agent_next_def agent_send_def agent_close_def
  dst_connect_def dst_write_def dst_close_def udp_socket_bind_def udp_connect_def udp_send_def
  udp_recv_timeout_def fetch_add_1_def fetch_sub_1_def

end
