(* ===== verification/TcpHandler.thy ===== *)
theory TcpHandler
  imports ProxyNet
begin

text \<open>\<open>proxy/src/transport/tcp.rs\<close>: connecting to the destination and relaying TCP data.\<close>

record TcpHandlerRequest =
  th_transport_id :: string
  th_user_token :: string
  th_src_address :: PpaassUnifiedAddress
  th_dst_address :: PpaassUnifiedAddress
  th_payload_encryption :: PpaassMessagePayloadEncryption

definition init_dst_connection ::
  "proxy_env \<Rightarrow> string \<Rightarrow> PpaassUnifiedAddress \<Rightarrow> (ProxyServerError, unit) proxy" where
  "init_dst_connection env transport_id dst_address =
     bnd (try_res StdIo (collect_socket_addrs (presolve_name env) dst_address)) (\<lambda>dst_socket_address.
     bnd (dst_connect dst_socket_address) (\<lambda>d.
     case d of
       DstTimeout \<Rightarrow> throw (ProxyOther (''Transport '' @ transport_id @ '' connect to tcp destination [''
         @ show_unified dst_address @ ''] timeout in [''
         @ dec (unat (proxy_get_dst_connect_timeout (pconfig env))) @ ''] seconds.''))
     | DstError e \<Rightarrow> throw (StdIo e)
     | DstConnected nodelay linger \<Rightarrow>
         bnd (case nodelay of None \<Rightarrow> ret () | Some e \<Rightarrow> throw (StdIo e)) (\<lambda>_.
         case linger of None \<Rightarrow> ret () | Some e \<Rightarrow> throw (StdIo e))))"

definition unwrap_to_raw_tcp_data :: "proxy_env \<Rightarrow> PpaassAgentMessage \<Rightarrow> CommonError + bytes" where
  "unwrap_to_raw_tcp_data env message =
     (case am_payload message of
        AgentTcp (AgentTcpData content) \<Rightarrow> Inr content
      | _ \<Rightarrow> Inl (CommonOther
          (''Fail to unwrap raw data from agent message because of invalid payload type: ''
           @ debug_agent_message env message)))"

text \<open>The closure and the task from the agent to the destination.\<close>

definition agent_message_step :: "proxy_env \<Rightarrow> CommonError + PpaassAgentMessage \<Rightarrow> bytes option" where
  "agent_message_step env agent_message =
     (case agent_message of
        Inl e \<Rightarrow> None
      | Inr agent_message \<Rightarrow>
          (case unwrap_to_raw_tcp_data env agent_message of
             Inl e \<Rightarrow> None
           | Inr dat \<Rightarrow> Some dat))"

definition agent_to_dst_task :: "proxy_env \<Rightarrow> (unit, unit) proxy" where
  "agent_to_dst_task env = (\<lambda>w.
     bnd (logged (map_while_forward (\<lambda>m. ret (agent_message_step env m)) dst_write (agent_in w))) (\<lambda>_.
     dst_close) (w\<lparr>agent_in := []\<rparr>))"

text \<open>The closure and the task from the destination to the agent, which also counts the transport out.\<close>

definition dst_message_step ::
  "proxy_env \<Rightarrow> string \<Rightarrow> PpaassMessagePayloadEncryption \<Rightarrow> io_error + bytes
   \<Rightarrow> (CommonError, PpaassProxyMessage option) proxy" where
  "dst_message_step env user_token payload_encryption dst_message =
     (case dst_message of
        Inl e \<Rightarrow> ret None
      | Inr dst_message \<Rightarrow>
          bnd (proxy_uuid env) (\<lambda>uuid.
          case generate_proxy_tcp_data_message uuid user_token payload_encryption dst_message of
            Inl e \<Rightarrow> ret None
          | Inr tcp_data_message \<Rightarrow> ret (Some tcp_data_message)))"

definition dst_to_agent_task ::
  "proxy_env \<Rightarrow> string \<Rightarrow> PpaassMessagePayloadEncryption \<Rightarrow> (unit, unit) proxy" where
  "dst_to_agent_task env user_token payload_encryption = (\<lambda>w.
     bnd (logged (map_while_forward (dst_message_step env user_token payload_encryption) agent_send (dst_in w))) (\<lambda>_.
     bnd fetch_sub_1 (\<lambda>_.
     logged agent_close)) (w\<lparr>dst_in := []\<rparr>))"

text \<open>\<open>exec\<close>: when it returns \<open>Ok\<close> the two tasks have been spawned.\<close>

definition tcp_handler_exec :: "proxy_env \<Rightarrow> TcpHandlerRequest \<Rightarrow> (ProxyServerError, unit) proxy" where
  "tcp_handler_exec env req = (\<lambda>w.
     case init_dst_connection env (th_transport_id req) (th_dst_address req) w of
       (Inl Panic, w) \<Rightarrow> (Inl Panic, w)
     | (Inl (Err e), w) \<Rightarrow>
         bnd (proxy_uuid env) (\<lambda>uuid.
         bnd (try_res ProxyCommon (generate_proxy_tcp_init_message uuid (th_user_token req)
               (th_src_address req) (th_dst_address req) (th_payload_encryption req)
               (Fail CanNotConnectToDestination))) (\<lambda>tcp_init_fail_message.
         bnd (map_err ProxyCommon (agent_send tcp_init_fail_message)) (\<lambda>_.
         throw e))) w
     | (Inr _, w) \<Rightarrow>
         bnd (proxy_uuid env) (\<lambda>uuid.
         bnd (try_res ProxyCommon (generate_proxy_tcp_init_message uuid (th_user_token req)
               (th_src_address req) (th_dst_address req) (th_payload_encryption req)
               (Success (th_transport_id req)))) (\<lambda>tcp_init_success_message.
         map_err ProxyCommon (agent_send tcp_init_success_message))) w)"

section \<open>Properties\<close>

lemma init_dst_connection_outcome:
  "init_dst_connection env t dst w = (r, w') \<Longrightarrow>
    (\<exists>ds. w' = w\<lparr>dst_dialled := ds\<rparr>) \<and> r \<noteq> Inl Panic"
  by (auto simp: init_dst_connection_def rust_defs dst_connect_def intro!: exI [of _ "dst_dialled w'"]
      split: sum.splits dst_dial.splits option.splits)

text \<open>C22: Unless the agent's connection fails, the agent gets exactly one answer to its init request, with its user token and addresses and the transport's encryption: success with the transport's id when the destination is connected, the failure reason when it is not; and the handler reports an error in exactly that case.\<close>

theorem tcp_init_answered:
  assumes "agent_fault w = None"
  shows "\<exists>result w'. tcp_handler_exec env req w = (result, w')
    \<and> agent_out w' = agent_out w @ [\<lparr>pm_message_id = pnew_v4 env (pdraws w), pm_user_token = th_user_token req,
        pm_encryption = th_payload_encryption req,
        pm_payload = ProxyTcp (ProxyTcpInit (th_src_address req) (th_dst_address req)
          (case fst (init_dst_connection env (th_transport_id req) (th_dst_address req) w) of
             Inr _ \<Rightarrow> Success (th_transport_id req)
           | Inl _ \<Rightarrow> Fail CanNotConnectToDestination))\<rparr>]
    \<and> result = fst (init_dst_connection env (th_transport_id req) (th_dst_address req) w)
    \<and> dst_out w' = dst_out w \<and> transport_number w' = transport_number w"
proof -
  obtain r w1 where init: "init_dst_connection env (th_transport_id req) (th_dst_address req) w = (r, w1)"
    by (metis prod.exhaust)
  from init_dst_connection_outcome [OF init] obtain ds where
    w1: "w1 = w\<lparr>dst_dialled := ds\<rparr>" and "r \<noteq> Inl Panic"
    by blast
  then consider e where "r = Inl (Err e)" | "r = Inr ()"
    by (metis failure.exhaust old.unit.exhaust sum.exhaust)
  then show ?thesis
    using assms by cases (auto simp: tcp_handler_exec_def init w1 rust_defs agent_send_def proxy_uuid_def
        generator_defs)
qed

fun agent_data_prefix :: "proxy_env \<Rightarrow> (CommonError + PpaassAgentMessage) list \<Rightarrow> bytes list" where
  "agent_data_prefix env [] = []"
| "agent_data_prefix env (m # ms) =
     (case agent_message_step env m of None \<Rightarrow> [] | Some content \<Rightarrow> content # agent_data_prefix env ms)"

lemma forward_agent_messages:
  assumes "dst_fault w = None"
  shows "map_while_forward (\<lambda>m. ret (agent_message_step env m)) dst_write ms w =
    (Inr (), w\<lparr>dst_out := dst_out w @ concat (agent_data_prefix env ms)\<rparr>)"
  using assms
proof (induction ms arbitrary: w)
  case (Cons m ms)
  show ?case
  proof (cases "agent_message_step env m")
    case (Some content)
    then show ?thesis
      using Cons.prems Cons.IH [of "w\<lparr>dst_out := dst_out w @ content\<rparr>"]
      by (simp add: rust_defs dst_write_def)
  qed (simp add: rust_defs)
qed (simp add: ret_def)

text \<open>C26: The task from the agent to the destination writes the contents of the agent's TCP data messages, in order, up to the end, the first error or the first message of another kind, then closes the destination's connection; nothing else changes.\<close>

theorem agent_to_dst_forwards:
  assumes "dst_fault w = None"
  shows "agent_to_dst_task env w =
    (Inr (), w\<lparr>agent_in := [], dst_out := dst_out w @ concat (agent_data_prefix env (agent_in w)),
      dst_closed := True\<rparr>)"
  using assms
  by (simp add: agent_to_dst_task_def logged_def bnd_def forward_agent_messages dst_close_def)
    (simp add: ret_def)

fun proxy_data_messages ::
  "proxy_env \<Rightarrow> string \<Rightarrow> PpaassMessagePayloadEncryption \<Rightarrow> nat \<Rightarrow> reads \<Rightarrow> PpaassProxyMessage list" where
  "proxy_data_messages env user_token enc n [] = []"
| "proxy_data_messages env user_token enc n (Inl e # cs) = []"
| "proxy_data_messages env user_token enc n (Inr c # cs) =
     \<lparr>pm_message_id = pnew_v4 env n, pm_user_token = user_token, pm_encryption = enc,
      pm_payload = ProxyTcp (ProxyTcpData c)\<rparr> # proxy_data_messages env user_token enc (Suc n) cs"

lemma logged_agent_close: "logged agent_close w = (Inr (), w\<lparr>agent_closed := True\<rparr>)"
  by (simp add: logged_def agent_close_def throw_def ret_def split: option.split)

lemma forward_dst_chunk:
  "map_while_forward (dst_message_step env u enc) agent_send (Inr b # cs) w =
    (case agent_fault w of
       Some e \<Rightarrow> (Inl (Err e), w\<lparr>pdraws := Suc (pdraws w)\<rparr>)
     | None \<Rightarrow> map_while_forward (dst_message_step env u enc) agent_send cs
         (w\<lparr>pdraws := Suc (pdraws w), agent_out := agent_out w @
            [\<lparr>pm_message_id = pnew_v4 env (pdraws w), pm_user_token = u, pm_encryption = enc,
              pm_payload = ProxyTcp (ProxyTcpData b)\<rparr>]\<rparr>))"
  by (simp add: dst_message_step_def rust_defs proxy_uuid_def generator_defs agent_send_def split: option.split)

lemma forward_dst_end:
  "map_while_forward (dst_message_step env u enc) agent_send (Inl e # cs) w = (Inr (), w)"
  by (simp add: dst_message_step_def rust_defs)

lemma forward_dst_chunks:
  assumes "agent_fault w = None"
  shows "map_while_forward (dst_message_step env u enc) agent_send cs w =
    (Inr (), w\<lparr>agent_out := agent_out w @ proxy_data_messages env u enc (pdraws w) cs,
       pdraws := pdraws w + length (proxy_data_messages env u enc (pdraws w) cs)\<rparr>)"
  using assms
proof (induction cs arbitrary: w)
  case (Cons x cs)
  show ?case
  proof (cases x)
    case (Inl e)
    then show ?thesis
      by (simp add: dst_message_step_def rust_defs)
  next
    case (Inr b)
    let ?m = "\<lparr>pm_message_id = pnew_v4 env (pdraws w), pm_user_token = u, pm_encryption = enc,
      pm_payload = ProxyTcp (ProxyTcpData b)\<rparr>"
    let ?w = "w\<lparr>pdraws := Suc (pdraws w), agent_out := agent_out w @ [?m]\<rparr>"
    have "map_while_forward (dst_message_step env u enc) agent_send (x # cs) w =
        map_while_forward (dst_message_step env u enc) agent_send cs ?w"
      using Cons.prems Inr by (simp only: forward_dst_chunk option.case)
    then show ?thesis
      using Cons.IH [of ?w] Inr Cons.prems by simp
  qed
qed (simp add: ret_def)

lemma dst_to_agent_effect:
  shows "\<exists>w'. dst_to_agent_task env u enc w = (Inr (), w')
    \<and> transport_number w' = transport_number w - 1 \<and> agent_closed w'
    \<and> (case agent_fault w of Some e \<Rightarrow> True
       | None \<Rightarrow> agent_out w' = agent_out w @ proxy_data_messages env u enc (pdraws w) (dst_in w))"
proof -
  have frame: "\<exists>r w1. map_while_forward (dst_message_step env u enc) agent_send cs v = (r, w1)
      \<and> r \<noteq> Inl Panic \<and> transport_number w1 = transport_number v" for cs v
  proof (induction cs arbitrary: v)
    case (Cons x cs)
    show ?case
    proof (cases x)
      case (Inr b)
      let ?v = "v\<lparr>pdraws := Suc (pdraws v), agent_out := agent_out v @
        [\<lparr>pm_message_id = pnew_v4 env (pdraws v), pm_user_token = u, pm_encryption = enc,
          pm_payload = ProxyTcp (ProxyTcpData b)\<rparr>]\<rparr>"
      show ?thesis
        using Cons.IH [of ?v] by (cases "agent_fault v") (simp_all add: Inr forward_dst_chunk del: map_while_forward.simps)
    qed (simp add: forward_dst_end del: map_while_forward.simps)
  qed (simp add: ret_def)
  obtain r w1 where fwd: "map_while_forward (dst_message_step env u enc) agent_send (dst_in w) (w\<lparr>dst_in := []\<rparr>)
      = (r, w1)" "r \<noteq> Inl Panic" "transport_number w1 = transport_number w"
    using frame [of "dst_in w" "w\<lparr>dst_in := []\<rparr>"] by auto
  then have log: "logged (map_while_forward (dst_message_step env u enc) agent_send (dst_in w)) (w\<lparr>dst_in := []\<rparr>)
      = (Inr (), w1)"
    by (simp add: logged_def split: sum.split failure.split)
  have "agent_out w1 = agent_out w @ proxy_data_messages env u enc (pdraws w) (dst_in w)"
    if "agent_fault w = None"
    using forward_dst_chunks [of "w\<lparr>dst_in := []\<rparr>" env u enc "dst_in w"] that fwd(1) by auto
  moreover have "dst_to_agent_task env u enc w =
      (Inr (), w1\<lparr>transport_number := transport_number w1 - 1, agent_closed := True\<rparr>)"
    unfolding dst_to_agent_task_def bnd_def log by (simp add: fetch_sub_1_def logged_agent_close)
  ultimately show ?thesis
    using fwd(3) by (simp split: option.split)
qed

lemma dst_to_agent_count:
  "\<exists>w'. dst_to_agent_task env u enc w = (Inr (), w') \<and> transport_number w' = transport_number w - 1"
  using dst_to_agent_effect by blast

text \<open>C27: The task from the destination to the agent sends every chunk the destination yields before its end or first error, in order, each as one TCP data message of the transport's user; it then counts the transport out exactly once and closes the agent's connection, also when sending or closing failed.\<close>

theorem dst_to_agent_forwards:
  shows "\<exists>w'. dst_to_agent_task env u enc w = (Inr (), w')
    \<and> transport_number w' = transport_number w - 1 \<and> agent_closed w'
    \<and> (case agent_fault w of Some e \<Rightarrow> True
       | None \<Rightarrow> agent_out w' = agent_out w @ proxy_data_messages env u enc (pdraws w) (dst_in w))"
  by (rule dst_to_agent_effect)

end
