(* ===== verification/UdpHandler.thy ===== *)
theory UdpHandler
  imports ProxyNet
begin

text \<open>\<open>proxy/src/transport/udp.rs\<close>: one datagram to the destination and its answer back.\<close>

definition MAX_UDP_PACKET_SIZE :: nat where
  "MAX_UDP_PACKET_SIZE = 65535"

record UdpHandlerRequest =
  uh_transport_id :: string
  uh_user_token :: string
  uh_src_address :: PpaassUnifiedAddress
  uh_dst_address :: PpaassUnifiedAddress
  uh_udp_data :: bytes
  uh_payload_encryption :: PpaassMessagePayloadEncryption
  uh_need_response :: bool

definition udp_timeout_text :: "string \<Rightarrow> string \<Rightarrow> PpaassUnifiedAddress \<Rightarrow> u64 \<Rightarrow> string" where
  "udp_timeout_text transport_id what dst_address seconds =
     ''Transport '' @ transport_id @ what @ show_unified dst_address @ ''] timeout in [''
       @ dec (unat seconds) @ ''] seconds.''"

text \<open>
  The receiving loop: it stops at an empty datagram or one shorter than the buffer, and on its
  error paths; the bytes gathered so far are the argument.  Each turn takes one event of the
  script, and when the script is empty the next receive runs into its timeout, so the loop
  always ends.
\<close>

function udp_recv_loop ::
  "proxy_env \<Rightarrow> string \<Rightarrow> PpaassUnifiedAddress \<Rightarrow> bytes \<Rightarrow> (ProxyServerError, bytes) proxy" where
  "udp_recv_loop env transport_id dst_address udp_data w =
     (case udp_recv_timeout MAX_UDP_PACKET_SIZE w of
        (Inl f, w') \<Rightarrow> (Inl f, w')
      | (Inr RecvTimeout, w') \<Rightarrow>
          bnd (logged agent_close) (\<lambda>_.
          throw (ProxyOther (udp_timeout_text transport_id '' receive data from destination udp socket ['' dst_address
            (proxy_get_dst_udp_recv_timeout (pconfig env))))) w'
      | (Inr (RecvError e), w') \<Rightarrow> throw (StdIo e) w'
      | (Inr (RecvBytes bs), w') \<Rightarrow>
          if bs = [] then ret udp_data w'
          else
            let udp_data = udp_data @ bs in
            if length bs < MAX_UDP_PACKET_SIZE then ret udp_data w'
            else udp_recv_loop env transport_id dst_address udp_data w')"
  by pat_completeness auto
termination
  by (relation "measure (\<lambda>(env, t, dst, d, w). length (udp_in w))")
    (auto simp: udp_recv_timeout_def split: list.splits udp_recv.splits)

declare udp_recv_loop.simps [simp del]

definition udp_handler_exec :: "proxy_env \<Rightarrow> UdpHandlerRequest \<Rightarrow> (ProxyServerError, unit) proxy" where
  "udp_handler_exec env req =
     (let transport_id = uh_transport_id req; dst_address = uh_dst_address req in
     bnd (map_err StdIo udp_socket_bind) (\<lambda>_.
     bnd (try_res StdIo (collect_socket_addrs (presolve_name env) dst_address)) (\<lambda>dst_socket_addrs.
     bnd (udp_connect dst_socket_addrs) (\<lambda>d.
     case d of
       UdpTimeout \<Rightarrow>
         bnd (logged agent_close) (\<lambda>_.
         throw (ProxyOther (udp_timeout_text transport_id '' connect to destination udp socket ['' dst_address
           (proxy_get_dst_udp_connect_timeout (pconfig env)))))
     | UdpError e \<Rightarrow> bnd (logged agent_close) (\<lambda>_. throw (StdIo e))
     | UdpConnected \<Rightarrow> (\<lambda>w.
         case udp_send (uh_udp_data req) w of
           (Inl Panic, w) \<Rightarrow> (Inl Panic, w)
         | (Inl (Err e), w) \<Rightarrow> bnd (logged agent_close) (\<lambda>_. throw (StdIo e)) w
         | (Inr _, w) \<Rightarrow>
             if \<not> uh_need_response req then logged agent_close w
             else
               bnd (udp_recv_loop env transport_id dst_address []) (\<lambda>udp_data.
               if udp_data = [] then logged agent_close
               else
                 bnd (proxy_uuid env) (\<lambda>uuid.
                 bnd (try_res ProxyCommon (generate_proxy_udp_data_message uuid (uh_user_token req)
                       (uh_payload_encryption req) (uh_src_address req) dst_address udp_data))
                   (\<lambda>udp_data_message.
                 bnd (logged (agent_send udp_data_message)) (\<lambda>_.
                 logged agent_close)))) w)))))"

section \<open>Properties\<close>

lemma logged_close [simp]: "logged agent_close w = (Inr (), w\<lparr>agent_closed := True\<rparr>)"
  by (simp add: logged_def agent_close_def throw_def ret_def split: option.split)

lemma logged_send [simp]:
  "logged (agent_send m) w = (Inr (), if agent_fault w = None then w\<lparr>agent_out := agent_out w @ [m]\<rparr> else w)"
  by (simp add: logged_def agent_send_def throw_def ret_def split: option.split)

text \<open>
  The datagrams the loop joins: those that fill the buffer, and the first that does not.
\<close>

fun joined :: "udp_recv list \<Rightarrow> bytes option" where
  "joined [] = None"
| "joined (RecvBytes bs # es) =
     (if length bs < 65535 then Some bs else map_option (\<lambda>r. take 65535 bs @ r) (joined es))"
| "joined (e # es) = None"

lemma udp_recv_loop_joined:
  "(case joined (udp_in w) of
      Some bs \<Rightarrow> fst (udp_recv_loop env t dst d w) = Inr (d @ bs)
    | None \<Rightarrow> \<exists>e. fst (udp_recv_loop env t dst d w) = Inl (Err e))
   \<and> (\<exists>es c. snd (udp_recv_loop env t dst d w) = w\<lparr>udp_in := es, agent_closed := c\<rparr>)"
proof (induction env t dst d w rule: udp_recv_loop.induct)
  case (1 env t dst d w)
  show ?case
  proof (cases "udp_in w")
    case Nil
    then show ?thesis
      by (subst (1 2 3) udp_recv_loop.simps)
        (auto simp: udp_recv_timeout_def bnd_def throw_def intro!: exI [of _ "[]"] exI [of _ True])
  next
    case (Cons e es)
    show ?thesis
    proof (cases e)
      case RecvTimeout
      with Cons show ?thesis
        by (subst (1 2 3) udp_recv_loop.simps)
          (auto simp: udp_recv_timeout_def bnd_def throw_def intro!: exI [of _ es] exI [of _ True])
    next
      case (RecvError x)
      with Cons show ?thesis
        by (subst (1 2 3) udp_recv_loop.simps)
          (auto simp: udp_recv_timeout_def throw_def intro!: exI [of _ es] exI [of _ "agent_closed w"])
    next
      case (RecvBytes bs)
      show ?thesis
      proof (cases "length bs < 65535")
        case True
        with Cons RecvBytes show ?thesis
          by (subst (1 2 3) udp_recv_loop.simps)
            (auto simp: udp_recv_timeout_def ret_def MAX_UDP_PACKET_SIZE_def Let_def
              intro!: exI [of _ es] exI [of _ "agent_closed w"])
      next
        case False
        let ?bs = "take 65535 bs" and ?w = "w\<lparr>udp_in := es\<rparr>"
        have recv: "udp_recv_timeout MAX_UDP_PACKET_SIZE w = (Inr (RecvBytes ?bs), ?w)"
          using Cons RecvBytes by (simp add: udp_recv_timeout_def MAX_UDP_PACKET_SIZE_def)
        have full: "?bs \<noteq> []" "\<not> length ?bs < MAX_UDP_PACKET_SIZE"
          using False by (auto simp: MAX_UDP_PACKET_SIZE_def)
        have step: "udp_recv_loop env t dst d w = udp_recv_loop env t dst (d @ ?bs) ?w"
          using full by (subst udp_recv_loop.simps) (simp add: recv Let_def del: take_eq_Nil)
        have "joined (udp_in w) = map_option (\<lambda>r. ?bs @ r) (joined es)"
          using Cons RecvBytes False by simp
        then show ?thesis
          using "1.IH" [OF recv [symmetric] refl refl full(1) refl full(2)]
          by (auto simp: step split: option.splits)
      qed
    qed
  qed
qed

text \<open>What the handler does once the datagram is out and an answer is wanted.\<close>

lemma udp_answer_cases:
  assumes "udp_recv_loop env t dst [] w = (r, w1)"
  shows "\<exists>es c. w1 = w\<lparr>udp_in := es, agent_closed := c\<rparr> \<and>
    (case joined (udp_in w) of Some bs \<Rightarrow> r = Inr bs | None \<Rightarrow> \<exists>e. r = Inl (Err e))"
  using udp_recv_loop_joined [where env = env and t = t and dst = dst and d = "[]" and w = w] assms
  by (auto split: option.splits)

lemma udp_handler_frame:
  "transport_number (snd (udp_handler_exec env req w)) = transport_number w
   \<and> fst (udp_handler_exec env req w) \<noteq> Inl Panic"
proof -
  let ?run = "\<lambda>ds us. udp_recv_loop env (uh_transport_id req) (uh_dst_address req) []
      (w\<lparr>udp_dialled := ds, udp_sent := us\<rparr>)"
  define r where "r ds us = fst (?run ds us)" for ds us
  define w1 where "w1 ds us = snd (?run ds us)" for ds us
  have loop: "?run ds us = (r ds us, w1 ds us)" for ds us
    by (simp add: r_def w1_def)
  have w1: "\<exists>es c. w1 ds us = w\<lparr>udp_dialled := ds, udp_sent := us, udp_in := es, agent_closed := c\<rparr>"
    "r ds us \<noteq> Inl Panic" for ds us
    using udp_answer_cases [OF loop [where ds = ds and us = us]] by (auto split: option.splits)
  have n: "transport_number (w1 ds us) = transport_number w" for ds us
    using w1(1) [where ds = ds and us = us] by auto
  show ?thesis
    using w1(2)
    by (auto simp: udp_handler_exec_def Let_def bnd_def map_err_def try_res_def throw_def ret_def
        udp_socket_bind_def udp_connect_def udp_send_def proxy_uuid_def loop n generator_defs
        split: option.splits sum.splits udp_dial.splits failure.splits)
qed

lemma udp_exchange_run:
  assumes "udp_bind_fault w = None"
    and "collect_socket_addrs (presolve_name env) (uh_dst_address req) = Inr addrs"
    and "udp_dial_outcome w = UdpConnected" "udp_write_fault w = None" "agent_fault w = None"
  shows "\<exists>r w'. udp_handler_exec env req w = (r, w')
    \<and> udp_sent w' = udp_sent w @ [uh_udp_data req]
    \<and> udp_dialled w' = udp_dialled w @ [addrs]
    \<and> (let answer = (if uh_need_response req then joined (udp_in w) else Some []) in
       (case answer of
          Some bs \<Rightarrow> r = Inr () \<and> agent_closed w'
            \<and> agent_out w' = agent_out w @ (if bs = [] then [] else
               [\<lparr>pm_message_id = pnew_v4 env (pdraws w), pm_user_token = uh_user_token req,
                 pm_encryption = uh_payload_encryption req,
                 pm_payload = ProxyUdp \<lparr>pu_src_address = uh_src_address req,
                   pu_dst_address = uh_dst_address req, pu_data = bs\<rparr>\<rparr>])
        | None \<Rightarrow> (\<exists>e. r = Inl (Err e)) \<and> agent_out w' = agent_out w))"
proof -
  let ?w = "w\<lparr>udp_dialled := udp_dialled w @ [addrs], udp_sent := udp_sent w @ [uh_udp_data req]\<rparr>"
  obtain r w1 where loop: "udp_recv_loop env (uh_transport_id req) (uh_dst_address req) [] ?w = (r, w1)"
    by (metis prod.exhaust)
  from udp_answer_cases [OF loop] obtain es c where
    w1: "w1 = ?w\<lparr>udp_in := es, agent_closed := c\<rparr>"
    and r: "case joined (udp_in w) of Some bs \<Rightarrow> r = Inr bs | None \<Rightarrow> \<exists>e. r = Inl (Err e)"
    by auto
  have sent: "udp_handler_exec env req w =
      (if \<not> uh_need_response req then logged agent_close ?w
       else bnd (udp_recv_loop env (uh_transport_id req) (uh_dst_address req) []) (\<lambda>udp_data.
               if udp_data = [] then logged agent_close
               else
                 bnd (proxy_uuid env) (\<lambda>uuid.
                 bnd (try_res ProxyCommon (generate_proxy_udp_data_message uuid (uh_user_token req)
                       (uh_payload_encryption req) (uh_src_address req) (uh_dst_address req) udp_data))
                   (\<lambda>udp_data_message.
                 bnd (logged (agent_send udp_data_message)) (\<lambda>_.
                 logged agent_close)))) ?w)"
    using assms by (simp add: udp_handler_exec_def Let_def bnd_def map_err_def try_res_def ret_def
        udp_socket_bind_def udp_connect_def udp_send_def)
  show ?thesis
    using r assms(5)
    by (auto simp: sent bnd_def loop w1 proxy_uuid_def try_res_def ret_def generator_defs Let_def
        split: option.splits)
qed


end
