(* ===== verification/ProxyServer.thy ===== *)
theory ProxyServer
  imports TcpHandler UdpHandler
begin

text \<open>
  \<open>proxy/src/transport/mod.rs\<close> and \<open>proxy/src/server.rs\<close>: what a transport does with the first
  message of its agent, and the server that spawns transports and counts them.
\<close>

section \<open>A transport\<close>

definition transport_new :: "proxy_env \<Rightarrow> ('e, string) proxy" where
  "transport_new env = proxy_uuid env"

text \<open>
  \<open>exec\<close>; the result is what the two relay tasks it has spawned need, or \<open>None\<close> when it has
  spawned none.
\<close>

definition transport_exec ::
  "proxy_env \<Rightarrow> string \<Rightarrow> (ProxyServerError, (string \<times> PpaassMessagePayloadEncryption) option) proxy" where
  "transport_exec env transport_id =
     bnd agent_next (\<lambda>agent_message.
     case agent_message of
       None \<Rightarrow> ret None
     | Some (Inl e) \<Rightarrow> throw (ProxyCommon e)
     | Some (Inr agent_message) \<Rightarrow>
     bnd (proxy_random_32_bytes env) (\<lambda>random.
     let user_token = am_user_token agent_message;
         payload_encryption = encryption_select user_token (Some random) in
     (case am_payload agent_message of
        AgentTcp (AgentTcpData content) \<Rightarrow>
          throw (ProxyOther (''Transport '' @ transport_id
            @ '' expect to receive tcp init message but it is not''))
      | AgentTcp (AgentTcpInit src_address dst_address) \<Rightarrow> (\<lambda>w.
          case tcp_handler_exec env
                 \<lparr>th_transport_id = transport_id, th_user_token = user_token, th_src_address = src_address,
                  th_dst_address = dst_address, th_payload_encryption = payload_encryption\<rparr> w of
            (Inl Panic, w) \<Rightarrow> (Inl Panic, w)
          | (Inl (Err e), w) \<Rightarrow> bnd fetch_sub_1 (\<lambda>_. ret None) w
          | (Inr _, w) \<Rightarrow> ret (Some (user_token, payload_encryption)) w)
      | AgentUdp p \<Rightarrow> (\<lambda>w.
          case udp_handler_exec env
                 \<lparr>uh_transport_id = transport_id, uh_user_token = user_token,
                  uh_src_address = au_src_address p, uh_dst_address = au_dst_address p,
                  uh_udp_data = au_data p, uh_payload_encryption = payload_encryption,
                  uh_need_response = au_need_response p\<rparr> w of
            (Inl Panic, w) \<Rightarrow> (Inl Panic, w)
          | (Inl (Err e), w) \<Rightarrow> bnd fetch_sub_1 (\<lambda>_. throw e) w
          | (Inr _, w) \<Rightarrow> bnd fetch_sub_1 (\<lambda>_. ret None) w))))"

text \<open>The body of the task \<open>start\<close> spawns for an accepted connection.\<close>

definition serve_agent ::
  "proxy_env \<Rightarrow> (ProxyServerError, (string \<times> PpaassMessagePayloadEncryption) option) proxy" where
  "serve_agent env =
     bnd fetch_add_1 (\<lambda>_.
     bnd (transport_new env) (\<lambda>transport_id.
     transport_exec env transport_id))"

section \<open>The server\<close>

definition proxy_bind_addr :: "ProxyConfig \<Rightarrow> string" where
  "proxy_bind_addr conf =
     (if proxy_get_ipv6 conf then ''[::]:'' @ dec (unat (proxy_get_port conf))
      else ''0.0.0.0:'' @ dec (unat (proxy_get_port conf)))"

text \<open>An accept fails, or yields a connection with the outcomes of \<open>set_linger\<close> and \<open>set_nodelay\<close>.\<close>

type_synonym agent_accept = "io_error + (io_error option \<times> io_error option \<times> SocketAddr)"

definition accept_agent_connection :: "agent_accept \<Rightarrow> ProxyServerError + SocketAddr" where
  "accept_agent_connection outcome =
     (case outcome of
        Inl e \<Rightarrow> Inl (StdIo e)
      | Inr (Some e, _, agent_socket_address) \<Rightarrow> Inl (StdIo e)
      | Inr (None, Some e, agent_socket_address) \<Rightarrow> Inl (StdIo e)
      | Inr (None, None, agent_socket_address) \<Rightarrow> Inr agent_socket_address)"

fun proxy_accept_loop :: "agent_accept list \<Rightarrow> SocketAddr list" where
  "proxy_accept_loop [] = []"
| "proxy_accept_loop (outcome # outcomes) =
     (case accept_agent_connection outcome of
        Inl e \<Rightarrow> proxy_accept_loop outcomes
      | Inr agent_socket_address \<Rightarrow> agent_socket_address # proxy_accept_loop outcomes)"

text \<open>As on the agent: the connections a task has been spawned for by the end of the script.\<close>

definition proxy_server_start ::
  "ProxyConfig \<Rightarrow> (string \<Rightarrow> io_error + unit) \<Rightarrow> agent_accept list \<Rightarrow> ProxyServerError + SocketAddr list" where
  "proxy_server_start conf bind_tcp outcomes =
     (case bind_tcp (proxy_bind_addr conf) of
        Inl e \<Rightarrow> Inl (StdIo e)
      | Inr _ \<Rightarrow> Inr (proxy_accept_loop outcomes))"

section \<open>The count of transports as a state machine\<close>

text \<open>
  Tasks interleave at their atomic operations on the counter.  The state is the counter and, as
  ghost state, how many tasks are before the end of \<open>exec\<close>, how many transports relay, and how
  many are gone without having been counted out.  A transport that \<open>exec\<close> leaves without
  counting it out is one whose first message never came, was an error, or was TCP data.
\<close>

fun uncounted :: "(CommonError + PpaassAgentMessage) list \<Rightarrow> bool" where
  "uncounted [] = True"
| "uncounted (Inl e # ms) = True"
| "uncounted (Inr m # ms) =
     (case am_payload m of AgentTcp (AgentTcpData content) \<Rightarrow> True | _ \<Rightarrow> False)"

record proxy_server =
  number :: u64
  starting :: nat
  relaying :: nat
  leaked :: nat

definition server_new :: proxy_server where
  "server_new = \<lparr>number = 0, starting = 0, relaying = 0, leaked = 0\<rparr>"

inductive server_step :: "proxy_env \<Rightarrow> proxy_server \<Rightarrow> proxy_server \<Rightarrow> bool" for env where
  accept: "transport_number w = number s \<Longrightarrow> (fetch_add_1 :: (unit, unit) proxy) w = (Inr (), w') \<Longrightarrow>
    server_step env s (s\<lparr>number := transport_number w', starting := Suc (starting s)\<rparr>)"
| exec_relays: "transport_number w = number s \<Longrightarrow> starting s = Suc n \<Longrightarrow>
    transport_exec env transport_id w = (Inr (Some tasks), w') \<Longrightarrow>
    server_step env s (s\<lparr>number := transport_number w', starting := n, relaying := Suc (relaying s)\<rparr>)"
| exec_ends: "transport_number w = number s \<Longrightarrow> starting s = Suc n \<Longrightarrow>
    transport_exec env transport_id w = (r, w') \<Longrightarrow> (\<And>tasks. r \<noteq> Inr (Some tasks)) \<Longrightarrow>
    server_step env s (s\<lparr>number := transport_number w', starting := n,
      leaked := leaked s + (if uncounted (agent_in w) then 1 else 0)\<rparr>)"
| relay_ends: "transport_number w = number s \<Longrightarrow> relaying s = Suc n \<Longrightarrow>
    dst_to_agent_task env user_token enc w = (Inr (), w') \<Longrightarrow>
    server_step env s (s\<lparr>number := transport_number w', relaying := n\<rparr>)"

inductive_cases server_stepE: "server_step env s s'"

section \<open>Properties\<close>

lemma tcp_handler_frame:
  "transport_number (snd (tcp_handler_exec env req w)) = transport_number w
   \<and> fst (tcp_handler_exec env req w) \<noteq> Inl Panic"
proof -
  obtain r w1 where init: "init_dst_connection env (th_transport_id req) (th_dst_address req) w = (r, w1)"
    by (metis prod.exhaust)
  from init_dst_connection_outcome [OF init] show ?thesis
    by (auto simp: tcp_handler_exec_def init rust_defs agent_send_def proxy_uuid_def generator_defs
        split: sum.splits failure.splits option.splits)
qed

text \<open>What \<open>exec\<close> does to the counter, in every run.\<close>

lemma transport_exec_count:
  assumes "transport_exec env t w = (r, w')"
  shows "transport_number w' =
    (if uncounted (agent_in w) \<or> (\<exists>tasks. r = Inr (Some tasks)) then transport_number w
     else transport_number w - 1)"
    and "uncounted (agent_in w) \<Longrightarrow> r \<noteq> Inr (Some tasks)" and "r \<noteq> Inl Panic"
proof -
  have tcp: "tcp_handler_exec env req v = (x, v') \<Longrightarrow> transport_number v' = transport_number v \<and> x \<noteq> Inl Panic"
    for req v x v'
    using tcp_handler_frame [of env req v] by simp
  have udp: "udp_handler_exec env req v = (x, v') \<Longrightarrow> transport_number v' = transport_number v \<and> x \<noteq> Inl Panic"
    for req v x v'
    using udp_handler_frame [of env req v] by simp
  note defs = transport_exec_def bnd_def agent_next_def ret_def throw_def proxy_random_32_bytes_def
    fetch_sub_1_def Let_def
  show "transport_number w' =
    (if uncounted (agent_in w) \<or> (\<exists>tasks. r = Inr (Some tasks)) then transport_number w
     else transport_number w - 1)"
    and "uncounted (agent_in w) \<Longrightarrow> r \<noteq> Inr (Some tasks)" and "r \<noteq> Inl Panic"
    using assms
    by (auto simp: defs dest!: tcp udp split: list.splits sum.splits PpaassAgentMessagePayload.splits
        AgentTcpPayload.splits prod.splits failure.splits)
qed


text \<open>C18: In every interleaving of accepts, transports and relays, the counter is the number of transports that are starting or relaying plus those that left without being counted out (modulo two to the 64th): it never runs below zero, and when all transports have ended it shows how many were leaked.\<close>

theorem server_counter_invariant:
  assumes "(server_step env)\<^sup>*\<^sup>* server_new s"
  shows "number s = word_of_nat (starting s + relaying s + leaked s)"
  using assms
proof (induction rule: rtranclp_induct)
  case base
  then show ?case by (simp add: server_new_def)
next
  case (step s s')
  have relay: "transport_number w' = transport_number w - 1"
    if "dst_to_agent_task env u enc w = (Inr (), w')" for u enc w w'
    using that dst_to_agent_count [of env u enc w] by auto
  note count = transport_exec_count(1)
  from step.hyps(2) show ?case
    using step.IH
    by (elim server_stepE) (auto simp: fetch_add_1_def dest!: relay count)
qed

text \<open>
  The recursive functions and the machine agree: an agent's task run on its own, with the relay
  task that counts it out, is a path of the machine from any state with the same counter.
\<close>

definition serve_to_the_end :: "proxy_env \<Rightarrow> proxy_world \<Rightarrow> proxy_world" where
  "serve_to_the_end env w =
     (case serve_agent env w of
        (Inr (Some (user_token, enc)), w') \<Rightarrow> snd (dst_to_agent_task env user_token enc w' :: (unit failure + unit) \<times> proxy_world)
      | (_, w') \<Rightarrow> w')"

lemma serve_agent_exec:
  "serve_agent env w = transport_exec env (pnew_v4 env (pdraws w))
     (w\<lparr>transport_number := transport_number w + 1, pdraws := pdraws w + 1\<rparr>)"
  by (simp add: serve_agent_def transport_new_def proxy_uuid_def fetch_add_1_def bnd_def)

lemma serve_agent_path:
  assumes "serve_agent env w = (r, w')" and "number s = transport_number w"
  shows "\<exists>s1 s'. server_step env s s1 \<and> server_step env s1 s' \<and> number s' = transport_number w'
    \<and> starting s' = starting s
    \<and> relaying s' = (case r of Inr (Some tasks) \<Rightarrow> Suc (relaying s) | _ \<Rightarrow> relaying s)
    \<and> leaked s' = leaked s + (if uncounted (agent_in w) then 1 else 0)"
proof -
  define w1 where "w1 = w\<lparr>transport_number := transport_number w + 1, pdraws := pdraws w + 1\<rparr>"
  let ?s1 = "s\<lparr>number := transport_number w1, starting := Suc (starting s)\<rparr>"
  have exec: "transport_exec env (pnew_v4 env (pdraws w)) w1 = (r, w')"
    using assms(1) by (simp only: serve_agent_exec w1_def)
  have "server_step env s ?s1"
    using server_step.accept [of w s "w\<lparr>transport_number := transport_number w + 1\<rparr>" env] assms(2)
    by (simp add: fetch_add_1_def w1_def)
  moreover have "\<exists>s'. server_step env ?s1 s' \<and> number s' = transport_number w' \<and> starting s' = starting s
    \<and> relaying s' = (case r of Inr (Some tasks) \<Rightarrow> Suc (relaying s) | _ \<Rightarrow> relaying s)
    \<and> leaked s' = leaked s + (if uncounted (agent_in w) then 1 else 0)"
  proof (cases "\<exists>tasks. r = Inr (Some tasks)")
    case True
    then obtain tasks where r: "r = Inr (Some tasks)" ..
    then have "\<not> uncounted (agent_in w)"
      using transport_exec_count(2) [OF exec, of tasks] by (cases "uncounted (agent_in w)") (simp_all add: w1_def)
    with r server_step.exec_relays [OF _ _ exec [unfolded r], of ?s1 "starting s"] show ?thesis
      by (intro exI conjI) (assumption | simp)+
  next
    case False
    then have "\<And>tasks. r \<noteq> Inr (Some tasks)"
      by blast
    note step = server_step.exec_ends [OF _ _ exec this, of ?s1 "starting s"]
    show ?thesis
      by (intro exI conjI, rule step)
        (use False in \<open>simp_all add: w1_def split: sum.split option.split\<close>)
  qed
  ultimately show ?thesis
    by blast
qed

text \<open>C19: what the server's functions do to the counter is what the machine allows.  From any state of the
  machine whose counter is the one an agent's task finds, serving that agent to its end, the relay
  included, is a path of the machine to a state with the counter the task leaves, with the same transports
  under way; and the counter is back where it was unless the agent was one that is never counted out.\<close>

theorem serving_refines_machine:
  assumes "number s = transport_number w"
  shows "\<exists>s'. (server_step env)\<^sup>+\<^sup>+ s s' \<and> number s' = transport_number (serve_to_the_end env w)
    \<and> starting s' = starting s \<and> relaying s' = relaying s
    \<and> leaked s' = leaked s + (if uncounted (agent_in w) then 1 else 0)
    \<and> number s' = number s + (if uncounted (agent_in w) then 1 else 0)"
proof -
  obtain r w' where run: "serve_agent env w = (r, w')"
    by fastforce
  obtain s1 s2 where path: "server_step env s s1" "server_step env s1 s2"
    and s2: "number s2 = transport_number w'" "starting s2 = starting s"
      "relaying s2 = (case r of Inr (Some tasks) \<Rightarrow> Suc (relaying s) | _ \<Rightarrow> relaying s)"
      "leaked s2 = leaked s + (if uncounted (agent_in w) then 1 else 0)"
    using serve_agent_path [OF run assms] by blast
  have two: "(server_step env)\<^sup>+\<^sup>+ s s2"
    using path by (meson tranclp.r_into_trancl tranclp.trancl_into_trancl)
  note count = transport_exec_count [OF run [unfolded serve_agent_exec]]
  show ?thesis
  proof (cases "\<exists>tasks. r = Inr (Some tasks)")
    case True
    then obtain u enc where r: "r = Inr (Some (u, enc))"
      by auto
    obtain w2 where w2: "dst_to_agent_task env u enc w' = (Inr () :: unit failure + unit, w2)"
        "transport_number w2 = transport_number w' - 1"
      using dst_to_agent_count by blast
    have "server_step env s2 (s2\<lparr>number := transport_number w2, relaying := relaying s\<rparr>)"
      using server_step.relay_ends [OF _ _ w2(1), of s2 "relaying s"] s2 r by simp
    with two have "(server_step env)\<^sup>+\<^sup>+ s (s2\<lparr>number := transport_number w2, relaying := relaying s\<rparr>)"
      by (rule tranclp.trancl_into_trancl)
    moreover have "serve_to_the_end env w = w2"
      using run r w2(1) by (simp add: serve_to_the_end_def)
    ultimately show ?thesis
      using s2 r w2(2) count(1,2) assms by (intro exI [of _ "s2\<lparr>number := transport_number w2, relaying := relaying s\<rparr>"]) auto
  next
    case False
    then have "serve_to_the_end env w = w'"
      using run by (auto simp: serve_to_the_end_def split: sum.split option.split)
    moreover have "relaying s2 = relaying s"
      using False s2(3) by (auto split: sum.split option.split)
    ultimately show ?thesis
      using two s2(1,2,4) count(1) False assms by (intro exI [of _ s2]) auto
  qed
qed

definition idle_world :: "u64 \<Rightarrow> proxy_world" where
  "idle_world n = \<lparr>agent_in = [], agent_out = [], agent_fault = None, agent_close_fault = None,
     agent_closed = False, dst_dial_outcome = DstTimeout, dst_dialled = [], dst_in = [], dst_out = [],
     dst_fault = None, dst_closed = False, udp_bind_fault = None, udp_dial_outcome = UdpTimeout,
     udp_dialled = [], udp_sent = [], udp_write_fault = None, udp_in = [], transport_number = n, pdraws = 0\<rparr>"

text \<open>C21: Connections that are opened and closed without a message are never counted out: for every n the server can reach a state in which no transport is alive and the counter is n.\<close>

theorem server_counter_leaks:
  "\<exists>s. (server_step env)\<^sup>*\<^sup>* server_new s \<and> starting s = 0 \<and> relaying s = 0 \<and> number s = word_of_nat n"
proof (induction n)
  case 0
  show ?case
    by (rule exI [of _ server_new]) (simp add: server_new_def)
next
  case (Suc n)
  then obtain s where s: "(server_step env)\<^sup>*\<^sup>* server_new s" "starting s = 0" "relaying s = 0"
      "number s = word_of_nat n"
    by blast
  let ?w = "idle_world (number s)" and ?v = "idle_world (number s + 1)"
  let ?s1 = "s\<lparr>number := number s + 1, starting := 1\<rparr>"
  let ?s2 = "s\<lparr>number := number s + 1, starting := 0, leaked := leaked s + 1\<rparr>"
  have one: "server_step env s ?s1"
    using server_step.accept [of ?w s ?v env] s(2)
    by (simp add: idle_world_def fetch_add_1_def)
  have "transport_exec env [] ?v = (Inr None, ?v)"
    by (simp add: transport_exec_def bnd_def agent_next_def ret_def idle_world_def)
  from server_step.exec_ends [OF _ _ this, of ?s1 0] have two: "server_step env ?s1 ?s2"
    using s(2) by (simp add: idle_world_def)
  from s(1) one two have "(server_step env)\<^sup>*\<^sup>* server_new ?s2"
    by (meson rtranclp.rtrancl_into_rtrancl)
  with s show ?case
    by (intro exI [of _ ?s2]) (simp add: add.commute)
qed

text \<open>The proxy's server outlives its agents: every connection that is accepted and set up gets a task, whatever failed before it.\<close>

lemma proxy_serves_all:
  assumes "bind_tcp (proxy_bind_addr conf) = Inr ()"
  shows "proxy_server_start conf bind_tcp outcomes =
    Inr (List.map_filter (\<lambda>x. case x of Inr (None, None, a) \<Rightarrow> Some a | _ \<Rightarrow> None) outcomes)"
proof -
  have "proxy_accept_loop outcomes =
      List.map_filter (\<lambda>x. case x of Inr (None, None, a) \<Rightarrow> Some a | _ \<Rightarrow> None) outcomes"
    by (induction outcomes)
      (auto simp: accept_agent_connection_def map_filter_simps split: sum.splits option.splits prod.splits)
  with assms show ?thesis
    by (simp add: proxy_server_start_def)
qed

end
