(* ===== verification/Tunnel.thy ===== *)
theory Tunnel
  imports Wire AgentRelay ProxyServer
begin

text \<open>
  The whole path: bytes of a client through the agent's task, the agent's codec, a connection
  that cuts the stream as it likes, the proxy's codec and the proxy's task to the destination,
  and back; first as a composition of complete runs, then as a state machine in which client,
  agent, proxy and destination act in any order.
\<close>

section \<open>Composition of the two tasks and the two codecs\<close>

text \<open>The messages a run of the agent's task adds to its connection.\<close>

definition new_messages :: "ProxyConnection \<Rightarrow> agent_world \<Rightarrow> agent_world \<Rightarrow> PpaassAgentMessage list" where
  "new_messages c w w' = drop (length (link_out (links w ! link c))) (link_out (links w' ! link c))"

lemma new_messages_forwarded:
  assumes "link c < length (links w)" and "link_fault (links w ! link c) = None"
    and "client_to_proxy_task env u enc c w = (Inr (), w')"
  shows "new_messages c w w' = agent_data_messages env u enc (draws w) (data_prefix (client_in w))"
  using assms
  by (auto simp: client_to_proxy_task_def logged_def bnd_def forward_client_chunks proxy_close_def ret_def
      update_link_def new_messages_def)

lemma agent_data_messages_user:
  "m \<in> set (agent_data_messages env u enc n cs) \<Longrightarrow> am_user_token m = u"
  by (induction cs arbitrary: n) auto

lemma agent_data_messages_contents:
  "list_all2 (\<lambda>m m'. m' = m\<lparr>am_encryption := am_encryption m'\<rparr>) (agent_data_messages env u enc n cs) xs
    \<Longrightarrow> agent_data_prefix penv (map Inr xs) = cs"
proof (induction cs arbitrary: n xs)
  case (Cons c cs)
  then obtain x xs' where xs: "xs = x # xs'" "am_payload x = AgentTcp (AgentTcpData c)"
      "list_all2 (\<lambda>m m'. m' = m\<lparr>am_encryption := am_encryption m'\<rparr>)
        (agent_data_messages env u enc (Suc n) cs) xs'"
    by (auto simp: list_all2_Cons1) (metis PpaassAgentMessage.select_convs(4) PpaassAgentMessage.update_convs(3))
  with Cons.IH show ?case
    by (simp add: agent_message_step_def unwrap_to_raw_tcp_data_def)
qed simp


text \<open>The way back.\<close>

definition new_proxy_messages :: "proxy_world \<Rightarrow> proxy_world \<Rightarrow> PpaassProxyMessage list" where
  "new_proxy_messages v v' = drop (length (agent_out v)) (agent_out v')"

lemma proxy_data_messages_user:
  "m \<in> set (proxy_data_messages env u enc n cs) \<Longrightarrow> pm_user_token m = u"
  by (induction env u enc n cs rule: proxy_data_messages.induct) auto

lemma proxy_data_messages_contents:
  "list_all2 (\<lambda>m m'. m' = m\<lparr>pm_encryption := pm_encryption m'\<rparr>) (proxy_data_messages env u enc n cs) xs
    \<Longrightarrow> proxy_data_prefix (map Inr xs) = data_prefix cs"
proof (induction env u enc n cs arbitrary: xs rule: proxy_data_messages.induct)
  case (3 env u enc n c cs)
  then obtain x xs' where xs: "xs = x # xs'" "pm_payload x = ProxyTcp (ProxyTcpData c)"
      "list_all2 (\<lambda>m m'. m' = m\<lparr>pm_encryption := pm_encryption m'\<rparr>)
        (proxy_data_messages env u enc (Suc n) cs) xs'"
    by (auto simp: list_all2_Cons1) (metis PpaassProxyMessage.select_convs(4) PpaassProxyMessage.update_convs(3))
  with "3.IH" show ?case
    by (simp add: proxy_message_step_def)
qed simp_all


end
