(* ===== verification/TunnelMachine.thy ===== *)
theory TunnelMachine
  imports Tunnel
begin

text \<open>
  The relay of one connection as a state machine.  The client, the two tasks of the agent, the two
  tasks of the proxy and the destination act in any order; every step of a task is a step of its
  closure followed by a successful send.  A task may stop at any moment (a failed send, a closed
  connection, a dropped task); what it has not read is then lost.  The codecs and the connection
  between them carry messages in order, as the end-to-end theorems of \<open>Tunnel\<close> show.
\<close>

record tunnel =
  client_wrote :: bytes
  client_pending :: "bytes list"
  agent_up :: bool
  up_link :: "PpaassAgentMessage list"
  proxy_up :: bool
  dst_got :: bytes
  dst_wrote :: bytes
  dst_pending :: "bytes list"
  proxy_down :: bool
  down_link :: "PpaassProxyMessage list"
  agent_down :: bool
  client_got :: bytes

definition tunnel_init :: tunnel where
  "tunnel_init = \<lparr>client_wrote = [], client_pending = [], agent_up = True, up_link = [], proxy_up = True,
     dst_got = [], dst_wrote = [], dst_pending = [], proxy_down = True, down_link = [], agent_down = True,
     client_got = []\<rparr>"

inductive tunnel_step ::
  "agent_env \<Rightarrow> proxy_env \<Rightarrow> string \<Rightarrow> PpaassMessagePayloadEncryption \<Rightarrow> PpaassMessagePayloadEncryption
   \<Rightarrow> tunnel \<Rightarrow> tunnel \<Rightarrow> bool" for aenv penv user_token aenc penc where
  client_writes:
    "tunnel_step aenv penv user_token aenc penc s
       (s\<lparr>client_wrote := client_wrote s @ c, client_pending := client_pending s @ [c]\<rparr>)"
| agent_forwards:
    "agent_up s \<Longrightarrow> client_pending s = c # cs \<Longrightarrow>
     client_message_step aenv user_token aenc (Inr c) w = (Inr (Some m), w') \<Longrightarrow>
     tunnel_step aenv penv user_token aenc penc s (s\<lparr>client_pending := cs, up_link := up_link s @ [m]\<rparr>)"
| agent_up_stops:
    "tunnel_step aenv penv user_token aenc penc s (s\<lparr>agent_up := False\<rparr>)"
| proxy_delivers:
    "proxy_up s \<Longrightarrow> up_link s = m # ms \<Longrightarrow> agent_message_step penv (Inr m) = Some b \<Longrightarrow>
     tunnel_step aenv penv user_token aenc penc s (s\<lparr>up_link := ms, dst_got := dst_got s @ b\<rparr>)"
| proxy_up_stops:
    "tunnel_step aenv penv user_token aenc penc s (s\<lparr>proxy_up := False\<rparr>)"
| dst_writes:
    "tunnel_step aenv penv user_token aenc penc s
       (s\<lparr>dst_wrote := dst_wrote s @ c, dst_pending := dst_pending s @ [c]\<rparr>)"
| proxy_forwards:
    "proxy_down s \<Longrightarrow> dst_pending s = c # cs \<Longrightarrow>
     dst_message_step penv user_token penc (Inr c) v = (Inr (Some n), v') \<Longrightarrow>
     tunnel_step aenv penv user_token aenc penc s (s\<lparr>dst_pending := cs, down_link := down_link s @ [n]\<rparr>)"
| proxy_down_stops:
    "tunnel_step aenv penv user_token aenc penc s (s\<lparr>proxy_down := False\<rparr>)"
| agent_delivers:
    "agent_down s \<Longrightarrow> down_link s = n # ns \<Longrightarrow> proxy_message_step (Inr n) = Some b \<Longrightarrow>
     tunnel_step aenv penv user_token aenc penc s (s\<lparr>down_link := ns, client_got := client_got s @ b\<rparr>)"
| agent_down_stops:
    "tunnel_step aenv penv user_token aenc penc s (s\<lparr>agent_down := False\<rparr>)"

inductive_cases tunnel_stepE: "tunnel_step aenv penv user_token aenc penc s s'"

section \<open>Nothing is lost, repeated or reordered\<close>

text \<open>The bytes in transit on the two links.\<close>

fun up_content :: "PpaassAgentMessage \<Rightarrow> bytes" where
  "up_content m = (case am_payload m of AgentTcp (AgentTcpData c) \<Rightarrow> c | _ \<Rightarrow> [])"

fun down_content :: "PpaassProxyMessage \<Rightarrow> bytes" where
  "down_content m = (case pm_payload m of ProxyTcp (ProxyTcpData c) \<Rightarrow> c | _ \<Rightarrow> [])"

declare up_content.simps [simp del] down_content.simps [simp del]

definition tunnel_inv :: "tunnel \<Rightarrow> bool" where
  "tunnel_inv s \<longleftrightarrow>
     client_wrote s = dst_got s @ concat (map up_content (up_link s)) @ concat (client_pending s)
   \<and> dst_wrote s = client_got s @ concat (map down_content (down_link s)) @ concat (dst_pending s)
   \<and> (\<forall>m \<in> set (up_link s). \<exists>c. am_payload m = AgentTcp (AgentTcpData c))
   \<and> (\<forall>n \<in> set (down_link s). \<exists>c. pm_payload n = ProxyTcp (ProxyTcpData c))"

lemma client_message_step_payload:
  "client_message_step env u enc (Inr c) w = (Inr (Some m), w') \<Longrightarrow> am_payload m = AgentTcp (AgentTcpData c)"
  by (auto simp: client_message_step_def rust_defs uuid_new_v4_def generator_defs)

lemma dst_message_step_payload:
  "dst_message_step env u enc (Inr c) w = (Inr (Some m), w') \<Longrightarrow> pm_payload m = ProxyTcp (ProxyTcpData c)"
  by (auto simp: dst_message_step_def rust_defs proxy_uuid_def generator_defs)

lemma agent_message_step_content:
  "agent_message_step env (Inr m) = Some b \<Longrightarrow> up_content m = b"
  by (auto simp: agent_message_step_def unwrap_to_raw_tcp_data_def up_content.simps
      split: PpaassAgentMessagePayload.splits AgentTcpPayload.splits)

lemma proxy_message_step_content:
  "proxy_message_step (Inr m) = Some b \<Longrightarrow> down_content m = b"
  by (auto simp: proxy_message_step_def down_content.simps
      split: PpaassProxyMessagePayload.splits ProxyTcpPayload.splits)

lemma tunnel_step_inv:
  assumes "tunnel_step aenv penv u aenc penc s s'" and "tunnel_inv s"
  shows "tunnel_inv s'"
  using assms
  by (elim tunnel_stepE)
    (auto simp: tunnel_inv_def up_content.simps down_content.simps
      dest!: client_message_step_payload dst_message_step_payload agent_message_step_content
        proxy_message_step_content)

lemma tunnel_reachable_inv:
  assumes "(tunnel_step aenv penv u aenc penc)\<^sup>*\<^sup>* s s'" and "tunnel_inv s"
  shows "tunnel_inv s'"
  using assms by (induction rule: rtranclp_induct) (auto dest: tunnel_step_inv)

lemma tunnel_init_inv: "tunnel_inv tunnel_init"
  by (simp add: tunnel_inv_def tunnel_init_def)


section \<open>Everything can be delivered\<close>

lemma drain_up_link:
  assumes "tunnel_inv s" and "proxy_up s"
  shows "(tunnel_step aenv penv u aenc penc)\<^sup>*\<^sup>* s
    (s\<lparr>up_link := [], dst_got := dst_got s @ concat (map up_content (up_link s))\<rparr>)"
  using assms
proof (induction "up_link s" arbitrary: s)
  case Nil
  then show ?case
    by (metis (no_types, lifting) append_Nil2 concat.simps(1) list.map(1) rtranclp.rtrancl_refl
        tunnel.surjective tunnel.update_convs(4,6))
next
  case (Cons m ms)
  let ?s = "s\<lparr>up_link := ms, dst_got := dst_got s @ up_content m\<rparr>"
  have "\<exists>c. am_payload m = AgentTcp (AgentTcpData c)"
    using Cons.hyps(2) Cons.prems(1) by (metis list.set_intros(1) tunnel_inv_def)
  then have "agent_message_step penv (Inr m) = Some (up_content m)"
    by (auto simp: agent_message_step_def unwrap_to_raw_tcp_data_def up_content.simps)
  then have one: "tunnel_step aenv penv u aenc penc s ?s"
    using tunnel_step.proxy_delivers [of s m ms penv] Cons.hyps(2) Cons.prems(2) by metis
  have "(tunnel_step aenv penv u aenc penc)\<^sup>*\<^sup>* ?s
      (?s\<lparr>up_link := [], dst_got := dst_got ?s @ concat (map up_content (up_link ?s))\<rparr>)"
    using Cons.hyps(1) [of ?s] tunnel_step_inv [OF one Cons.prems(1)] Cons.prems(2) by simp
  with one show ?case
    using Cons.hyps(2) [symmetric] by (auto intro: converse_rtranclp_into_rtranclp)
qed

lemma forward_client_pending:
  assumes "agent_up s"
  shows "\<exists>ms. (tunnel_step aenv penv u aenc penc)\<^sup>*\<^sup>* s (s\<lparr>client_pending := [], up_link := ms\<rparr>)"
  using assms
proof (induction "client_pending s" arbitrary: s)
  case Nil
  then have "s = s\<lparr>client_pending := [], up_link := up_link s\<rparr>"
    by simp
  then show ?case
    by (metis rtranclp.rtrancl_refl)
next
  case (Cons c cs)
  obtain m w' where "client_message_step aenv u aenc (Inr c) w = (Inr (Some m), w')"
    by (simp add: client_message_step_def rust_defs uuid_new_v4_def generator_defs)
  from tunnel_step.agent_forwards [OF Cons.prems Cons.hyps(2) [symmetric] this]
  have one: "tunnel_step aenv penv u aenc penc s (s\<lparr>client_pending := cs, up_link := up_link s @ [m]\<rparr>)" .
  obtain ms where "(tunnel_step aenv penv u aenc penc)\<^sup>*\<^sup>* (s\<lparr>client_pending := cs, up_link := up_link s @ [m]\<rparr>)
      (s\<lparr>client_pending := [], up_link := ms\<rparr>)"
    using Cons.hyps(1) [of "s\<lparr>client_pending := cs, up_link := up_link s @ [m]\<rparr>"] Cons.prems by auto
  with one show ?case
    by (blast intro: converse_rtranclp_into_rtranclp)
qed

lemma drain_down_link:
  assumes "tunnel_inv s" and "agent_down s"
  shows "(tunnel_step aenv penv u aenc penc)\<^sup>*\<^sup>* s
    (s\<lparr>down_link := [], client_got := client_got s @ concat (map down_content (down_link s))\<rparr>)"
  using assms
proof (induction "down_link s" arbitrary: s)
  case Nil
  then have "s = s\<lparr>down_link := [], client_got := client_got s @ concat (map down_content (down_link s))\<rparr>"
    by simp
  then show ?case
    by (metis rtranclp.rtrancl_refl)
next
  case (Cons n ns)
  let ?s = "s\<lparr>down_link := ns, client_got := client_got s @ down_content n\<rparr>"
  have "\<exists>c. pm_payload n = ProxyTcp (ProxyTcpData c)"
    using Cons.hyps(2) Cons.prems(1) by (metis list.set_intros(1) tunnel_inv_def)
  then have "proxy_message_step (Inr n) = Some (down_content n)"
    by (auto simp: proxy_message_step_def down_content.simps)
  then have one: "tunnel_step aenv penv u aenc penc s ?s"
    using tunnel_step.agent_delivers [of s n ns] Cons.hyps(2) Cons.prems(2) by metis
  have "(tunnel_step aenv penv u aenc penc)\<^sup>*\<^sup>* ?s
      (?s\<lparr>down_link := [], client_got := client_got ?s @ concat (map down_content (down_link ?s))\<rparr>)"
    using Cons.hyps(1) [of ?s] tunnel_step_inv [OF one Cons.prems(1)] Cons.prems(2) by simp
  with one show ?case
    using Cons.hyps(2) [symmetric] by (auto intro: converse_rtranclp_into_rtranclp)
qed

lemma forward_dst_pending:
  assumes "proxy_down s"
  shows "\<exists>ns. (tunnel_step aenv penv u aenc penc)\<^sup>*\<^sup>* s (s\<lparr>dst_pending := [], down_link := ns\<rparr>)"
  using assms
proof (induction "dst_pending s" arbitrary: s)
  case Nil
  then have "s = s\<lparr>dst_pending := [], down_link := down_link s\<rparr>"
    by simp
  then show ?case
    by (metis rtranclp.rtrancl_refl)
next
  case (Cons c cs)
  obtain n v' where "dst_message_step penv u penc (Inr c) v = (Inr (Some n), v')"
    by (simp add: dst_message_step_def rust_defs proxy_uuid_def generator_defs)
  from tunnel_step.proxy_forwards [OF Cons.prems Cons.hyps(2) [symmetric] this]
  have one: "tunnel_step aenv penv u aenc penc s (s\<lparr>dst_pending := cs, down_link := down_link s @ [n]\<rparr>)" .
  obtain ns where "(tunnel_step aenv penv u aenc penc)\<^sup>*\<^sup>* (s\<lparr>dst_pending := cs, down_link := down_link s @ [n]\<rparr>)
      (s\<lparr>dst_pending := [], down_link := ns\<rparr>)"
    using Cons.hyps(1) [of "s\<lparr>dst_pending := cs, down_link := down_link s @ [n]\<rparr>"] Cons.prems by auto
  with one show ?case
    by (blast intro: converse_rtranclp_into_rtranclp)
qed


end
