(* ===== verification/TunnelSamples.thy ===== *)
theory TunnelSamples
  imports TunnelMachine WireSamples AgentSamples
begin

text \<open>Concrete runs of the proxy's handlers, of its server and of the whole tunnel.\<close>

section \<open>The proxy\<close>

definition sample_penv :: proxy_env where
  "sample_penv = \<lparr>pconfig = sample_proxy_config, pnew_v4 = (\<lambda>n. ''m2''),
     prandom_array = (\<lambda>n. replicate 32 (word_of_nat n)), presolve_name = (\<lambda>_. Inl (IoOs ''no such host'')),
     debug_agent_message = (\<lambda>_. '''')\<rparr>"

theorem tcp_init_answered_witness:
  "\<exists>w'. tcp_handler_exec sample_penv \<lparr>th_transport_id = ''t'', th_user_token = ''u'',
      th_src_address = UnifiedDomain ''c'' 1, th_dst_address = UnifiedDomain ''nowhere'' 2,
      th_payload_encryption = Plain\<rparr> (idle_world 0) = (Inl (Err (StdIo (IoInvalidData (CommonIo (IoOs ''no such host''))))), w')
    \<and> map pm_payload (agent_out w') = [ProxyTcp (ProxyTcpInit (UnifiedDomain ''c'' 1)
        (UnifiedDomain ''nowhere'' 2) (Fail CanNotConnectToDestination))]"
proof -
  have "agent_fault (idle_world 0) = None" "agent_out (idle_world 0) = []"
    by (simp_all add: idle_world_def)
  moreover have "fst (init_dst_connection sample_penv ''t'' (UnifiedDomain ''nowhere'' 2) (idle_world 0)) =
      Inl (Err (StdIo (IoInvalidData (CommonIo (IoOs ''no such host'')))))"
    by (simp add: init_dst_connection_def sample_penv_def rust_defs)
  ultimately show ?thesis
    using tcp_init_answered [of "idle_world 0" sample_penv "\<lparr>th_transport_id = ''t'', th_user_token = ''u'',
      th_src_address = UnifiedDomain ''c'' 1, th_dst_address = UnifiedDomain ''nowhere'' 2,
      th_payload_encryption = Plain\<rparr>"]
    by auto
qed

theorem agent_to_dst_forwards_witness:
  "\<exists>w'. agent_to_dst_task sample_penv ((idle_world 0)\<lparr>agent_in := [Inr sample_agent_message, Inl (CommonOther ''x''),
      Inr sample_agent_message]\<rparr>) = (Inr (), w') \<and> dst_out w' = [104, 105] \<and> dst_closed w'"
  using agent_to_dst_forwards [of "(idle_world 0)\<lparr>agent_in := [Inr sample_agent_message, Inl (CommonOther ''x''),
      Inr sample_agent_message]\<rparr>" sample_penv]
  by (simp add: idle_world_def agent_message_step_def unwrap_to_raw_tcp_data_def sample_agent_message_def
      sample_agent_payload_def)


lemma sample_accept:
  "server_step sample_penv server_new \<lparr>number = 1, starting = 1, relaying = 0, leaked = 0\<rparr>"
  using server_step.accept [of "idle_world 0" server_new "idle_world 1" sample_penv]
  by (simp add: idle_world_def fetch_add_1_def server_new_def)

theorem server_counter_invariant_witness:
  "number \<lparr>number = 1, starting = 1, relaying = 0, leaked = 0\<rparr> = (word_of_nat (1 + 0 + 0) :: u64)"
  using server_counter_invariant [OF r_into_rtranclp, where env = sample_penv, OF sample_accept] by simp

section \<open>The tunnel\<close>

definition sample_aenv :: agent_env where
  "sample_aenv = sample_env\<lparr>new_v4 := (\<lambda>n. ''m1'')\<rparr>"

definition sample_conn :: ProxyConnection where
  "sample_conn = \<lparr>connection_id = '''', link = 0\<rparr>"

definition sample_up_world :: agent_world where
  "sample_up_world = \<lparr>client_in = [Inr [104, 105]], client_out = [], client_fault = None, client_closed = False,
     dials = [], dialled = [], links = [\<lparr>link_in = [], link_out = [], link_fault = None, link_closed = False\<rparr>],
     draws = 0\<rparr>"

abbreviation sample_chunks :: "bytes list" where
  "sample_chunks \<equiv> [PPAASS_FLAG, drop 10 (frame 1 [31, 1])]"

lemma sample_chunks_concat: "concat sample_chunks = frame 1 [31, 1]"
  by (simp add: frame_def)


definition sample_down_world :: proxy_world where
  "sample_down_world = (idle_world 0)\<lparr>dst_in := [Inr [111, 107]]\<rparr>"


lemma sample_write:
  "(tunnel_step sample_aenv sample_penv ''u'' Plain Plain)\<^sup>*\<^sup>* tunnel_init
    (tunnel_init\<lparr>client_wrote := [1], client_pending := [[1]]\<rparr>)"
  using tunnel_step.client_writes [of sample_aenv sample_penv "''u''" Plain Plain tunnel_init "[1]"]
  by (intro r_into_rtranclp) (simp add: tunnel_init_def)



theorem serving_refines_machine_witness:
  "\<exists>s'. (server_step sample_penv)\<^sup>+\<^sup>+ server_new s' \<and> number s' = 1 \<and> starting s' = 0 \<and> leaked s' = 1"
  using serving_refines_machine [of server_new "idle_world 0" sample_penv]
  by (auto simp: server_new_def idle_world_def)

end
