(* ===== verification/Connection.thy ===== *)
theory Connection
  imports Wire
begin

text \<open>
  \<open>common/src/connection/agent.rs\<close> and \<open>common/src/connection/proxy.rs\<close>: the connection types of
  the two sides.  Each owns a \<open>Framed\<close> of \<open>tokio_util\<close> with its codec and hands every method of
  \<open>Sink\<close> and \<open>Stream\<close> to it.  \<open>Framed\<close> itself is a parameter with the laws of its documentation.
\<close>

section \<open>The library\<close>

record ('f, 'io, 'c, 'i, 'o) framed_lib =
  with_capacity :: "'io \<Rightarrow> 'c \<Rightarrow> nat \<Rightarrow> 'f"
  framed_sink :: "('f, CommonError, 'i) sink"
  framed_stream :: "('f, CommonError, 'o) stream"
  view_of :: "'f \<Rightarrow> 'c framed_view"

definition framed_law ::
  "('c \<Rightarrow> 'i \<Rightarrow> (bytes, CommonError, unit) rust) \<Rightarrow> ('c, CommonError, 'o) decoder
   \<Rightarrow> ('f, 'io, 'c, 'i, 'o) framed_lib \<Rightarrow> bool" where
  [law_defs]: "framed_law encode decode F \<longleftrightarrow>
     sink_law encode (framed_sink F) (view_of F) \<and> stream_law decode (framed_stream F) (view_of F)
   \<and> (\<forall>io c n. v_codec (view_of F (with_capacity F io c n)) = c
        \<and> v_read_buf (view_of F (with_capacity F io c n)) = []
        \<and> v_write_buf (view_of F (with_capacity F io c n)) = [])"

section \<open>The connection to the proxy\<close>

record 'f PpaassProxyConnection =
  pc_inner :: 'f
  pc_connection_id :: string

type_synonym ('f, 'io, 'pk, 'sk) proxy_framed =
  "('f, 'io, ('pk, 'sk) connection_codec, nat \<times> PpaassAgentMessage, PpaassProxyMessage) framed_lib"

definition proxy_connection_new ::
  "('f, 'io, 'pk, 'sk) proxy_framed \<Rightarrow> string \<Rightarrow> 'io \<Rightarrow> ('pk, 'sk) fetcher \<Rightarrow> bool \<Rightarrow> nat
   \<Rightarrow> 'f PpaassProxyConnection" where
  "proxy_connection_new F connection_id stream fetch compressing buffer_size =
     (let agent_connection_codec = codec_new compressing fetch;
          inner = with_capacity F stream agent_connection_codec buffer_size
      in \<lparr>pc_inner = inner, pc_connection_id = connection_id\<rparr>)"

definition get_connection_id :: "'f PpaassProxyConnection \<Rightarrow> string" where
  "get_connection_id self = pc_connection_id self"

definition proxy_connection_poll_ready ::
  "('f, 'io, 'pk, 'sk) proxy_framed \<Rightarrow> 'f PpaassProxyConnection
   \<Rightarrow> (CommonError + unit) poll \<times> 'f PpaassProxyConnection" where
  "proxy_connection_poll_ready F self =
     (case poll_ready (framed_sink F) (pc_inner self) of (r, inner) \<Rightarrow> (r, self\<lparr>pc_inner := inner\<rparr>))"

definition proxy_connection_start_send ::
  "('f, 'io, 'pk, 'sk) proxy_framed \<Rightarrow> nat \<times> PpaassAgentMessage
   \<Rightarrow> ('f PpaassProxyConnection, CommonError, unit) rust" where
  "proxy_connection_start_send F item = (\<lambda>self.
     case start_send (framed_sink F) item (pc_inner self) of (r, inner) \<Rightarrow> (r, self\<lparr>pc_inner := inner\<rparr>))"

definition proxy_connection_poll_flush ::
  "('f, 'io, 'pk, 'sk) proxy_framed \<Rightarrow> 'f PpaassProxyConnection
   \<Rightarrow> (CommonError + unit) poll \<times> 'f PpaassProxyConnection" where
  "proxy_connection_poll_flush F self =
     (case poll_flush (framed_sink F) (pc_inner self) of (r, inner) \<Rightarrow> (r, self\<lparr>pc_inner := inner\<rparr>))"

definition proxy_connection_poll_close ::
  "('f, 'io, 'pk, 'sk) proxy_framed \<Rightarrow> 'f PpaassProxyConnection
   \<Rightarrow> (CommonError + unit) poll \<times> 'f PpaassProxyConnection" where
  "proxy_connection_poll_close F self =
     (case poll_close (framed_sink F) (pc_inner self) of (r, inner) \<Rightarrow> (r, self\<lparr>pc_inner := inner\<rparr>))"

definition proxy_connection_poll_next ::
  "('f, 'io, 'pk, 'sk) proxy_framed
   \<Rightarrow> ('f PpaassProxyConnection, CommonError, PpaassProxyMessage) stream" where
  "proxy_connection_poll_next F self =
     (case framed_stream F (pc_inner self) of (r, inner) \<Rightarrow> (r, self\<lparr>pc_inner := inner\<rparr>))"

definition proxy_connection_sink ::
  "('f, 'io, 'pk, 'sk) proxy_framed
   \<Rightarrow> ('f PpaassProxyConnection, CommonError, nat \<times> PpaassAgentMessage) sink" where
  "proxy_connection_sink F =
     \<lparr>poll_ready = proxy_connection_poll_ready F, start_send = proxy_connection_start_send F,
      poll_flush = proxy_connection_poll_flush F, poll_close = proxy_connection_poll_close F\<rparr>"

lemma proxy_connection_laws:
  assumes "framed_law encode decode F"
  shows "sink_law encode (proxy_connection_sink F) (\<lambda>c. view_of F (pc_inner c))"
    and "stream_law decode (proxy_connection_poll_next F) (\<lambda>c. view_of F (pc_inner c))"
proof -
  have "sink_law encode (framed_sink F) (view_of F)" "stream_law decode (framed_stream F) (view_of F)"
    using assms by (simp_all add: framed_law_def)
  then show "sink_law encode (proxy_connection_sink F) (\<lambda>c. view_of F (pc_inner c))"
    "stream_law decode (proxy_connection_poll_next F) (\<lambda>c. view_of F (pc_inner c))"
    by (auto intro!: sink_law_lift [where put = "\<lambda>i s. s\<lparr>pc_inner := i\<rparr>"]
        stream_law_lift [where put = "\<lambda>i s. s\<lparr>pc_inner := i\<rparr>"]
        simp: proxy_connection_sink_def proxy_connection_poll_ready_def proxy_connection_start_send_def
          proxy_connection_poll_flush_def proxy_connection_poll_close_def proxy_connection_poll_next_def
          map_prod_def split: prod.split)
qed

lemma proxy_connection_new_view:
  assumes "framed_law encode decode F"
  shows "v_codec (view_of F (pc_inner (proxy_connection_new F i io fetch c n))) = codec_new c fetch"
    "v_read_buf (view_of F (pc_inner (proxy_connection_new F i io fetch c n))) = []"
    "v_write_buf (view_of F (pc_inner (proxy_connection_new F i io fetch c n))) = []"
  using assms by (simp_all add: framed_law_def proxy_connection_new_def)

section \<open>The connection to the agent\<close>

record 'f PpaassAgentConnection =
  ac_inner :: 'f
  ac_connection_id :: string

type_synonym ('f, 'io, 'pk, 'sk) agent_framed =
  "('f, 'io, ('pk, 'sk) connection_codec, nat \<times> PpaassProxyMessage, PpaassAgentMessage) framed_lib"

definition agent_connection_new ::
  "('f, 'io, 'pk, 'sk) agent_framed \<Rightarrow> string \<Rightarrow> 'io \<Rightarrow> ('pk, 'sk) fetcher \<Rightarrow> bool \<Rightarrow> nat
   \<Rightarrow> 'f PpaassAgentConnection" where
  "agent_connection_new F connection_id stream fetch compressing buffer_size =
     (let agent_connection_codec = codec_new compressing fetch;
          inner = with_capacity F stream agent_connection_codec buffer_size
      in \<lparr>ac_inner = inner, ac_connection_id = connection_id\<rparr>)"

definition agent_connection_poll_ready ::
  "('f, 'io, 'pk, 'sk) agent_framed \<Rightarrow> 'f PpaassAgentConnection
   \<Rightarrow> (CommonError + unit) poll \<times> 'f PpaassAgentConnection" where
  "agent_connection_poll_ready F self =
     (case poll_ready (framed_sink F) (ac_inner self) of (r, inner) \<Rightarrow> (r, self\<lparr>ac_inner := inner\<rparr>))"

definition agent_connection_start_send ::
  "('f, 'io, 'pk, 'sk) agent_framed \<Rightarrow> nat \<times> PpaassProxyMessage
   \<Rightarrow> ('f PpaassAgentConnection, CommonError, unit) rust" where
  "agent_connection_start_send F item = (\<lambda>self.
     case start_send (framed_sink F) item (ac_inner self) of (r, inner) \<Rightarrow> (r, self\<lparr>ac_inner := inner\<rparr>))"

definition agent_connection_poll_flush ::
  "('f, 'io, 'pk, 'sk) agent_framed \<Rightarrow> 'f PpaassAgentConnection
   \<Rightarrow> (CommonError + unit) poll \<times> 'f PpaassAgentConnection" where
  "agent_connection_poll_flush F self =
     (case poll_flush (framed_sink F) (ac_inner self) of (r, inner) \<Rightarrow> (r, self\<lparr>ac_inner := inner\<rparr>))"

definition agent_connection_poll_close ::
  "('f, 'io, 'pk, 'sk) agent_framed \<Rightarrow> 'f PpaassAgentConnection
   \<Rightarrow> (CommonError + unit) poll \<times> 'f PpaassAgentConnection" where
  "agent_connection_poll_close F self =
     (case poll_close (framed_sink F) (ac_inner self) of (r, inner) \<Rightarrow> (r, self\<lparr>ac_inner := inner\<rparr>))"

definition agent_connection_poll_next ::
  "('f, 'io, 'pk, 'sk) agent_framed
   \<Rightarrow> ('f PpaassAgentConnection, CommonError, PpaassAgentMessage) stream" where
  "agent_connection_poll_next F self =
     (case framed_stream F (ac_inner self) of (r, inner) \<Rightarrow> (r, self\<lparr>ac_inner := inner\<rparr>))"

definition agent_connection_sink ::
  "('f, 'io, 'pk, 'sk) agent_framed
   \<Rightarrow> ('f PpaassAgentConnection, CommonError, nat \<times> PpaassProxyMessage) sink" where
  "agent_connection_sink F =
     \<lparr>poll_ready = agent_connection_poll_ready F, start_send = agent_connection_start_send F,
      poll_flush = agent_connection_poll_flush F, poll_close = agent_connection_poll_close F\<rparr>"

lemma agent_connection_laws:
  assumes "framed_law encode decode F"
  shows "sink_law encode (agent_connection_sink F) (\<lambda>c. view_of F (ac_inner c))"
    and "stream_law decode (agent_connection_poll_next F) (\<lambda>c. view_of F (ac_inner c))"
proof -
  have "sink_law encode (framed_sink F) (view_of F)" "stream_law decode (framed_stream F) (view_of F)"
    using assms by (simp_all add: framed_law_def)
  then show "sink_law encode (agent_connection_sink F) (\<lambda>c. view_of F (ac_inner c))"
    "stream_law decode (agent_connection_poll_next F) (\<lambda>c. view_of F (ac_inner c))"
    by (auto intro!: sink_law_lift [where put = "\<lambda>i s. s\<lparr>ac_inner := i\<rparr>"]
        stream_law_lift [where put = "\<lambda>i s. s\<lparr>ac_inner := i\<rparr>"]
        simp: agent_connection_sink_def agent_connection_poll_ready_def agent_connection_start_send_def
          agent_connection_poll_flush_def agent_connection_poll_close_def agent_connection_poll_next_def
          map_prod_def split: prod.split)
qed

lemma agent_connection_new_view:
  assumes "framed_law encode decode F"
  shows "v_codec (view_of F (ac_inner (agent_connection_new F i io fetch c n))) = codec_new c fetch"
    "v_read_buf (view_of F (ac_inner (agent_connection_new F i io fetch c n))) = []"
    "v_write_buf (view_of F (ac_inner (agent_connection_new F i io fetch c n))) = []"
  using assms by (simp_all add: framed_law_def agent_connection_new_def)

section \<open>From the agent to the proxy\<close>

text \<open>What one side reads and what it writes do not interfere, although both use the one codec.\<close>

lemma proxy_connection_unseen:
  "unseen (proxy_decode L) (\<lambda>c (rng, m). proxy_encode L rng c m)"
  by (simp add: unseen_def proxy_decode_unseen fun_eq_iff split_def)


section \<open>From the proxy to the agent\<close>

text \<open>What one side reads and what it writes do not interfere, although both use the one codec.\<close>

lemma agent_connection_unseen:
  "unseen (agent_decode L) (\<lambda>c (rng, m). agent_encode L rng c m)"
  by (simp add: unseen_def agent_decode_unseen fun_eq_iff split_def)


end
