(* ===== verification/ClientConnection.thy ===== *)
theory ClientConnection
  imports Address Duplex
begin

text \<open>
  The two halves of a client's connection in \<open>agent/src/transport/mod.rs\<close>,
  \<open>ClientConnectionWrite\<close> and \<open>ClientConnectionRead\<close>: they own the halves of one \<open>Framed\<close> with the
  \<open>BytesCodec\<close> of \<open>tokio_util\<close> and turn its errors into \<open>NetworkError::General\<close>.  The framed object
  is a parameter; both halves work on the same one, as \<open>split\<close> arranges.
\<close>

section \<open>The two halves\<close>

record 'f ClientConnectionWrite =
  cw_src_address :: PpaassUnifiedAddress
  client_bytes_framed_write :: 'f

definition client_connection_write_new :: "PpaassUnifiedAddress \<Rightarrow> 'f \<Rightarrow> 'f ClientConnectionWrite" where
  "client_connection_write_new src_address framed =
     \<lparr>cw_src_address = src_address, client_bytes_framed_write = framed\<rparr>"

definition client_write_poll_ready ::
  "('f, io_error, bytes) sink \<Rightarrow> 'f ClientConnectionWrite
   \<Rightarrow> (NetworkError + unit) poll \<times> 'f ClientConnectionWrite" where
  "client_write_poll_ready K self =
     (case poll_ready K (client_bytes_framed_write self) of
        (r, framed) \<Rightarrow> (poll_map_err General r, self\<lparr>client_bytes_framed_write := framed\<rparr>))"

definition client_write_start_send ::
  "('f, io_error, bytes) sink \<Rightarrow> bytes \<Rightarrow> ('f ClientConnectionWrite, NetworkError, unit) rust" where
  "client_write_start_send K item = map_err General (\<lambda>self.
     case start_send K item (client_bytes_framed_write self) of
       (r, framed) \<Rightarrow> (r, self\<lparr>client_bytes_framed_write := framed\<rparr>))"

definition client_write_poll_flush ::
  "('f, io_error, bytes) sink \<Rightarrow> 'f ClientConnectionWrite
   \<Rightarrow> (NetworkError + unit) poll \<times> 'f ClientConnectionWrite" where
  "client_write_poll_flush K self =
     (case poll_flush K (client_bytes_framed_write self) of
        (r, framed) \<Rightarrow> (poll_map_err General r, self\<lparr>client_bytes_framed_write := framed\<rparr>))"

definition client_write_poll_close ::
  "('f, io_error, bytes) sink \<Rightarrow> 'f ClientConnectionWrite
   \<Rightarrow> (NetworkError + unit) poll \<times> 'f ClientConnectionWrite" where
  "client_write_poll_close K self =
     (case poll_close K (client_bytes_framed_write self) of
        (r, framed) \<Rightarrow> (poll_map_err General r, self\<lparr>client_bytes_framed_write := framed\<rparr>))"

definition client_write_sink ::
  "('f, io_error, bytes) sink \<Rightarrow> ('f ClientConnectionWrite, NetworkError, bytes) sink" where
  "client_write_sink K =
     \<lparr>poll_ready = client_write_poll_ready K, start_send = client_write_start_send K,
      poll_flush = client_write_poll_flush K, poll_close = client_write_poll_close K\<rparr>"

record 'f ClientConnectionRead =
  cr_src_address :: PpaassUnifiedAddress
  client_bytes_framed_read :: 'f

definition client_connection_read_new :: "PpaassUnifiedAddress \<Rightarrow> 'f \<Rightarrow> 'f ClientConnectionRead" where
  "client_connection_read_new src_address framed =
     \<lparr>cr_src_address = src_address, client_bytes_framed_read = framed\<rparr>"

text \<open>An item of the read half is a result, whose error the half converts.\<close>

definition item_map_err :: "('x \<Rightarrow> 'e) \<Rightarrow> ('x failure + 'o) option poll \<Rightarrow> ('e failure + 'o) option poll" where
  "item_map_err conv p = map_poll (map_option (map_sum (map_failure conv) id)) p"

definition client_read_poll_next ::
  "('f, io_error, bytes) stream \<Rightarrow> ('f ClientConnectionRead, NetworkError, bytes) stream" where
  "client_read_poll_next T self =
     (case T (client_bytes_framed_read self) of
        (r, framed) \<Rightarrow> (item_map_err General r, self\<lparr>client_bytes_framed_read := framed\<rparr>))"

text \<open>The read half at work on the object it shares with a write half.\<close>

definition shared_poll_next ::
  "('f, io_error, bytes) stream \<Rightarrow> ('f ClientConnectionWrite, NetworkError, bytes) stream" where
  "shared_poll_next T w =
     (case client_read_poll_next T
             (client_connection_read_new (cw_src_address w) (client_bytes_framed_write w)) of
        (r, self) \<Rightarrow> (r, w\<lparr>client_bytes_framed_write := client_bytes_framed_read self\<rparr>))"

section \<open>The codec of plain bytes\<close>

text \<open>\<open>BytesCodec\<close> appends what it is given, and delivers everything that has arrived.\<close>

definition bytes_codec_law ::
  "('c \<Rightarrow> bytes \<Rightarrow> (bytes, 'e, unit) rust) \<Rightarrow> ('c, 'e, bytes) decoder \<Rightarrow> bool" where
  [law_defs]: "bytes_codec_law encode decode \<longleftrightarrow>
     (\<forall>c x dst. encode c x dst = (Inr (), dst @ x))
   \<and> (\<forall>c src. decode (c, src) = (if src = [] then (Inr None, (c, [])) else (Inr (Some src), (c, []))))"

section \<open>What the halves do to the bytes\<close>

lemma reading_bytes:
  assumes "bytes_codec_law encode decode" "reading decode (c, src) cs = Some (c', src')"
  shows "src @ concat cs = src'"
  using assms(2)
proof (induction cs arbitrary: c src)
  case (Cons d ds)
  then show ?case
    using assms(1) by (auto simp: bytes_codec_law_def split: if_splits)
qed simp

lemma forward_bytes:
  assumes "bytes_codec_law encode decode"
  shows "forward (encode c) xs dst = (Inr (), dst @ concat xs)"
  using assms by (induction xs arbitrary: dst) (simp_all add: bytes_codec_law_def bnd_def ret_def)

text \<open>Converting the errors changes neither half's laws.\<close>

lemma map_err_pair: "map_err conv m s = (map_sum (map_failure conv) id (fst (m s)), snd (m s))"
  by (simp add: map_err_def split: prod.split sum.split failure.split)

lemma poll_map_err_ok [simp]: "poll_map_err conv r = Ready (Inr u) \<longleftrightarrow> r = Ready (Inr u)"
proof (cases r)
  case (Ready x)
  then show ?thesis
    by (cases x) (simp_all add: poll_map_err_def)
qed (simp add: poll_map_err_def)

lemma client_write_sink_law:
  assumes "sink_law encode K view"
  shows "sink_law (\<lambda>c i. map_err General (encode c i)) (client_write_sink K)
    (\<lambda>w. view (client_bytes_framed_write w))"
proof -
  have "fst (client_write_poll_flush K w) = poll_map_err General (fst (poll_flush K (client_bytes_framed_write w)))"
    "fst (client_write_poll_close K w) = poll_map_err General (fst (poll_close K (client_bytes_framed_write w)))"
    "client_bytes_framed_write (snd (client_write_poll_ready K w)) = snd (poll_ready K (client_bytes_framed_write w))"
    "client_bytes_framed_write (snd (client_write_poll_flush K w)) = snd (poll_flush K (client_bytes_framed_write w))"
    "client_bytes_framed_write (snd (client_write_poll_close K w)) = snd (poll_close K (client_bytes_framed_write w))"
    "client_bytes_framed_write (snd (client_write_start_send K i w)) = snd (start_send K i (client_bytes_framed_write w))"
    "fst (client_write_start_send K i w) =
       map_sum (map_failure General) id (fst (start_send K i (client_bytes_framed_write w)))" for w i
    by (simp_all add: client_write_poll_ready_def client_write_poll_flush_def client_write_poll_close_def
        client_write_start_send_def map_err_pair split_beta)
  with assms show ?thesis
    by (simp add: sink_law_def client_write_sink_def map_err_pair)
qed

lemma reading_map_err: "reading (map_err conv decode) st cs = reading decode st cs"
  by (induction decode st cs rule: reading.induct)
    (auto simp: map_err_def split: prod.splits sum.splits option.splits failure.splits)

lemma stream_step_map_err:
  assumes "stream_step decode v p v'"
  shows "stream_step (map_err conv decode) v (item_map_err conv p) v'"
proof -
  note d = assms [unfolded stream_step_def]
  consider "p = Pending" | x where "p = Ready (Some (Inr x))"
    | "p = Ready None \<or> (\<exists>f. p = Ready (Some (Inl f)))"
    by (metis poll.exhaust option.exhaust sum.exhaust)
  then show ?thesis
  proof cases
    case 1
    with d show ?thesis
      by (simp add: stream_step_def item_map_err_def reading_map_err del: reading.simps)
  next
    case 2
    with d obtain cs self src ds c where c: "v_coming v = concat cs @ v_coming v'" "cs = ds @ [c]"
        "reading decode (v_codec v, v_read_buf v) ds = Some (self, src)"
        "decode (self, src @ c) = (Inr (Some x), (v_codec v', v_read_buf v'))"
      by auto
    then have "map_err conv decode (self, src @ c) = (Inr (Some x), (v_codec v', v_read_buf v'))"
      by (simp add: map_err_def)
    with c 2 d show ?thesis
      unfolding stream_step_def item_map_err_def
      by (intro conjI exI [of _ cs]) (auto simp: reading_map_err)
  next
    case 3
    with d show ?thesis
      by (auto simp: stream_step_def item_map_err_def)
  qed
qed

lemma shared_stream_law:
  assumes "stream_law decode T view"
  shows "stream_law (map_err General decode) (shared_poll_next T)
    (\<lambda>w. view (client_bytes_framed_write w))"
proof -
  have "fst (shared_poll_next T w) = item_map_err General (fst (T (client_bytes_framed_write w)))"
    "client_bytes_framed_write (snd (shared_poll_next T w)) = snd (T (client_bytes_framed_write w))" for w
    by (simp_all add: shared_poll_next_def client_read_poll_next_def client_connection_read_new_def split_beta)
  with assms show ?thesis
    by (simp add: stream_law_def stream_step_map_err)
qed

lemma duplex_run_bytes:
  assumes "bytes_codec_law encode decode" "sink_law encode K view" "stream_law decode T view"
    and "duplex_run K T s ms xs t"
  shows "concat xs @ v_read_buf (view t) @ v_coming (view t) = v_read_buf (view s) @ v_coming (view s)"
  using assms(4)
proof (induction rule: duplex_run.induct)
  case (wait ms xs t t')
  then obtain cs where c: "v_coming (view t) = concat cs @ v_coming (view t')"
      "reading decode (v_codec (view t), v_read_buf (view t)) ([] # cs) =
        Some (v_codec (view t'), v_read_buf (view t'))"
    using stream_lawD(3) [OF assms(3)] by blast
  have e: "v_read_buf (view t') = v_read_buf (view t) @ concat cs"
    using reading_bytes [OF assms(1) c(2)] by simp
  show ?case
    using wait.IH by (simp add: e c(1))
next
  case (item ms xs t x t')
  then obtain self src ds c where c: "v_coming (view t) = concat ds @ c @ v_coming (view t')"
      "reading decode (v_codec (view t), v_read_buf (view t)) ds = Some (self, src)"
      "decode (self, src @ c) = (Inr (Some x), (v_codec (view t'), v_read_buf (view t')))"
    using stream_lawD(4) [OF assms(3)] by blast
  have "src @ c = x @ v_read_buf (view t')"
    using assms(1) c(3) by (auto simp: bytes_codec_law_def split: if_splits)
  with item.IH c(1) reading_bytes [OF assms(1) c(2)] show ?case
    by (metis append.assoc concat_append concat.simps append_Nil2)
qed (auto dest!: sink_lawD [OF assms(2)] simp: writtenD(2-4))

lemma duplex_run_bytes_written:
  assumes "bytes_codec_law encode decode" "sink_law encode K view" "stream_law decode T view"
    and "duplex_run K T s ms xs t"
  shows "v_sent (view t) @ v_write_buf (view t) = v_sent (view s) @ v_write_buf (view s) @ concat ms"
  using assms(4)
proof (induction rule: duplex_run.induct)
  case (send ms xs t i t')
  obtain dst where "encode (v_codec (view t)) i (v_write_buf (view t)) = (Inr (), dst)"
      "view t' = (view t)\<lparr>v_write_buf := dst\<rparr>"
    using sink_lawD(4) [OF assms(2) send.hyps(2)] by auto
  with assms(1) have "view t' = (view t)\<lparr>v_write_buf := v_write_buf (view t) @ i\<rparr>"
    by (simp add: bytes_codec_law_def)
  with send.IH show ?case
    by (simp flip: append_assoc)
next
  case (wait ms xs t t')
  with stream_lawD(1,2) [OF assms(3) wait.hyps(2)] show ?case
    by simp
next
  case (item ms xs t x t')
  with stream_lawD(1,2) [OF assms(3) item.hyps(2)] show ?case
    by simp
qed (auto dest!: sink_lawD [OF assms(2)] dest: writtenD(1))


end
