(* ===== verification/ConnectionSamples.thy ===== *)
theory ConnectionSamples
  imports Connection ClientConnection WireSamples
begin

text \<open>
  A framed object whose socket takes and delivers sixteen bytes at a time, and the theorems of
  \<open>Connection\<close> applied to it.  It shows the laws of the library satisfiable and models no code.
\<close>

definition sample_flush :: "'c framed_view \<Rightarrow> ('e + unit) poll \<times> 'c framed_view" where
  "sample_flush s =
     (if length (v_write_buf s) \<le> 16 then Ready (Inr ()) else Pending,
      s\<lparr>v_sent := v_sent s @ take 16 (v_write_buf s), v_write_buf := drop 16 (v_write_buf s)\<rparr>)"

definition sample_at :: "'c framed_view \<Rightarrow> bytes \<Rightarrow> 'c \<times> bytes \<Rightarrow> 'c framed_view" where
  "sample_at s coming st = s\<lparr>v_codec := fst st, v_read_buf := snd st, v_coming := coming\<rparr>"

definition sample_next :: "('c, 'e, 'o) decoder \<Rightarrow> ('c framed_view, 'e, 'o) stream" where
  "sample_next decode s =
     (case decode (v_codec s, v_read_buf s) of
        (Inl e, st) \<Rightarrow> (Ready (Some (Inl e)), sample_at s (v_coming s) st)
      | (Inr (Some x), st) \<Rightarrow> (Ready (Some (Inr x)), sample_at s (v_coming s) st)
      | (Inr None, (c, b)) \<Rightarrow>
          if v_coming s = [] then (Pending, sample_at s [] (c, b))
          else
            (case decode (c, b @ take 16 (v_coming s)) of
               (Inl e, st) \<Rightarrow> (Ready (Some (Inl e)), sample_at s (drop 16 (v_coming s)) st)
             | (Inr (Some x), st) \<Rightarrow> (Ready (Some (Inr x)), sample_at s (drop 16 (v_coming s)) st)
             | (Inr None, st) \<Rightarrow> (Pending, sample_at s (drop 16 (v_coming s)) st)))"

definition sample_sink :: "('c \<Rightarrow> 'i \<Rightarrow> (bytes, 'e, unit) rust) \<Rightarrow> ('c framed_view, 'e, 'i) sink" where
  "sample_sink encode =
     \<lparr>poll_ready = (\<lambda>s. (Ready (Inr ()), s)),
      start_send = (\<lambda>i s. case encode (v_codec s) i (v_write_buf s) of
        (r, dst) \<Rightarrow> (r, s\<lparr>v_write_buf := dst\<rparr>)),
      poll_flush = sample_flush, poll_close = sample_flush\<rparr>"

definition sample_framed ::
  "('c \<Rightarrow> 'i \<Rightarrow> (bytes, CommonError, unit) rust) \<Rightarrow> ('c, CommonError, 'o) decoder
   \<Rightarrow> ('c framed_view, bytes, 'c, 'i, 'o) framed_lib" where
  "sample_framed encode decode =
     \<lparr>with_capacity = (\<lambda>io c n.
        \<lparr>v_codec = c, v_read_buf = [], v_write_buf = [], v_sent = [], v_coming = io\<rparr>),
      framed_sink = sample_sink encode,
      framed_stream = sample_next decode,
      view_of = id\<rparr>"

lemma sample_sink_law: "sink_law encode (sample_sink encode) id"
proof -
  have w: "written s (snd (sample_flush s :: ('b + unit) poll \<times> _))" for s :: "'a framed_view"
    unfolding written_def
    by (rule exI [of _ "take 16 (v_write_buf s)"]) (simp add: sample_flush_def)
  have "written s s" for s :: "'a framed_view"
    by (simp add: written_def)
  with w show ?thesis
    by (auto simp: sink_law_def sample_sink_def sample_flush_def split: prod.splits)
qed

lemma sample_stream_step: "stream_step decode s (fst (sample_next decode s)) (snd (sample_next decode s))"
proof -
  obtain r c b where d: "decode (v_codec s, v_read_buf s) = (r, (c, b))"
    by (metis prod.exhaust)
  obtain r' c' b' where d': "decode (c, b @ take 16 (v_coming s)) = (r', (c', b'))"
    by (metis prod.exhaust)
  have coming: "v_coming s = concat [take 16 (v_coming s)] @ drop 16 (v_coming s)"
    by simp
  show ?thesis
  proof (cases "r = Inr None \<and> v_coming s \<noteq> []")
    case True
    show ?thesis
    proof (cases "r' = Inr None")
      case more: True
      then show ?thesis
        using True d d'
        by (intro stream_step_def [THEN iffD2] conjI exI [of _ "[take 16 (v_coming s)]"])
          (simp_all add: sample_next_def sample_at_def)
    next
      case False
      then show ?thesis
        using True d d'
        by (intro stream_step_def [THEN iffD2] conjI exI [of _ "[[], take 16 (v_coming s)]"])
          (auto simp: sample_next_def sample_at_def split: sum.splits option.splits)
    qed
  next
    case False
    show ?thesis
    proof (cases "r = Inr None")
      case True
      with False d show ?thesis
        by (intro stream_step_def [THEN iffD2] conjI exI [of _ "[]"])
          (simp_all add: sample_next_def sample_at_def)
    next
      case False
      with d show ?thesis
        by (intro stream_step_def [THEN iffD2] conjI exI [of _ "[[]]"])
          (auto simp: sample_next_def sample_at_def split: sum.splits option.splits)
    qed
  qed
qed

lemma sample_framed_law: "framed_law encode decode (sample_framed encode decode)"
proof -
  have "stream_law decode (framed_stream (sample_framed encode decode)) id"
    by (simp add: stream_law_def sample_framed_def sample_stream_step)
  with sample_sink_law [of encode] show ?thesis
    by (simp add: framed_law_def sample_framed_def)
qed

section \<open>From the agent to the proxy\<close>

definition up_writer where
  "up_writer = sample_framed (\<lambda>c (rng, m). proxy_encode agent_side_lib rng c m) (proxy_decode agent_side_lib)"

definition up_reader where
  "up_reader = sample_framed (\<lambda>c (rng, m). agent_encode agent_side_lib rng c m) (agent_decode agent_side_lib)"

lemma up_writer_run:
  "duplex_run (proxy_connection_sink up_writer) (proxy_connection_poll_next up_writer)
     (proxy_connection_new up_writer ''c1'' [] (sample_fetcher 9 8) True 64) [(0, sample_agent_message)] []
     \<lparr>pc_inner = \<lparr>v_codec = sample_agent True, v_read_buf = [], v_write_buf = [], v_sent = frame 1 [31, 1],
        v_coming = []\<rparr>, pc_connection_id = ''c1''\<rparr>"
proof -
  let ?at = "\<lambda>wb sent. \<lparr>pc_inner = \<lparr>v_codec = sample_agent True, v_read_buf = [], v_write_buf = wb,
    v_sent = sent, v_coming = []\<rparr>, pc_connection_id = ''c1''\<rparr>"
  let ?f = "frame 1 [31, 1]"
  let ?K = "proxy_connection_sink up_writer"
  note defs = proxy_connection_sink_def proxy_connection_start_send_def proxy_connection_poll_flush_def
    up_writer_def sample_framed_def sample_sink_def sample_flush_def
  have new: "proxy_connection_new up_writer ''c1'' [] (sample_fetcher 9 8) True 64 = ?at [] []"
    by (simp add: proxy_connection_new_def up_writer_def sample_framed_def sample_agent_def)
  have s1: "start_send ?K (0, sample_agent_message) (?at [] []) = (Inr (), ?at ?f [])"
    by (simp add: defs sample_agent_encode)
  have s2: "poll_flush ?K (?at ?f []) = (Pending, ?at (drop 16 ?f) (take 16 ?f))"
    by (simp add: defs)
  have s3: "poll_flush ?K (?at (drop 16 ?f) (take 16 ?f)) = (Ready (Inr ()), ?at [] ?f)"
    by (simp add: defs)
  show ?thesis
    unfolding new
    using duplex_run.flush [OF duplex_run.flush [OF duplex_run.send [OF duplex_run.start s1] s2] s3] by simp
qed

lemma sample_up_decodes:
  "\<exists>m'. agent_decode agent_side_lib (sample_proxy True, frame 1 [31, 1]) = (Inr (Some m'), (sample_proxy True, []))"
  using agent_frame_roundtrip [of agent_side_lib "sample_agent True" sample_agent_message _ "sample_proxy True"
      _ 0 "frame 1 [31, 1]" "[]", OF _ _ _ _ sample_agent_keys(1,2) _ sample_agent_keys(4)]
  by (auto simp: sample_side_laws sample_agent_keys sample_agent_encode)

lemma up_reader_run:
  "\<exists>m' u t'. duplex_run (agent_connection_sink up_reader) (agent_connection_poll_next up_reader)
     (agent_connection_new up_reader ''c2'' (frame 1 [31, 1]) (sample_fetcher 8 9) True 64) [] [m'] t'
     \<and> agent_connection_poll_next up_reader t' = (Pending, u) \<and> v_coming (view_of up_reader (ac_inner u)) = []"
proof -
  let ?at = "\<lambda>b coming. \<lparr>ac_inner = \<lparr>v_codec = sample_proxy True, v_read_buf = b, v_write_buf = [],
    v_sent = [], v_coming = coming\<rparr>, ac_connection_id = ''c2''\<rparr>"
  let ?f = "frame 1 [31, 1]"
  let ?T = "agent_connection_poll_next up_reader"
  note defs = agent_connection_poll_next_def up_reader_def sample_framed_def sample_next_def sample_at_def
  have new: "agent_connection_new up_reader ''c2'' ?f (sample_fetcher 8 9) True 64 = ?at [] ?f"
    by (simp add: agent_connection_new_def up_reader_def sample_framed_def sample_proxy_def)
  have wait: "agent_decode agent_side_lib (sample_proxy True, b) = (Inr None, (sample_proxy True, b))" if "length b < 19" for b
    using that by (simp add: agent_decode_framed framed_decode_Head sample_codec_defs)
  obtain m' where m: "agent_decode agent_side_lib (sample_proxy True, ?f) = (Inr (Some m'), (sample_proxy True, []))"
    using sample_up_decodes by auto
  have s1: "?T (?at [] ?f) = (Pending, ?at (take 16 ?f) (drop 16 ?f))"
    by (simp add: defs wait)
  have s2: "?T (?at (take 16 ?f) (drop 16 ?f)) = (Ready (Some (Inr m')), ?at [] [])"
    by (simp add: defs wait m)
  have s3: "?T (?at [] []) = (Pending, ?at [] [])"
    by (simp add: defs wait)
  have s4: "v_coming (view_of up_reader (ac_inner (?at [] []))) = []"
    by (simp add: up_reader_def sample_framed_def)
  show ?thesis
    unfolding new
    using duplex_run.item [where T = ?T, OF duplex_run.wait [where T = ?T, OF duplex_run.start s1] s2] s3 s4
    by (intro exI conjI) (assumption | simp)+
qed


section \<open>From the proxy to the agent\<close>

definition down_writer where
  "down_writer = sample_framed (\<lambda>c (rng, m). agent_encode proxy_side_lib rng c m) (agent_decode proxy_side_lib)"

definition down_reader where
  "down_reader = sample_framed (\<lambda>c (rng, m). proxy_encode proxy_side_lib rng c m) (proxy_decode proxy_side_lib)"

lemma down_writer_run:
  "duplex_run (agent_connection_sink down_writer) (agent_connection_poll_next down_writer)
     (agent_connection_new down_writer ''c1'' [] (sample_fetcher 8 9) True 64) [(0, sample_proxy_message)] []
     \<lparr>ac_inner = \<lparr>v_codec = sample_proxy True, v_read_buf = [], v_write_buf = [], v_sent = frame 1 [31, 1],
        v_coming = []\<rparr>, ac_connection_id = ''c1''\<rparr>"
proof -
  let ?at = "\<lambda>wb sent. \<lparr>ac_inner = \<lparr>v_codec = sample_proxy True, v_read_buf = [], v_write_buf = wb,
    v_sent = sent, v_coming = []\<rparr>, ac_connection_id = ''c1''\<rparr>"
  let ?f = "frame 1 [31, 1]"
  let ?K = "agent_connection_sink down_writer"
  note defs = agent_connection_sink_def agent_connection_start_send_def agent_connection_poll_flush_def
    down_writer_def sample_framed_def sample_sink_def sample_flush_def
  have new: "agent_connection_new down_writer ''c1'' [] (sample_fetcher 8 9) True 64 = ?at [] []"
    by (simp add: agent_connection_new_def down_writer_def sample_framed_def sample_proxy_def)
  have s1: "start_send ?K (0, sample_proxy_message) (?at [] []) = (Inr (), ?at ?f [])"
    by (simp add: defs sample_proxy_encode)
  have s2: "poll_flush ?K (?at ?f []) = (Pending, ?at (drop 16 ?f) (take 16 ?f))"
    by (simp add: defs)
  have s3: "poll_flush ?K (?at (drop 16 ?f) (take 16 ?f)) = (Ready (Inr ()), ?at [] ?f)"
    by (simp add: defs)
  show ?thesis
    unfolding new
    using duplex_run.flush [OF duplex_run.flush [OF duplex_run.send [OF duplex_run.start s1] s2] s3] by simp
qed

lemma sample_down_decodes:
  "\<exists>m'. proxy_decode proxy_side_lib (sample_agent True, frame 1 [31, 1]) = (Inr (Some m'), (sample_agent True, []))"
  using proxy_frame_roundtrip [of proxy_side_lib "sample_proxy True" sample_proxy_message _ "sample_agent True"
      _ 0 "frame 1 [31, 1]" "[]", OF _ _ _ _ sample_proxy_keys(1,2) _ sample_proxy_keys(4)]
  by (auto simp: sample_side_laws sample_proxy_keys sample_proxy_encode)

lemma down_reader_run:
  "\<exists>m' u t'. duplex_run (proxy_connection_sink down_reader) (proxy_connection_poll_next down_reader)
     (proxy_connection_new down_reader ''c2'' (frame 1 [31, 1]) (sample_fetcher 9 8) True 64) [] [m'] t'
     \<and> proxy_connection_poll_next down_reader t' = (Pending, u) \<and> v_coming (view_of down_reader (pc_inner u)) = []"
proof -
  let ?at = "\<lambda>b coming. \<lparr>pc_inner = \<lparr>v_codec = sample_agent True, v_read_buf = b, v_write_buf = [],
    v_sent = [], v_coming = coming\<rparr>, pc_connection_id = ''c2''\<rparr>"
  let ?f = "frame 1 [31, 1]"
  let ?T = "proxy_connection_poll_next down_reader"
  note defs = proxy_connection_poll_next_def down_reader_def sample_framed_def sample_next_def sample_at_def
  have new: "proxy_connection_new down_reader ''c2'' ?f (sample_fetcher 9 8) True 64 = ?at [] ?f"
    by (simp add: proxy_connection_new_def down_reader_def sample_framed_def sample_agent_def)
  have wait: "proxy_decode proxy_side_lib (sample_agent True, b) = (Inr None, (sample_agent True, b))" if "length b < 19" for b
    using that by (simp add: proxy_decode_framed framed_decode_Head sample_codec_defs)
  obtain m' where m: "proxy_decode proxy_side_lib (sample_agent True, ?f) = (Inr (Some m'), (sample_agent True, []))"
    using sample_down_decodes by auto
  have s1: "?T (?at [] ?f) = (Pending, ?at (take 16 ?f) (drop 16 ?f))"
    by (simp add: defs wait)
  have s2: "?T (?at (take 16 ?f) (drop 16 ?f)) = (Ready (Some (Inr m')), ?at [] [])"
    by (simp add: defs wait m)
  have s3: "?T (?at [] []) = (Pending, ?at [] [])"
    by (simp add: defs wait)
  have s4: "v_coming (view_of down_reader (pc_inner (?at [] []))) = []"
    by (simp add: down_reader_def sample_framed_def)
  show ?thesis
    unfolding new
    using duplex_run.item [where T = ?T, OF duplex_run.wait [where T = ?T, OF duplex_run.start s1] s2] s3 s4
    by (intro exI conjI) (assumption | simp)+
qed


section \<open>The client's connection\<close>

definition sample_bytes_encode :: "unit \<Rightarrow> bytes \<Rightarrow> (bytes, io_error, unit) rust" where
  "sample_bytes_encode c x = (\<lambda>dst. (Inr (), dst @ x))"

definition sample_bytes_decode :: "(unit, io_error, bytes) decoder" where
  "sample_bytes_decode = (\<lambda>(c, src). if src = [] then (Inr None, (c, [])) else (Inr (Some src), (c, [])))"

lemma sample_bytes_law: "bytes_codec_law sample_bytes_encode sample_bytes_decode"
  by (simp add: bytes_codec_law_def sample_bytes_encode_def sample_bytes_decode_def)


end
