(* ===== verification/Session.thy ===== *)
theory Session
  imports Tunnel
begin

text \<open>
  A whole session: a client that speaks SOCKS or HTTP is dispatched, shaken hands with and
  relayed by the agent, and what the agent sends is served by the proxy, from the client's first
  byte to the destination.
\<close>

section \<open>The agent's side\<close>

definition first_data :: "ClientTransportTcpDataRelay \<Rightarrow> bytes list" where
  "first_data info = (case tr_init_data info of None \<Rightarrow> [] | Some dat \<Rightarrow> [dat])"

text \<open>What \<open>tcp_relay\<close> does on a working connection: the data of the handshake goes first.\<close>

lemma tcp_relay_run:
  assumes "link (tr_proxy_connection info) < length (links w)"
    and "link_fault (links w ! link (tr_proxy_connection info)) = None"
  shows "tcp_relay env info w =
    (Inr (agent_get_user_token (config env), AesEncryption (random_array env (draws w))),
     update_link (link (tr_proxy_connection info)) (\<lambda>l. l\<lparr>link_out := link_out l @
        agent_data_messages env (agent_get_user_token (config env)) (AesEncryption (random_array env (draws w)))
          (Suc (draws w)) (first_data info)\<rparr>)
       (w\<lparr>draws := Suc (draws w) + length (first_data info)\<rparr>))"
  using assms
  by (cases "tr_init_data info")
    (simp_all add: tcp_relay_def Let_def first_data_def rust_defs random_32_bytes_def uuid_new_v4_def
      generator_defs proxy_send_def update_link_def)

lemma dispatch_run:
  assumes "client_in w = Inr (b # bs) # cs" and "b \<noteq> 4"
  shows "dispatch addr w = (Inr (\<lparr>hi_src_address = UnifiedIp addr, hi_initial_buf = b # bs\<rparr>,
    if b = 5 then Socks5ClientTransport else HttpClientTransport), w\<lparr>client_in := cs\<rparr>)"
  using dispatch_first_byte [OF assms(1)] assms(2) by (simp add: Let_def)

text \<open>
  Once the handshake has ended in a TCP relay, starting the relay and running its first task leave
  on the connection the init request, then the data of the handshake and the client's chunks.
\<close>

lemma agent_data_messages_append:
  "agent_data_messages env u enc n (xs @ ys) =
    agent_data_messages env u enc n xs @ agent_data_messages env u enc (n + length xs) ys"
  by (induction xs arbitrary: n) simp_all

text \<open>The data messages of a relay that starts at a given draw: its token, then an identifier each.\<close>

definition relay_messages :: "agent_env \<Rightarrow> nat \<Rightarrow> bytes list \<Rightarrow> PpaassAgentMessage list" where
  "relay_messages env n datas =
     agent_data_messages env (agent_get_user_token (config env)) (AesEncryption (random_array env n)) (Suc n) datas"

lemma relay_messages_fields:
  "map am_payload (relay_messages env n datas) = map (\<lambda>dat. AgentTcp (AgentTcpData dat)) datas"
  "\<forall>x \<in> set (relay_messages env n datas). am_user_token x = agent_get_user_token (config env)"
  using agent_data_messages_user by (auto simp: relay_messages_def)

lemma relayed_messages:
  assumes "links w = ls @ [l\<lparr>link_in := ins, link_out := [m]\<rparr>]"
    and "link (tr_proxy_connection info) = length ls" "link_fault l = None"
  shows "\<exists>enc w2 w3. tcp_relay env info w = (Inr (agent_get_user_token (config env), enc), w2)
    \<and> client_to_proxy_task env (agent_get_user_token (config env)) enc (tr_proxy_connection info) w2 = (Inr (), w3)
    \<and> link_out (links w3 ! length ls) =
        m # relay_messages env (draws w) (first_data info @ data_prefix (client_in w))
    \<and> client_out w3 = client_out w \<and> dialled w3 = dialled w"
proof -
  let ?c = "tr_proxy_connection info" and ?u = "agent_get_user_token (config env)"
  define enc where "enc = AesEncryption (random_array env (draws w))"
  define w2 where "w2 = update_link (link ?c) (\<lambda>l. l\<lparr>link_out := link_out l @
      agent_data_messages env ?u enc (Suc (draws w)) (first_data info)\<rparr>)
    (w\<lparr>draws := Suc (draws w) + length (first_data info)\<rparr>)"
  have ok: "link ?c < length (links w)" "link_fault (links w ! link ?c) = None"
    using assms by simp_all
  have relay: "tcp_relay env info w = (Inr (?u, enc), w2)"
    using tcp_relay_run [OF ok] by (simp add: enc_def w2_def)
  have "link ?c < length (links w2)" "link_fault (links w2 ! link ?c) = None"
    using ok by (simp_all add: w2_def update_link_def)
  note task = client_to_proxy_effect [OF this, of env ?u enc]
  show ?thesis
    by (rule exI [of _ enc], rule exI [of _ w2], rule exI, intro conjI, rule relay, rule task)
      (use assms in \<open>simp_all add: w2_def update_link_def relay_messages_def agent_data_messages_append enc_def\<close>)
qed

section \<open>The proxy's side\<close>

lemma agent_data_prefix_payloads:
  "map am_payload xs = map (\<lambda>dat. AgentTcp (AgentTcpData dat)) ds \<Longrightarrow>
    agent_data_prefix env (map Inr xs) = ds"
  by (induction xs arbitrary: ds)
    (auto simp: agent_message_step_def unwrap_to_raw_tcp_data_def Cons_eq_map_conv)

lemma agent_to_dst_effect:
  assumes "dst_fault v = None"
  shows "agent_to_dst_task env v = (Inr (), v\<lparr>agent_in := [],
    dst_out := dst_out v @ concat (agent_data_prefix env (agent_in v)), dst_closed := True\<rparr>)"
proof -
  have "dst_fault (v\<lparr>agent_in := []\<rparr>) = None"
    using assms by simp
  note run = forward_agent_messages [OF this, of env "agent_in v"]
  show ?thesis
    by (simp add: agent_to_dst_task_def logged_def bnd_def run dst_close_def) (simp add: ret_def)
qed

text \<open>The proxy serves an init request and then data, when the destination can be reached.\<close>

lemma proxy_serves_messages:
  assumes "agent_in v = map Inr (x # xs)" "am_payload x = AgentTcp (AgentTcpInit s d)"
    and "map am_payload xs = map (\<lambda>dat. AgentTcp (AgentTcpData dat)) datas"
    and "agent_fault v = None" "dst_fault v = None"
    and "collect_socket_addrs (presolve_name env) d = Inr addrs" "dst_dial_outcome v = DstConnected None None"
  shows "\<exists>v1 v2. transport_exec env tid v =
      (Inr (Some (am_user_token x, AesEncryption (prandom_array env (pdraws v)))), v1)
    \<and> agent_to_dst_task env v1 = (Inr (), v2)
    \<and> agent_out v1 = agent_out v @ [\<lparr>pm_message_id = pnew_v4 env (Suc (pdraws v)),
        pm_user_token = am_user_token x, pm_encryption = AesEncryption (prandom_array env (pdraws v)),
        pm_payload = ProxyTcp (ProxyTcpInit s d (Success tid))\<rparr>]
    \<and> dst_dialled v2 = dst_dialled v @ [addrs] \<and> dst_out v2 = dst_out v @ concat datas \<and> dst_closed v2"
proof -
  define v1 where "v1 = v\<lparr>agent_in := map Inr xs, pdraws := Suc (Suc (pdraws v)),
    dst_dialled := dst_dialled v @ [addrs], agent_out := agent_out v @ [\<lparr>pm_message_id = pnew_v4 env (Suc (pdraws v)),
        pm_user_token = am_user_token x, pm_encryption = AesEncryption (prandom_array env (pdraws v)),
        pm_payload = ProxyTcp (ProxyTcpInit s d (Success tid))\<rparr>]\<rparr>"
  have "transport_exec env tid v =
      (Inr (Some (am_user_token x, AesEncryption (prandom_array env (pdraws v)))), v1)"
    using assms by (simp add: v1_def transport_exec_def tcp_handler_exec_def init_dst_connection_def rust_defs
        proxy_net_defs generator_defs Let_def)
  moreover have "dst_fault v1 = None"
    using assms(5) by (simp add: v1_def)
  ultimately show ?thesis
    using agent_to_dst_effect [of v1 env] agent_data_prefix_payloads [OF assms(3), of env]
    by (intro exI conjI) (assumption | simp add: v1_def)+
qed

section \<open>Both sides\<close>

text \<open>
  What a session leaves on the agent's connection, encoded, cut into chunks and decoded, is served
  by the proxy: the destination of the init request is dialled and gets the data.
\<close>

lemma session_served:
  assumes "aes_law L" "gz_law L" "bincode_law L" "compress a" "status p = Head" "keys_match L a p u"
    and sent: "am_payload m = AgentTcp (AgentTcpInit s d)" "am_user_token m = u"
      "map am_payload xs = map (\<lambda>dat. AgentTcp (AgentTcpData dat)) datas" "\<forall>x \<in> set xs. am_user_token x = u"
    and wire: "length rngs = length (m # xs)"
      "forward (\<lambda>(rng, m). proxy_encode L rng a m) (zip rngs (m # xs)) [] = (Inr (), wire)"
      "length wire < 2 ^ 64" "concat chunks = wire"
    and proxy: "agent_in v = map Inr (fst (read_chunks (agent_decode L) p chunks))"
      "agent_fault v = None" "dst_fault v = None"
      "collect_socket_addrs (presolve_name env) d = Inr addrs" "dst_dial_outcome v = DstConnected None None"
  shows "\<exists>v1 v2. transport_exec env tid v =
      (Inr (Some (u, AesEncryption (prandom_array env (pdraws v)))), v1)
    \<and> agent_to_dst_task env v1 = (Inr (), v2)
    \<and> agent_out v1 = agent_out v @ [\<lparr>pm_message_id = pnew_v4 env (Suc (pdraws v)),
        pm_user_token = u, pm_encryption = AesEncryption (prandom_array env (pdraws v)),
        pm_payload = ProxyTcp (ProxyTcpInit s d (Success tid))\<rparr>]
    \<and> dst_dialled v2 = dst_dialled v @ [addrs] \<and> dst_out v2 = dst_out v @ concat datas \<and> dst_closed v2"
proof -
  have "\<forall>x \<in> set (zip rngs (m # xs)). keys_match L a p (am_user_token (snd x))"
    using assms(6) sent(2,4) by (auto dest!: set_zip_rightD)
  moreover have "forward (\<lambda>x. proxy_encode L (fst x) a (snd x)) (zip rngs (m # xs)) [] = (Inr (), wire)"
    using wire(2) by (simp add: case_prod_beta')
  ultimately obtain ys where ys: "read_chunks (agent_decode L) p chunks = (ys, Waiting p [])"
      "list_all2 (\<lambda>x m'. m' = (snd x)\<lparr>am_encryption := am_encryption m'\<rparr>) (zip rngs (m # xs)) ys"
    using agent_stream_decoded [OF assms(1-5) _ _ wire(3,4)] by blast
  have "list_all2 (\<lambda>m m'. m' = m\<lparr>am_encryption := am_encryption m'\<rparr>) (m # xs) ys"
    using ys(2) wire(1) by (simp add: list_all2_conv_all_nth)
  then obtain m' xs' where y: "ys = m' # xs'" "m' = m\<lparr>am_encryption := am_encryption m'\<rparr>"
      "list_all2 (\<lambda>m m'. m' = m\<lparr>am_encryption := am_encryption m'\<rparr>) xs xs'"
    by (auto simp: list_all2_Cons1)
  have same: "am_payload x' = am_payload x" "am_user_token x' = am_user_token x"
    if "x' = x\<lparr>am_encryption := am_encryption x'\<rparr>" for x x' :: PpaassAgentMessage
    using arg_cong [OF that, of am_payload] arg_cong [OF that, of am_user_token] by simp_all
  have "map am_payload xs' = map am_payload xs"
    using y(3) by (induction rule: list_all2_induct) (simp, metis list.simps(9) same(1))
  then have payloads: "map am_payload xs' = map (\<lambda>dat. AgentTcp (AgentTcpData dat)) datas"
    using sent(3) by simp
  have arrived: "agent_in v = map Inr (m' # xs')"
    using proxy(1) ys(1) y(1) by simp
  have init: "am_payload m' = AgentTcp (AgentTcpInit s d)" "am_user_token m' = u"
    using same [OF y(2)] sent(1,2) by simp_all
  show ?thesis
    using proxy_serves_messages [OF arrived init(1) payloads proxy(2-5), of tid] unfolding init(2) .
qed

text \<open>The agent serving a client up to the end of the client's stream, without the way back.\<close>

definition serve_client_upstream ::
  "('rd, 're, 'req, 'url) http_lib \<Rightarrow> agent_env \<Rightarrow> ProxyConnectionFactory \<Rightarrow> udp_bind \<Rightarrow> SocketAddr
   \<Rightarrow> agent_world \<Rightarrow> ProxyConnection option \<times> agent_world" where
  "serve_client_upstream H env factory socket addr w =
     (case handle_client_connection H env factory socket addr w of
        (Inr (TcpTasks c user_token enc), w1) \<Rightarrow> (Some c, snd (client_to_proxy_task env user_token enc c w1))
      | (_, w1) \<Rightarrow> (None, w1))"

text \<open>
  What it means that the proxy serves what is on a connection: however the encoded bytes of
  its messages are cut, and whatever else is in the proxy's world, when the destination can be
  reached the proxy answers success, dials the destination and writes the data to it.
\<close>

definition proxy_serves ::
  "('pk, 'sk, 'z) codec_lib_scheme \<Rightarrow> ('pk, 'sk) connection_codec \<Rightarrow> ('pk, 'sk) connection_codec
   \<Rightarrow> proxy_env \<Rightarrow> PpaassAgentMessage list \<Rightarrow> PpaassUnifiedAddress \<Rightarrow> PpaassUnifiedAddress \<Rightarrow> bytes \<Rightarrow> bool" where
  "proxy_serves L a p env ms s d dat \<longleftrightarrow>
     (\<forall>rngs wire chunks v addrs tid.
        length rngs = length ms
        \<longrightarrow> forward (\<lambda>(rng, m). proxy_encode L rng a m) (zip rngs ms) [] = (Inr (), wire)
        \<longrightarrow> length wire < 2 ^ 64 \<longrightarrow> concat chunks = wire
        \<longrightarrow> agent_in v = map Inr (fst (read_chunks (agent_decode L) p chunks))
        \<longrightarrow> agent_fault v = None \<longrightarrow> dst_fault v = None \<longrightarrow> dst_dial_outcome v = DstConnected None None
        \<longrightarrow> collect_socket_addrs (presolve_name env) d = Inr addrs
        \<longrightarrow> (\<exists>u enc answer v1 v2. transport_exec env tid v = (Inr (Some (u, enc)), v1)
            \<and> agent_to_dst_task env v1 = (Inr (), v2)
            \<and> agent_out v1 = agent_out v @ [answer] \<and> pm_user_token answer = u \<and> pm_encryption answer = enc
            \<and> pm_payload answer = ProxyTcp (ProxyTcpInit s d (Success tid))
            \<and> dst_dialled v2 = dst_dialled v @ [addrs] \<and> dst_out v2 = dst_out v @ dat \<and> dst_closed v2))"

lemma proxy_servesI:
  assumes "aes_law L" "gz_law L" "bincode_law L" "compress a" "status p = Head" "keys_match L a p u"
    and "am_payload m = AgentTcp (AgentTcpInit s d)" "am_user_token m = u"
      "map am_payload xs = map (\<lambda>dat. AgentTcp (AgentTcpData dat)) datas" "\<forall>x \<in> set xs. am_user_token x = u"
  shows "proxy_serves L a p env (m # xs) s d (concat datas)"
  unfolding proxy_serves_def
proof (intro allI impI)
  fix rngs wire chunks addrs tid and v :: proxy_world
  assume "length rngs = length (m # xs)"
    "forward (\<lambda>(rng, m). proxy_encode L rng a m) (zip rngs (m # xs)) [] = (Inr (), wire)"
    "length wire < 2 ^ 64" "concat chunks = wire"
    "agent_in v = map Inr (fst (read_chunks (agent_decode L) p chunks))"
    "agent_fault v = None" "dst_fault v = None" "dst_dial_outcome v = DstConnected None None"
    "collect_socket_addrs (presolve_name env) d = Inr addrs"
  from session_served [OF assms this(1-7,9,8), of tid]
  show "\<exists>u enc answer v1 v2. transport_exec env tid v = (Inr (Some (u, enc)), v1)
      \<and> agent_to_dst_task env v1 = (Inr (), v2)
      \<and> agent_out v1 = agent_out v @ [answer] \<and> pm_user_token answer = u \<and> pm_encryption answer = enc
      \<and> pm_payload answer = ProxyTcp (ProxyTcpInit s d (Success tid))
      \<and> dst_dialled v2 = dst_dialled v @ [addrs] \<and> dst_out v2 = dst_out v @ concat datas \<and> dst_closed v2"
    by fastforce
qed

lemma serve_upstream_run:
  assumes "dispatch addr w = (Inr (info, handshake), w0)"
    and "(case handshake of
        Socks5ClientTransport \<Rightarrow> socks_handshake env factory socket info
      | HttpClientTransport \<Rightarrow> http_handshake H env factory info) w0 = (Inr (RelayTcp relay), w1)"
    and "links w1 = ls @ [l\<lparr>link_in := ins, link_out := [m]\<rparr>]"
    and "link (tr_proxy_connection relay) = length ls" "link_fault l = None"
  shows "\<exists>w'. serve_client_upstream H env factory socket addr w = (Some (tr_proxy_connection relay), w')
    \<and> link_out (links w' ! length ls) =
        m # relay_messages env (draws w1) (first_data relay @ data_prefix (client_in w1))
    \<and> client_out w' = client_out w1 \<and> dialled w' = dialled w1"
proof -
  obtain enc w2 w3 where "tcp_relay env relay w1 = (Inr (agent_get_user_token (config env), enc), w2)"
    "client_to_proxy_task env (agent_get_user_token (config env)) enc (tr_proxy_connection relay) w2 = (Inr (), w3)"
    and xs: "link_out (links w3 ! length ls) =
        m # relay_messages env (draws w1) (first_data relay @ data_prefix (client_in w1))"
    "client_out w3 = client_out w1" "dialled w3 = dialled w1"
    using relayed_messages [OF assms(3-5)] by blast
  then have "serve_client_upstream H env factory socket addr w = (Some (tr_proxy_connection relay), w3)"
    using assms(1,2) by (simp add: serve_client_upstream_def handle_client_connection_def bnd_def ret_def)
  with xs show ?thesis
    by blast
qed

text \<open>The init request of a handshake that starts at a given draw.\<close>

definition init_message :: "agent_env \<Rightarrow> nat \<Rightarrow> SocketAddr \<Rightarrow> PpaassUnifiedAddress \<Rightarrow> PpaassAgentMessage" where
  "init_message env n addr dst =
     \<lparr>am_message_id = new_v4 env (n + 1), am_user_token = agent_get_user_token (config env),
      am_encryption = AesEncryption (random_array env n),
      am_payload = AgentTcp (AgentTcpInit (UnifiedIp addr) dst)\<rparr>"

lemma session_serves:
  assumes "aes_law L" "gz_law L" "bincode_law L" "compress a" "status p = Head"
    and "keys_match L a p (agent_get_user_token (config env))"
  shows "proxy_serves L a p penv (init_message env n addr dst # relay_messages env k datas) (UnifiedIp addr) dst
    (concat datas)"
  using assms by (rule proxy_servesI) (simp_all add: init_message_def relay_messages_fields)



end
