(* ===== verification/UdpSession.thy ===== *)
theory UdpSession
  imports Tunnel
begin

text \<open>
  One datagram of a SOCKS client through both halves: the agent's UDP relay, the two codecs, the
  proxy's transport and UDP handler, the destination's answer and the way back.
\<close>

text \<open>The message the agent's relay makes of a packet.\<close>

definition udp_request ::
  "agent_env \<Rightarrow> nat \<Rightarrow> PpaassMessagePayloadEncryption \<Rightarrow> SocketAddr \<Rightarrow> Socks5UdpDataPacket \<Rightarrow> PpaassAgentMessage" where
  "udp_request env n enc client packet =
     \<lparr>am_message_id = new_v4 env n, am_user_token = agent_get_user_token (config env), am_encryption = enc,
      am_payload = AgentUdp \<lparr>au_src_address = UnifiedIp client,
        au_dst_address = unified_of_socks (udp_address packet), au_data = udp_data packet,
        au_need_response = True\<rparr>\<rparr>"

text \<open>The proxy's transport for such a message, when the destination answers.\<close>

lemma transport_udp_run:
  assumes "agent_in v = [Inr m]" "am_payload m = AgentUdp q" "au_need_response q"
    and "udp_bind_fault v = None" "udp_dial_outcome v = UdpConnected" "udp_write_fault v = None"
      "agent_fault v = None"
    and "collect_socket_addrs (presolve_name env) (au_dst_address q) = Inr addrs"
    and "joined (udp_in v) = Some reply" "reply \<noteq> []"
  shows "\<exists>v'. transport_exec env tid v = (Inr None, v')
    \<and> udp_sent v' = udp_sent v @ [au_data q] \<and> udp_dialled v' = udp_dialled v @ [addrs] \<and> agent_closed v'
    \<and> agent_out v' = agent_out v @ [\<lparr>pm_message_id = pnew_v4 env (pdraws v + 1), pm_user_token = am_user_token m,
        pm_encryption = AesEncryption (prandom_array env (pdraws v)),
        pm_payload = ProxyUdp \<lparr>pu_src_address = au_src_address q, pu_dst_address = au_dst_address q,
          pu_data = reply\<rparr>\<rparr>]"
proof -
  let ?v = "v\<lparr>agent_in := [], pdraws := pdraws v + 1\<rparr>"
  let ?req = "\<lparr>uh_transport_id = tid, uh_user_token = am_user_token m, uh_src_address = au_src_address q,
    uh_dst_address = au_dst_address q, uh_udp_data = au_data q,
    uh_payload_encryption = AesEncryption (prandom_array env (pdraws v)), uh_need_response = au_need_response q\<rparr>"
  have world: "udp_bind_fault ?v = None" "udp_dial_outcome ?v = UdpConnected" "udp_write_fault ?v = None"
    "agent_fault ?v = None" "collect_socket_addrs (presolve_name env) (uh_dst_address ?req) = Inr addrs"
    using assms(4-8) by simp_all
  obtain r w where run: "udp_handler_exec env ?req ?v = (r, w)"
    and w: "r = Inr ()" "udp_sent w = udp_sent v @ [au_data q]" "udp_dialled w = udp_dialled v @ [addrs]"
      "agent_closed w"
      "agent_out w = agent_out v @ [\<lparr>pm_message_id = pnew_v4 env (pdraws v + 1), pm_user_token = am_user_token m,
        pm_encryption = AesEncryption (prandom_array env (pdraws v)),
        pm_payload = ProxyUdp \<lparr>pu_src_address = au_src_address q, pu_dst_address = au_dst_address q,
          pu_data = reply\<rparr>\<rparr>]"
    using udp_exchange_run [OF world(1,5,2,3,4)] assms(3,9,10) by (auto simp: Let_def)
  have "transport_exec env tid v = (Inr None, w\<lparr>transport_number := transport_number w - 1\<rparr>)"
    using assms(1,2) run w(1)
    by (simp add: transport_exec_def bnd_def agent_next_def ret_def proxy_random_32_bytes_def Let_def
        fetch_sub_1_def)
  with w(2-5) show ?thesis
    by simp
qed

text \<open>The answer the proxy gives, in terms of the packet.\<close>

definition udp_answer ::
  "proxy_env \<Rightarrow> nat \<Rightarrow> string \<Rightarrow> SocketAddr \<Rightarrow> Socks5UdpDataPacket \<Rightarrow> bytes \<Rightarrow> PpaassProxyMessage" where
  "udp_answer env n user_token client packet reply =
     \<lparr>pm_message_id = pnew_v4 env (n + 1), pm_user_token = user_token,
      pm_encryption = AesEncryption (prandom_array env n),
      pm_payload = ProxyUdp \<lparr>pu_src_address = UnifiedIp client,
        pu_dst_address = unified_of_socks (udp_address packet), pu_data = reply\<rparr>\<rparr>"

lemma udp_proxy_serves:
  assumes lib: "aes_law L" "gz_law L" "bincode_law L" "compress a" "status p = Head"
      "keys_match L a p (agent_get_user_token (config env))"
    and up: "proxy_encode L rng a (udp_request env n enc client packet) [] = (Inr (), wire)"
      "length wire < 2 ^ 64" "concat chunks = wire"
      "agent_in v = map Inr (fst (read_chunks (agent_decode L) p chunks))"
    and proxy: "udp_bind_fault v = None" "udp_dial_outcome v = UdpConnected" "udp_write_fault v = None"
      "agent_fault v = None"
      "collect_socket_addrs (presolve_name penv) (unified_of_socks (udp_address packet)) = Inr addrs"
      "joined (udp_in v) = Some reply" "reply \<noteq> []"
  shows "\<exists>v'. transport_exec penv tid v = (Inr None, v')
    \<and> udp_sent v' = udp_sent v @ [udp_data packet] \<and> udp_dialled v' = udp_dialled v @ [addrs]
    \<and> agent_out v' = agent_out v @ [udp_answer penv (pdraws v) (agent_get_user_token (config env)) client packet reply]"
proof -
  let ?m = "udp_request env n enc client packet"
  let ?u = "agent_get_user_token (config env)"
  have m: "am_user_token ?m = ?u"
    by (simp add: udp_request_def)
  have "\<forall>x \<in> set [(rng, ?m)]. keys_match L a p (am_user_token (snd x))"
    using lib(6) m by simp
  moreover have "forward (\<lambda>x. proxy_encode L (fst x) a (snd x)) [(rng, ?m)] [] = (Inr (), wire)"
    using up(1) by (simp add: bnd_def ret_def)
  ultimately obtain xs where xs: "read_chunks (agent_decode L) p chunks = (xs, Waiting p [])"
      "list_all2 (\<lambda>x m'. m' = (snd x)\<lparr>am_encryption := am_encryption m'\<rparr>) [(rng, ?m)] xs"
    using agent_stream_decoded [OF lib(1-5) _ _ up(2,3)] by blast
  then obtain m' where m': "xs = [m']" "m' = ?m\<lparr>am_encryption := am_encryption m'\<rparr>"
    by (auto simp: list_all2_Cons1)
  have fields: "am_payload m' = am_payload ?m" "am_user_token m' = ?u"
    using arg_cong [OF m'(2), of am_payload] arg_cong [OF m'(2), of am_user_token] m by simp_all
  have arrived: "agent_in v = [Inr m']"
    using up(4) xs(1) m'(1) by simp
  note run = transport_udp_run [OF arrived fields(1) [unfolded udp_request_def, simplified], of penv addrs reply tid]
  show ?thesis
    using run proxy fields(2) by (auto simp: udp_answer_def)
qed


end
