(* ===== verification/SessionSamples.thy ===== *)
theory SessionSamples
  imports Session UdpSession TunnelSamples
begin

text \<open>
  Concrete sessions.  The library's serialisation is a table of the messages that occur: a
  message becomes its place in the table.
\<close>

fun index_of :: "'a list \<Rightarrow> 'a \<Rightarrow> nat" where
  "index_of [] m = 0"
| "index_of (x # xs) m = (if x = m then 0 else Suc (index_of xs m))"

definition table_ser :: "'a list \<Rightarrow> 'a \<Rightarrow> ext_error + bytes" where
  "table_ser tab m = (if index_of tab m < length tab then Inr [word_of_nat (index_of tab m)] else Inl ''unknown'')"

definition table_de :: "'a list \<Rightarrow> bytes \<Rightarrow> ext_error + 'a" where
  "table_de tab b =
     (if length b = 1 \<and> unat (hd b) < length tab then Inr (tab ! unat (hd b)) else Inl ''unknown'')"

definition table_lib ::
  "CodecPpaassMessage list \<Rightarrow> PpaassAgentMessagePayload list \<Rightarrow> PpaassProxyMessagePayload list
   \<Rightarrow> (nat, nat) codec_lib" where
  "table_lib cms aps pps = (sample_lib undefined undefined undefined)
     \<lparr>ser_codec_message := table_ser cms, de_codec_message := table_de cms,
      ser_agent_payload := table_ser aps, de_agent_payload := table_de aps,
      ser_proxy_payload := table_ser pps, de_proxy_payload := table_de pps\<rparr>"

lemma index_of_nth: "index_of tab m < length tab \<Longrightarrow> tab ! index_of tab m = m"
  by (induction tab) (auto split: if_splits)

lemma table_roundtrip:
  assumes "length tab \<le> 256" "table_ser tab m = Inr b"
  shows "table_de tab b = Inr m"
proof -
  have i: "index_of tab m < length tab" "b = [word_of_nat (index_of tab m)]"
    using assms(2) by (auto simp: table_ser_def split: if_splits)
  then have "unat (word_of_nat (index_of tab m) :: byte) = index_of tab m"
    using assms(1) by (simp add: unat_of_nat)
  with i index_of_nth [OF i(1)] show ?thesis
    by (simp add: table_de_def)
qed

lemma table_laws:
  assumes "length cms \<le> 256" "length aps \<le> 256" "length pps \<le> 256"
  shows "aes_law (table_lib cms aps pps)" "gz_law (table_lib cms aps pps)"
    "bincode_law (table_lib cms aps pps)" "rsa_law (table_lib cms aps pps) k k"
proof -
  show "aes_law (table_lib cms aps pps)" "gz_law (table_lib cms aps pps)"
    "rsa_law (table_lib cms aps pps) k k"
    using sample_laws [of undefined undefined undefined]
    by (simp_all add: aes_law_def gz_law_def rsa_law_def table_lib_def)
  show "bincode_law (table_lib cms aps pps)"
    using table_roundtrip [OF assms(1)] table_roundtrip [OF assms(2)] table_roundtrip [OF assms(3)]
    by (simp add: bincode_law_def table_lib_def)
qed

definition session_fetcher :: "nat \<Rightarrow> nat \<Rightarrow> (nat, nat) fetcher" where
  "session_fetcher priv pub = (\<lambda>user_token. Inr (Some \<lparr>private_key = priv, public_key = pub\<rparr>))"

lemma table_fields:
  "ser_codec_message (table_lib cms aps pps) = table_ser cms"
  "ser_agent_payload (table_lib cms aps pps) = table_ser aps"
  "ser_proxy_payload (table_lib cms aps pps) = table_ser pps"
  "gz_compress (table_lib cms aps pps) = (\<lambda>b. Inr (31 # b))"
  by (simp_all add: table_lib_def sample_lib_def)

lemma table_seal:
  assumes "length token = 32"
  shows "seal_payload (table_lib cms aps pps) rng k (AesEncryption token) (Inr [b]) =
      Inr (b # replicate 15 15, AesEncryption (word_of_nat (public_key k) # token))"
  using assms
  by (simp add: table_lib_def sample_lib_def seal_payload_def rsa_encrypt_def encrypt_with_aes_def aes_key_of_def
      BLOCK_SIZE_def Let_def sample_encrypt_1)

text \<open>The envelope of a message whose payload has a given place in the table of payloads.\<close>

definition envelope :: "PpaassAgentMessage \<Rightarrow> nat \<Rightarrow> CodecPpaassMessage" where
  "envelope m i = \<lparr>cm_message_id = am_message_id m, cm_user_token = am_user_token m,
     cm_encryption = (case am_encryption m of Plain \<Rightarrow> Plain | AesEncryption t \<Rightarrow> AesEncryption (8 # t)),
     cm_payload = word_of_nat i # replicate 15 15\<rparr>"

lemma table_encode:
  assumes "am_encryption m = AesEncryption token" "length token = 32"
    and "index_of aps (am_payload m) = i" "i < length aps"
    and "index_of cms (envelope m i) = j" "j < length cms"
  shows "proxy_encode (table_lib cms aps pps) rng (codec_new True (session_fetcher 9 8)) m dst =
    (Inr (), dst @ frame 1 [31, word_of_nat j])"
  using assms table_seal [OF assms(2)]
  by (simp add: proxy_encode_framed framed_encode_eq proxy_seal_body_def fetch_rsa_crypto_def
      codec_new_def session_fetcher_def pack_body_def try_into_bytes_def envelope_def table_fields table_ser_def)

text \<open>The same for a message of the proxy.\<close>

definition proxy_envelope :: "PpaassProxyMessage \<Rightarrow> nat \<Rightarrow> CodecPpaassMessage" where
  "proxy_envelope m i = \<lparr>cm_message_id = pm_message_id m, cm_user_token = pm_user_token m,
     cm_encryption = (case pm_encryption m of Plain \<Rightarrow> Plain | AesEncryption t \<Rightarrow> AesEncryption (9 # t)),
     cm_payload = word_of_nat i # replicate 15 15\<rparr>"

lemma table_encode_proxy:
  assumes "pm_encryption m = AesEncryption token" "length token = 32"
    and "index_of pps (pm_payload m) = i" "i < length pps"
    and "index_of cms (proxy_envelope m i) = j" "j < length cms"
  shows "agent_encode (table_lib cms aps pps) rng (codec_new True (session_fetcher 8 9)) m dst =
    (Inr (), dst @ frame 1 [31, word_of_nat j])"
  using assms table_seal [OF assms(2)]
  by (simp add: agent_encode_framed framed_encode_eq agent_seal_body_def fetch_rsa_crypto_def
      codec_new_def session_fetcher_def pack_body_def try_into_bytes_def proxy_envelope_def table_fields table_ser_def)

section \<open>Two messages on the wire\<close>

definition session_lib :: "PpaassAgentMessage \<Rightarrow> PpaassAgentMessage \<Rightarrow> (nat, nat) codec_lib" where
  "session_lib m0 m1 = table_lib [envelope m0 0, envelope m1 1] [am_payload m0, am_payload m1] []"

abbreviation session_agent :: "(nat, nat) connection_codec" where
  "session_agent \<equiv> codec_new True (session_fetcher 9 8)"

abbreviation session_proxy :: "(nat, nat) connection_codec" where
  "session_proxy \<equiv> codec_new True (session_fetcher 8 9)"

definition session_wire :: bytes where
  "session_wire = frame 1 [31, 0] @ frame 1 [31, 1]"

lemma session_lib_laws:
  "aes_law (session_lib m0 m1)" "gz_law (session_lib m0 m1)" "bincode_law (session_lib m0 m1)"
  "compress session_agent" "status session_proxy = Head" "keys_match (session_lib m0 m1) session_agent session_proxy u"
proof -
  have le: "length [envelope m0 0, envelope m1 1] \<le> 256" "length [am_payload m0, am_payload m1] \<le> 256"
    "length ([] :: PpaassProxyMessagePayload list) \<le> 256"
    by simp_all
  show "aes_law (session_lib m0 m1)" "gz_law (session_lib m0 m1)" "bincode_law (session_lib m0 m1)"
    using table_laws [OF le] by (simp_all add: session_lib_def)
  show "compress session_agent" "status session_proxy = Head"
    by (simp_all add: codec_new_def)
  show "keys_match (session_lib m0 m1) session_agent session_proxy u"
    using table_laws(4) [OF le, of 8]
    by (auto simp: keys_match_def codec_new_def session_fetcher_def session_lib_def fetch_rsa_crypto_def)
qed

lemma session_encodes:
  assumes "am_encryption m0 = AesEncryption t0" "length t0 = 32"
    and "am_encryption m1 = AesEncryption t1" "length t1 = 32" "am_payload m0 \<noteq> am_payload m1"
  shows "forward (\<lambda>(rng, m). proxy_encode (session_lib m0 m1) rng session_agent m) (zip [0, 0] [m0, m1]) [] =
    (Inr (), session_wire)"
proof -
  let ?cms = "[envelope m0 0, envelope m1 1]" and ?aps = "[am_payload m0, am_payload m1]"
  have e0: "proxy_encode (session_lib m0 m1) 0 session_agent m0 dst = (Inr (), dst @ frame 1 [31, 0])" for dst
    using table_encode [OF assms(1,2), of ?aps 0 ?cms 0] by (simp add: session_lib_def)
  have "envelope m0 0 \<noteq> envelope m1 1"
    by (simp add: envelope_def)
  then have e1: "proxy_encode (session_lib m0 m1) 0 session_agent m1 dst = (Inr (), dst @ frame 1 [31, 1])" for dst
    using table_encode [OF assms(3,4), of ?aps 1 ?cms 1] assms(5) by (simp add: session_lib_def)
  show ?thesis
    by (simp add: e0 e1 bnd_def ret_def session_wire_def)
qed

text \<open>The proxy's world when the wire has arrived in two pieces.\<close>

definition session_penv :: proxy_env where
  "session_penv = sample_penv\<lparr>presolve_name := (\<lambda>_. Inr [sample_client])\<rparr>"

definition session_world :: "(nat, nat) codec_lib \<Rightarrow> proxy_world" where
  "session_world L = (idle_world 0)\<lparr>agent_in := map Inr (fst (read_chunks (agent_decode L) session_proxy
     [take 9 session_wire, drop 9 session_wire])), dst_dial_outcome := DstConnected None None\<rparr>"

lemma session_served_sample:
  assumes "proxy_serves L session_agent session_proxy session_penv ms s (UnifiedDomain host port) dat"
    and "length ms = 2"
    and "forward (\<lambda>(rng, m). proxy_encode L rng session_agent m) (zip [0, 0] ms) [] = (Inr (), session_wire)"
  shows "\<exists>u enc v1 v2. transport_exec session_penv ''t'' (session_world L) = (Inr (Some (u, enc)), v1)
    \<and> agent_to_dst_task session_penv v1 = (Inr (), v2) \<and> dst_dialled v2 = [[sample_client]] \<and> dst_out v2 = dat"
proof -
  have "length session_wire < 2 ^ 64"
    by (simp add: session_wire_def frame_def PPAASS_FLAG_def)
  moreover have "concat [take 9 session_wire, drop 9 session_wire] = session_wire"
    by simp
  moreover have "length [0 :: nat, 0] = length ms"
    using assms(2) by simp
  moreover have "agent_in (session_world L) = map Inr (fst (read_chunks (agent_decode L) session_proxy
      [take 9 session_wire, drop 9 session_wire]))" "agent_fault (session_world L) = None"
    "dst_fault (session_world L) = None" "dst_dial_outcome (session_world L) = DstConnected None None"
    "dst_dialled (session_world L) = []" "dst_out (session_world L) = []"
    by (simp_all add: session_world_def idle_world_def)
  moreover have "collect_socket_addrs (presolve_name session_penv) (UnifiedDomain host port) = Inr [sample_client]"
    by (simp add: session_penv_def)
  ultimately show ?thesis
    using assms(1,3) unfolding proxy_serves_def by (metis append_Nil)
qed

section \<open>SOCKS\<close>

abbreviation socks_session_init :: PpaassAgentMessage where
  "socks_session_init \<equiv> init_message sample_env 0 sample_client (UnifiedDomain ''d'' 80)"

abbreviation socks_session_data :: PpaassAgentMessage where
  "socks_session_data \<equiv> hd (relay_messages sample_env 3 [[7]])"

lemma socks_session_encodes:
  "forward (\<lambda>(rng, m). proxy_encode (session_lib socks_session_init socks_session_data) rng session_agent m)
     (zip [0, 0] (init_message sample_env 0 sample_client (UnifiedDomain ''d'' 80) # relay_messages sample_env 3 [[7]])) []
   = (Inr (), session_wire)"
  using session_encodes [of socks_session_init "random_array sample_env 0" socks_session_data "random_array sample_env 3"]
  by (simp add: init_message_def relay_messages_def sample_env_def)


section \<open>HTTP\<close>

definition http_session_request :: bytes where
  "http_session_request = as_bytes ''http:///d''"

abbreviation http_session_init :: PpaassAgentMessage where
  "http_session_init \<equiv> init_message sample_env 0 sample_client (UnifiedDomain ''d'' 80)"

abbreviation http_session_data :: PpaassAgentMessage where
  "http_session_data \<equiv> hd (relay_messages sample_env 3 [http_session_request])"

lemma http_session_encodes:
  "forward (\<lambda>(rng, m). proxy_encode (session_lib http_session_init http_session_data) rng session_agent m)
     (zip [0, 0] (init_message sample_env 0 sample_client (UnifiedDomain ''d'' 80) #
        relay_messages sample_env 3 [http_session_request])) []
   = (Inr (), session_wire)"
  using session_encodes [of http_session_init "random_array sample_env 0" http_session_data "random_array sample_env 3"]
  by (simp add: init_message_def relay_messages_def sample_env_def)

lemma lower_get: "to_lowercase ''GET'' = ''get''"
  by code_simp


section \<open>UDP\<close>

abbreviation udp_packet :: Socks5UdpDataPacket where
  "udp_packet \<equiv> \<lparr>frag = 0, udp_address = SocksIp (V4 (Ipv4Addr 8 8 8 8) 53), udp_data = [6]\<rparr>"

abbreviation udp_session_up :: PpaassAgentMessage where
  "udp_session_up \<equiv> udp_request sample_env 0 (AesEncryption (replicate 32 1)) sample_client udp_packet"

abbreviation udp_session_down :: PpaassProxyMessage where
  "udp_session_down \<equiv> \<lparr>pm_message_id = ''m2'', pm_user_token = ''u'', pm_encryption = AesEncryption (replicate 32 0),
     pm_payload = ProxyUdp \<lparr>pu_src_address = UnifiedIp sample_client,
       pu_dst_address = UnifiedIp (V4 (Ipv4Addr 8 8 8 8) 53), pu_data = [7]\<rparr>\<rparr>"

definition udp_session_lib :: "(nat, nat) codec_lib" where
  "udp_session_lib = table_lib [envelope udp_session_up 0, proxy_envelope udp_session_down 0]
     [am_payload udp_session_up] [pm_payload udp_session_down]"

lemma udp_session_laws:
  "aes_law udp_session_lib" "gz_law udp_session_lib" "bincode_law udp_session_lib"
  "compress session_agent" "status session_agent = Head" "compress session_proxy" "status session_proxy = Head"
  "keys_match udp_session_lib session_agent session_proxy u" "keys_match udp_session_lib session_proxy session_agent u"
proof -
  note laws = table_laws [of "[envelope udp_session_up 0, proxy_envelope udp_session_down 0]"
      "[am_payload udp_session_up]" "[pm_payload udp_session_down]"]
  show "aes_law udp_session_lib" "gz_law udp_session_lib" "bincode_law udp_session_lib"
    using laws by (simp_all add: udp_session_lib_def)
  show "compress session_agent" "status session_agent = Head" "compress session_proxy" "status session_proxy = Head"
    by (simp_all add: codec_new_def)
  show "keys_match udp_session_lib session_agent session_proxy u" "keys_match udp_session_lib session_proxy session_agent u"
    using laws(4) [of 8] laws(4) [of 9]
    by (auto simp: keys_match_def codec_new_def session_fetcher_def udp_session_lib_def fetch_rsa_crypto_def)
qed

lemma udp_session_encodes:
  "proxy_encode udp_session_lib 0 session_agent udp_session_up [] = (Inr (), frame 1 [31, 0])"
  "agent_encode udp_session_lib 0 session_proxy udp_session_down [] = (Inr (), frame 1 [31, 1])"
proof -
  let ?cms = "[envelope udp_session_up 0, proxy_envelope udp_session_down 0]"
  have "envelope udp_session_up 0 \<noteq> proxy_envelope udp_session_down 0"
    by (simp add: envelope_def proxy_envelope_def udp_request_def)
  then show "proxy_encode udp_session_lib 0 session_agent udp_session_up [] = (Inr (), frame 1 [31, 0])"
    "agent_encode udp_session_lib 0 session_proxy udp_session_down [] = (Inr (), frame 1 [31, 1])"
    using table_encode [of udp_session_up "replicate 32 1" "[am_payload udp_session_up]" 0 ?cms 0 "[pm_payload udp_session_down]" 0 "[]"]
      table_encode_proxy [of udp_session_down "replicate 32 0" "[pm_payload udp_session_down]" 0 ?cms 1 "[am_payload udp_session_up]" 0 "[]"]
    by (simp_all add: udp_session_lib_def udp_request_def)
qed

definition udp_session_world :: proxy_world where
  "udp_session_world = (idle_world 0)\<lparr>agent_in := map Inr (fst (read_chunks (agent_decode udp_session_lib) session_proxy
       [take 9 (frame 1 [31, 0]), drop 9 (frame 1 [31, 0])])),
     udp_dial_outcome := UdpConnected, udp_in := [RecvBytes [7]]\<rparr>"

definition udp_session_link :: proxy_link where
  "udp_session_link = \<lparr>link_in = map Inr (fst (read_chunks (proxy_decode udp_session_lib) session_agent
       [take 9 (frame 1 [31, 1]), drop 9 (frame 1 [31, 1])])),
     link_out = [], link_fault = None, link_closed = False\<rparr>"

definition udp_session_agent :: udp_world where
  "udp_session_agent = agent_world.extend ((sample_world [] sample_answer [])\<lparr>dials := [Dialed None udp_session_link]\<rparr>)
     \<lparr>udp_out = [], udp_send_fault = None\<rparr>"


end
