(* ===== verification/Ownership.thy ===== *)
theory Ownership
  imports AgentRelay
begin

text \<open>
  Which connections a client's service touches.  A connection is named by its place in
  \<open>links\<close>; every task of the agent works on the same list.  The theory shows that
  serving one client leaves the connections of all others alone and that the connection it hands to
  its relay is one it has opened itself.
\<close>

section \<open>Actions that only add to a resource\<close>

text \<open>
  \<open>kept s t\<close> says that \<open>t\<close> still has what \<open>s\<close> had and must not change, \<open>amount\<close> how much there is.
  \<open>adds kept amount b Q m\<close>: from any state with at least \<open>b\<close>, \<open>m\<close> ends in one where everything is
  kept, also when it fails, and a value it returns satisfies \<open>Q\<close> for an amount that is there.
\<close>

definition adds :: "('s \<Rightarrow> 's \<Rightarrow> bool) \<Rightarrow> ('s \<Rightarrow> nat) \<Rightarrow> nat \<Rightarrow> ('a \<Rightarrow> nat \<Rightarrow> bool) \<Rightarrow> ('s, 'e, 'a) rust \<Rightarrow> bool" where
  "adds kept amount b Q m \<longleftrightarrow> (\<forall>s r t. b \<le> amount s \<longrightarrow> m s = (r, t) \<longrightarrow>
     kept s t \<and> (\<forall>x. r = Inr x \<longrightarrow> (\<exists>k. b \<le> k \<and> k \<le> amount t \<and> Q x k)))"

locale growing =
  fixes kept :: "'s \<Rightarrow> 's \<Rightarrow> bool" and amount :: "'s \<Rightarrow> nat"
  assumes kept_refl: "kept s s"
    and kept_trans: "kept s t \<Longrightarrow> kept t u \<Longrightarrow> kept s u"
    and kept_amount: "kept s t \<Longrightarrow> amount s \<le> amount t"
begin

lemma adds_ret: "Q x b \<Longrightarrow> adds kept amount b Q (ret x)"
  by (auto simp: adds_def ret_def kept_refl)

lemma adds_fail: "adds kept amount b Q (throw e)" "adds kept amount b Q panic"
  by (simp_all add: adds_def throw_def panic_def kept_refl)

lemma adds_bnd:
  assumes "adds kept amount b P m" and "\<And>x k. b \<le> k \<Longrightarrow> P x k \<Longrightarrow> adds kept amount k Q (f x)"
  shows "adds kept amount b Q (bnd m f)"
  unfolding adds_def
proof (intro allI impI)
  fix s t r
  assume b: "b \<le> amount s" and run: "bnd m f s = (r, t)"
  obtain r1 s1 where m: "m s = (r1, s1)"
    by fastforce
  from assms(1) b m have s1: "kept s s1" "\<And>x. r1 = Inr x \<Longrightarrow> \<exists>k. b \<le> k \<and> k \<le> amount s1 \<and> P x k"
    unfolding adds_def by blast+
  show "kept s t \<and> (\<forall>x. r = Inr x \<longrightarrow> (\<exists>k. b \<le> k \<and> k \<le> amount t \<and> Q x k))"
  proof (cases r1)
    case (Inl e)
    with run m s1(1) show ?thesis
      by (auto simp: bnd_def)
  next
    case (Inr x)
    then obtain k where k: "b \<le> k" "k \<le> amount s1" "P x k"
      using s1(2) by blast
    have "f x s1 = (r, t)"
      using run m Inr by (simp add: bnd_def)
    with assms(2) [OF k(1,3)] k(2) have "kept s1 t"
      "\<And>y. r = Inr y \<Longrightarrow> \<exists>k'. k \<le> k' \<and> k' \<le> amount t \<and> Q y k'"
      unfolding adds_def by blast+
    then show ?thesis
      using kept_trans [OF s1(1)] k(1) order_trans [OF k(1)] by blast
  qed
qed

lemma adds_try_res: "(\<And>x. r = Inr x \<Longrightarrow> Q x b) \<Longrightarrow> adds kept amount b Q (try_res conv r)"
  by (cases r) (simp_all add: try_res_def adds_ret adds_fail)

lemma adds_map_err: "adds kept amount b Q m \<Longrightarrow> adds kept amount b Q (map_err conv m)"
  unfolding adds_def map_err_def
  by (fastforce split: prod.splits sum.splits failure.splits)

lemma adds_effect:
  assumes "\<And>s r t. m s = (r, t) \<Longrightarrow> kept s t"
  shows "adds kept amount b (\<lambda>_ _. True) m"
  using assms by (auto simp: adds_def) (meson kept_amount order_refl order_trans)

lemma adds_logged: "adds kept amount b (\<lambda>_ _. True) m \<Longrightarrow> adds kept amount b (\<lambda>_ _. True) (logged m)"
  unfolding adds_def logged_def
  by (fastforce split: prod.splits sum.splits failure.splits dest: kept_amount)

lemma adds_forward:
  assumes "\<And>k x. b \<le> k \<Longrightarrow> adds kept amount k (\<lambda>_ _. True) (step x)"
    and "\<And>k y. b \<le> k \<Longrightarrow> adds kept amount k (\<lambda>_ _. True) (send y)" and "b \<le> k"
  shows "adds kept amount k (\<lambda>_ _. True) (map_while_forward step send xs)"
  using assms(3)
proof (induction xs arbitrary: k)
  case (Cons x xs)
  show ?case
    unfolding map_while_forward.simps
    by (intro adds_bnd [OF assms(1) [OF Cons.prems]], split option.split, intro conjI allI impI adds_ret TrueI
        adds_bnd [OF assms(2)] Cons.IH) (use Cons.prems in linarith)+
qed (simp add: adds_ret)

lemma adds_cases:
  "(x = None \<Longrightarrow> adds kept amount b Q f) \<Longrightarrow> (\<And>y. x = Some y \<Longrightarrow> adds kept amount b Q (g y)) \<Longrightarrow>
    adds kept amount b Q (case x of None \<Rightarrow> f | Some y \<Rightarrow> g y)"
  "(\<And>e. z = Inl e \<Longrightarrow> adds kept amount b Q (h e)) \<Longrightarrow> (\<And>y. z = Inr y \<Longrightarrow> adds kept amount b Q (i y)) \<Longrightarrow>
    adds kept amount b Q (case z of Inl e \<Rightarrow> h e | Inr y \<Rightarrow> i y)"
  "(\<And>u v. p = (u, v) \<Longrightarrow> adds kept amount b Q (j u v)) \<Longrightarrow> adds kept amount b Q (case p of (u, v) \<Rightarrow> j u v)"
  "(c \<Longrightarrow> adds kept amount b Q f) \<Longrightarrow> (\<not> c \<Longrightarrow> adds kept amount b Q f') \<Longrightarrow>
    adds kept amount b Q (if c then f else f')"
  by (auto split: option.split sum.split prod.split)

lemma adds_run:
  assumes "adds kept amount (amount s) Q m" "m s = (r, t)"
  shows "kept s t" "r = Inr x \<Longrightarrow> \<exists>k. amount s \<le> k \<and> k \<le> amount t \<and> Q x k"
  using assms unfolding adds_def by blast+

end

section \<open>The connections of an agent\<close>

definition links_kept :: "nat \<Rightarrow> agent_world \<Rightarrow> agent_world \<Rightarrow> bool" where
  "links_kept n w w' \<longleftrightarrow> take n (links w') = take n (links w) \<and> length (links w) \<le> length (links w')"

abbreviation opens :: "nat \<Rightarrow> nat \<Rightarrow> ('a \<Rightarrow> nat \<Rightarrow> bool) \<Rightarrow> ('e, 'a) agent \<Rightarrow> bool" where
  "opens n \<equiv> adds (links_kept n) (\<lambda>w. length (links w))"

interpretation agent_links: growing "links_kept n" "\<lambda>w. length (links w)" for n
  by unfold_locales (auto simp: links_kept_def)

text \<open>A connection of the task's own: one that was not there before, and that is there now.\<close>

definition own :: "nat \<Rightarrow> ProxyConnection \<Rightarrow> nat \<Rightarrow> bool" where
  "own n c k \<longleftrightarrow> n \<le> link c \<and> link c < k"

lemma opens_same_links:
  assumes "\<And>w r w'. m w = (r, w') \<Longrightarrow> links w' = links w"
  shows "opens n b (\<lambda>_ _. True) m"
  by (rule agent_links.adds_effect) (use assms in \<open>fastforce simp: links_kept_def\<close>)

lemma opens_same_links_simple:
  "opens n b (\<lambda>_ _. True) (random_32_bytes env)" "opens n b (\<lambda>_ _. True) (uuid_new_v4 env)"
  "opens n b (\<lambda>_ _. True) (client_next decode conv framed)" "opens n b (\<lambda>_ _. True) (client_send encode conv' item)"
  "opens n b (\<lambda>_ _. True) (client_write bs)" "opens n b (\<lambda>_ _. True) client_close"
  by (rule opens_same_links;
      auto simp: random_32_bytes_def uuid_new_v4_def client_next_def client_send_def client_write_def
        client_close_def throw_def ret_def split: prod.splits sum.splits option.splits)+

lemma links_kept_update: "n \<le> i \<Longrightarrow> links_kept n w (update_link i f w)"
  by (simp add: links_kept_def update_link_def)

lemma opens_on_own:
  assumes "n \<le> link c"
  shows "opens n b (\<lambda>_ _. True) (proxy_send c m)" "opens n b (\<lambda>_ _. True) (proxy_next c)"
    "opens n b (\<lambda>_ _. True) (proxy_close c)"
  using links_kept_update [OF assms] agent_links.kept_refl [of n]
  by (intro agent_links.adds_effect;
      auto simp: proxy_send_def proxy_next_def proxy_close_def throw_def ret_def split: option.splits list.splits)+

lemma opens_cases:
  "opens n b Q f \<Longrightarrow> (\<And>e. opens n b Q (g e)) \<Longrightarrow> (\<And>nodelay l. d = Dialed nodelay l \<Longrightarrow> opens n b Q (h nodelay l)) \<Longrightarrow>
    opens n b Q (case d of DialTimeout \<Rightarrow> f | DialError e \<Rightarrow> g e | Dialed nodelay l \<Rightarrow> h nodelay l)"
  "opens n b Q u \<Longrightarrow> opens n b Q v \<Longrightarrow> opens n b Q f \<Longrightarrow>
    opens n b Q (case p of Http \<Rightarrow> u | Socks4 \<Rightarrow> f | Socks5 \<Rightarrow> v)"
  "opens n b Q u \<Longrightarrow> opens n b Q v \<Longrightarrow>
    opens n b Q (case t of Socks5ClientTransport \<Rightarrow> u | HttpClientTransport \<Rightarrow> v)"
  "(\<And>r. i = RelayTcp r \<Longrightarrow> opens n b Q (j r)) \<Longrightarrow> (\<And>r. opens n b Q (k r)) \<Longrightarrow>
    opens n b Q (case i of RelayTcp r \<Rightarrow> j r | RelayUdp r \<Rightarrow> k r)"
  by (auto split: dial.split ClientProtocol.split client_transport.split ClientTransportDataRelayInfo.split)

lemma opens_create_connection:
  assumes "n \<le> b"
  shows "opens n b (own n) (create_connection env factory)"
proof -
  have connect: "opens n b (\<lambda>_ _. True) (tcp_connect addrs)" for addrs
    by (rule opens_same_links) (auto simp: tcp_connect_def Let_def split: list.splits)
  have new: "opens n k (\<lambda>i k. n \<le> i \<and> i < k) (open_link l)" if "n \<le> k" for k l
    unfolding adds_def open_link_def
  proof (intro allI impI)
    fix s t :: agent_world and r
    assume s: "k \<le> length (links s)" "(Inr (length (links s)), s\<lparr>links := links s @ [l]\<rparr>) = (r, t)"
    then have t: "r = Inr (length (links s))" "links t = links s @ [l]"
      by auto
    then have "links_kept n s t"
      using that s(1) by (simp add: links_kept_def)
    with t that s(1) show "links_kept n s t \<and>
        (\<forall>i. r = Inr i \<longrightarrow> (\<exists>k'. k \<le> k' \<and> k' \<le> length (links t) \<and> n \<le> i \<and> i < k'))"
      by (auto intro!: exI [of _ "Suc (length (links s))"])
  qed
  have name: "opens n k (own n) (bnd (uuid_new_v4 env) (\<lambda>uuid. ret \<lparr>connection_id = uuid, link = i\<rparr>))"
    if "n \<le> i \<and> i < k" for i k
    using that by (intro agent_links.adds_bnd [OF opens_same_links_simple(2)] agent_links.adds_ret)
      (simp add: own_def)
  show ?thesis
    unfolding create_connection_def
    by (rule connect new name agent_links.adds_bnd opens_cases agent_links.adds_cases agent_links.adds_fail
        | assumption | (use assms in \<open>auto; fail\<close>))+
qed

lemma own_mono: "own n c k \<Longrightarrow> k \<le> k' \<Longrightarrow> own n c k'"
  by (simp add: own_def)

definition own_relay :: "nat \<Rightarrow> ClientTransportDataRelayInfo \<Rightarrow> nat \<Rightarrow> bool" where
  "own_relay n info k = (case info of RelayTcp t \<Rightarrow> own n (tr_proxy_connection t) k | RelayUdp u \<Rightarrow> True)"

lemma opens_try_res: "opens n b (\<lambda>_ _. True) (try_res conv r)"
  by (rule agent_links.adds_try_res) simp

lemmas opens_rules = opens_cases agent_links.adds_bnd agent_links.adds_cases agent_links.adds_map_err agent_links.adds_fail
  opens_try_res opens_same_links_simple

text \<open>Once the connection is there, the rest of a handshake uses it and hands it on.\<close>

lemma opens_connect_rest:
  assumes "n \<le> b" and "\<And>c k x. own n c k \<Longrightarrow> opens n k Q (f c x)"
  shows "opens n b Q (bnd (create_connection env factory) (\<lambda>c.
     bnd (map_err g (proxy_send c m)) (\<lambda>_. bnd (proxy_next c) (f c))))"
proof (rule agent_links.adds_bnd [OF opens_create_connection [OF assms(1)]])
  fix c k assume "own n c k"
  then have c: "n \<le> link c"
    by (simp add: own_def)
  show "opens n k Q (bnd (map_err g (proxy_send c m)) (\<lambda>_. bnd (proxy_next c) (f c)))"
    by (rule agent_links.adds_bnd [OF agent_links.adds_map_err [OF opens_on_own(1) [OF c]]],
        rule agent_links.adds_bnd [OF opens_on_own(2) [OF c]], rule assms(2))
      (use \<open>own n c k\<close> in \<open>auto simp: own_def\<close>)
qed

lemma opens_handle_connect:
  assumes "n \<le> b"
  shows "opens n b (own_relay n) (handle_connect_command env factory src dst)"
  unfolding handle_connect_command_def Let_def
  by (rule opens_connect_rest opens_rules agent_links.adds_ret
      | (use assms in \<open>simp add: own_relay_def own_def; fail\<close>))+

lemma opens_socks_handshake:
  assumes "n \<le> b"
  shows "opens n b (own_relay n) (socks_handshake env factory socket info)"
proof -
  have udp: "opens n k (own_relay n) (handle_udp_associate_command socket dst)" for k dst
    unfolding handle_udp_associate_command_def Let_def
    by (rule opens_rules agent_links.adds_ret | (simp add: own_relay_def; fail))+
  have command: "opens n k (own_relay n) (case t of
      Bind \<Rightarrow> handle_bind_command src dst | UdpAssociate \<Rightarrow> handle_udp_associate_command socket dst
    | Connect \<Rightarrow> handle_connect_command env factory src dst)" if "b \<le> k" for t k src dst
    using assms that udp opens_handle_connect [of n k] agent_links.adds_fail(2)
    by (cases t) (simp_all add: handle_bind_command_def)
  show ?thesis
    unfolding socks_handshake_def Let_def
    by (rule opens_rules command | (simp; fail))+
qed

lemma opens_http_handshake:
  assumes "n \<le> b"
  shows "opens n b (own_relay n) (http_handshake H env factory info)"
  unfolding http_handshake_def Let_def
  by (rule opens_connect_rest opens_rules agent_links.adds_ret
      | (use assms in \<open>simp add: own_relay_def own_def; fail\<close>))+

lemma opens_tcp_relay:
  assumes "n \<le> link (tr_proxy_connection info)"
  shows "opens n b (\<lambda>_ _. True) (tcp_relay env info)"
  unfolding tcp_relay_def Let_def
  by (rule agent_links.adds_bnd [where P = "\<lambda>_ _. True"] opens_on_own [OF assms] agent_links.adds_ret
      opens_rules TrueI)+

lemma opens_dispatch: "opens n b (\<lambda>_ _. True) (dispatch addr)"
  unfolding dispatch_def Let_def
  by (rule opens_rules agent_links.adds_ret TrueI)+

lemma opens_handle_client:
  "opens n n (\<lambda>x k. case x of TcpTasks c u enc \<Rightarrow> own n c k | UdpLoop a \<Rightarrow> True)
     (handle_client_connection H env factory socket addr)"
proof -
  have tcp: "opens n k (\<lambda>_ k. own n (tr_proxy_connection r) k) (tcp_relay env r)"
    if "own_relay n i k" "i = RelayTcp r" for i r k
  proof -
    have "n \<le> link (tr_proxy_connection r)" and own: "\<And>k'. k \<le> k' \<Longrightarrow> own n (tr_proxy_connection r) k'"
      using that by (auto simp: own_relay_def own_def)
    from opens_tcp_relay [OF this(1), of k env] show ?thesis
      unfolding adds_def using own by blast
  qed
  show ?thesis
    unfolding handle_client_connection_def
    by (rule opens_dispatch tcp opens_socks_handshake opens_http_handshake opens_rules agent_links.adds_ret
        | (simp; fail) | assumption)+
qed

section \<open>The relay tasks\<close>

text \<open>A relay task works on its connection only, wherever in the list it stands.\<close>

definition others_kept :: "nat \<Rightarrow> agent_world \<Rightarrow> agent_world \<Rightarrow> bool" where
  "others_kept i w w' \<longleftrightarrow> length (links w') = length (links w) \<and> (\<forall>j. j \<noteq> i \<longrightarrow> links w' ! j = links w ! j)"

abbreviation works_on :: "nat \<Rightarrow> ('e, 'a) agent \<Rightarrow> bool" where
  "works_on i \<equiv> adds (others_kept i) (\<lambda>w. length (links w)) 0 (\<lambda>_ _. True)"

interpretation other_links: growing "others_kept i" "\<lambda>w. length (links w)" for i
  by unfold_locales (auto simp: others_kept_def)

lemma works_on_own:
  "adds (others_kept (link c)) (\<lambda>w. length (links w)) b (\<lambda>_ _. True) (client_message_step env u enc m)"
  "adds (others_kept (link c)) (\<lambda>w. length (links w)) b (\<lambda>_ _. True) (proxy_send c x)"
  "adds (others_kept (link c)) (\<lambda>w. length (links w)) b (\<lambda>_ _. True) (proxy_close c)"
  "adds (others_kept (link c)) (\<lambda>w. length (links w)) b (\<lambda>_ _. True) (client_write bs)"
  "adds (others_kept (link c)) (\<lambda>w. length (links w)) b (\<lambda>_ _. True) client_close"
  by (rule other_links.adds_effect;
      auto simp: client_message_step_def proxy_send_def proxy_close_def client_write_def client_close_def
        update_link_def others_kept_def rust_defs uuid_new_v4_def generator_defs
        split: option.splits sum.splits)+

lemma adds_from:
  "adds kept amount 0 Q m \<Longrightarrow> kept w (snd (m w))"
  by (cases "m w") (simp add: adds_def)

lemma client_to_proxy_task_own: "others_kept (link c) w (snd (client_to_proxy_task env u enc c w))"
proof -
  let ?w = "w\<lparr>client_in := []\<rparr>"
  have "works_on (link c) (bnd (logged (map_while_forward (client_message_step env u enc) (proxy_send c)
      (client_in w))) (\<lambda>_. proxy_close c))"
    by (rule other_links.adds_bnd other_links.adds_logged other_links.adds_forward works_on_own order_refl)+
  from adds_from [OF this, of ?w] show ?thesis
    by (simp add: client_to_proxy_task_def others_kept_def)
qed

lemma proxy_to_client_task_own: "others_kept (link c) w (snd (proxy_to_client_task c w))"
proof -
  let ?w = "update_link (link c) (\<lambda>l. l\<lparr>link_in := []\<rparr>) w"
  have "works_on (link c) (bnd (logged (map_while_forward (\<lambda>m. ret (proxy_message_step m)) client_write
      (link_in (links w ! link c)))) (\<lambda>_. client_close))"
    by (rule other_links.adds_bnd other_links.adds_logged other_links.adds_forward works_on_own
        other_links.adds_ret TrueI order_refl)+
  from adds_from [OF this, of ?w] show ?thesis
    by (simp add: proxy_to_client_task_def others_kept_def update_link_def)
qed

text \<open>C14: a client's service touches its own connection only.  Whatever the client sends, the proxy
  answers and the network does, and also when it fails or panics, serving a client leaves every
  connection that existed before as it was, and a TCP relay is handed a connection that was opened by
  this service, that exists, and on which the two relay tasks alone work: run in any state, each of
  them leaves every other connection as it is.\<close>

theorem client_owns_connection:
  "case handle_client_connection H env factory socket addr w of (r, w') \<Rightarrow>
     take (length (links w)) (links w') = links w
     \<and> (case r of
          Inr (TcpTasks c user_token enc) \<Rightarrow>
            length (links w) \<le> link c \<and> link c < length (links w')
            \<and> (\<forall>v. others_kept (link c) v (snd (client_to_proxy_task env user_token enc c v))
                 \<and> others_kept (link c) v (snd (proxy_to_client_task c v)))
        | _ \<Rightarrow> True)"
proof -
  obtain r w' where run: "handle_client_connection H env factory socket addr w = (r, w')"
    by fastforce
  note * = agent_links.adds_run [OF opens_handle_client run]
  have "take (length (links w)) (links w') = links w"
    using *(1) by (simp add: links_kept_def)
  moreover have "length (links w) \<le> link c \<and> link c < length (links w')" if "r = Inr (TcpTasks c u enc)" for c u enc
    using *(2) [OF that] by (auto simp: own_def)
  ultimately show ?thesis
    using client_to_proxy_task_own proxy_to_client_task_own
    by (auto simp: run split: sum.split served.split)
qed

end
