(* ===== verification/EntryPoints.thy ===== *)
theory EntryPoints
  imports Keys AgentRelay ProxyServer
begin

text \<open>
  The two programs: \<open>main\<close> of \<open>agent/src/bin/bin.rs\<close> and of \<open>proxy/src/main.rs\<close>, and the values
  that are computed once on first use (\<open>lazy_static\<close>): the configurations, the key stores and the
  factory of connections.  Logging to the configured files, parsing TOML, the runtime and
  the sockets are a parameter.
\<close>

section \<open>What the programs run on\<close>

text \<open>
  \<open>build_runtime\<close> is \<open>Builder::new_multi_thread\<close> up to \<open>build\<close> for a number of worker threads: it
  may fail, and it may panic (its documentation: for no threads at all).  \<open>'conf\<close> is the type of the
  configuration, \<open>'acc\<close> that of the outcome of an accept.
\<close>

record ('conf, 'acc) host =
  init_log_file :: "string \<Rightarrow> ext_error + unit"
  read_to_string :: "string \<Rightarrow> io_error + string"
  config_from_str :: "string \<Rightarrow> ext_error + 'conf"
  build_runtime :: "u64 \<Rightarrow> io_error failure + unit"
  bind_tcp :: "string \<Rightarrow> io_error + unit"
  accepts :: "'acc list"

datatype anyhow_error =
    LogInit ext_error
  | RuntimeBuild io_error

text \<open>A \<open>main\<close> that has not failed has returned, or its server has spawned a task for these clients and goes on.\<close>

datatype program =
    Returned
  | Serving "SocketAddr list"

definition expect_ok :: "'e + 'a \<Rightarrow> 'f failure + 'a" where
  "expect_ok r = (case r of Inl e \<Rightarrow> Inl Panic | Inr x \<Rightarrow> Inr x)"

definition bind_res :: "'e failure + 'a \<Rightarrow> ('a \<Rightarrow> 'e failure + 'b) \<Rightarrow> 'e failure + 'b" where
  "bind_res r f = (case r of Inl e \<Rightarrow> Inl e | Inr x \<Rightarrow> f x)"

definition try_failure :: "('e \<Rightarrow> 'f) \<Rightarrow> 'e failure + 'a \<Rightarrow> 'f failure + 'a" where
  "try_failure f r = (case r of Inl (Err e) \<Rightarrow> Inl (Err (f e)) | Inl Panic \<Rightarrow> Inl Panic | Inr x \<Rightarrow> Inr x)"

definition or_return :: "('e \<Rightarrow> 'f) \<Rightarrow> 'e + 'a \<Rightarrow> 'f failure + 'a" where
  "or_return f r = (case r of Inl e \<Rightarrow> Inl (Err (f e)) | Inr x \<Rightarrow> Inr x)"

lemmas result_defs = expect_ok_def bind_res_def try_failure_def or_return_def

section \<open>Values computed on first use\<close>

definition AGENT_CONFIG :: "(AgentConfig, 'acc) host \<Rightarrow> 'e failure + AgentConfig" where
  "AGENT_CONFIG host =
     bind_res (expect_ok (read_to_string host ''resources/config/ppaass-agent.toml'')) (\<lambda>agent_configuration_file.
     expect_ok (config_from_str host agent_configuration_file))"

definition PROXY_CONFIG :: "(ProxyConfig, 'acc) host \<Rightarrow> 'e failure + ProxyConfig" where
  "PROXY_CONFIG host =
     bind_res (expect_ok (read_to_string host ''resources/config/ppaass-proxy.toml'')) (\<lambda>configuration_file.
     expect_ok (config_from_str host configuration_file))"

definition agent_RSA_CRYPTO ::
  "('pk, 'sk, 'z) crypto_lib_scheme \<Rightarrow> file_system \<Rightarrow> AgentConfig \<Rightarrow> 'e failure + ('pk, 'sk) key_cache" where
  "agent_RSA_CRYPTO L fs conf = expect_ok (agent_fetcher_new L fs conf)"

definition proxy_RSA_CRYPTO ::
  "('pk, 'sk, 'z) crypto_lib_scheme \<Rightarrow> file_system \<Rightarrow> ProxyConfig \<Rightarrow> 'e failure + ('pk, 'sk) key_cache" where
  "proxy_RSA_CRYPTO L fs conf = expect_ok (proxy_fetcher_new L fs conf)"

text \<open>The factory's \<open>new\<close> panics itself where there is no address; it never returns an error.\<close>

definition PROXY_CONNECTION_FACTORY :: "agent_env \<Rightarrow> 'e failure + ProxyConnectionFactory" where
  "PROXY_CONNECTION_FACTORY env = expect_ok (factory_new env)"

section \<open>The programs\<close>

definition AGENT_LOG_CONFIG_PATH :: string where
  "AGENT_LOG_CONFIG_PATH = ''resources/config/ppaass-agent-log.yml''"

definition PROXY_LOG_CONFIG_FILE_PATH :: string where
  "PROXY_LOG_CONFIG_FILE_PATH = ''resources/config/ppaass-proxy-log.yml''"

text \<open>The agent: an error of the server is logged and \<open>main\<close> returns \<open>Ok\<close>.\<close>

definition agent_main ::
  "(AgentConfig, io_error + io_error option \<times> SocketAddr) host \<Rightarrow> anyhow_error failure + program" where
  "agent_main host =
     bind_res (or_return LogInit (init_log_file host AGENT_LOG_CONFIG_PATH)) (\<lambda>_.
     bind_res (AGENT_CONFIG host) (\<lambda>conf.
     bind_res (try_failure RuntimeBuild (build_runtime host (agent_get_worker_thread_number conf))) (\<lambda>_.
     case agent_server_start conf (bind_tcp host) (accepts host) of
       Inl e \<Rightarrow> Inr Returned
     | Inr clients \<Rightarrow> Inr (Serving clients))))"

text \<open>The proxy: an error of the server is a panic.\<close>

definition proxy_main :: "(ProxyConfig, agent_accept) host \<Rightarrow> anyhow_error failure + program" where
  "proxy_main host =
     bind_res (or_return LogInit (init_log_file host PROXY_LOG_CONFIG_FILE_PATH)) (\<lambda>_.
     bind_res (PROXY_CONFIG host) (\<lambda>conf.
     bind_res (try_failure RuntimeBuild (build_runtime host (proxy_get_worker_thread_number conf))) (\<lambda>_.
     case proxy_server_start conf (bind_tcp host) (accepts host) of
       Inl e \<Rightarrow> Inl Panic
     | Inr agents \<Rightarrow> Inr (Serving agents))))"

section \<open>Properties\<close>

text \<open>
  The agent serves exactly when everything before the accept loop worked, and then every client
  whose connection could be accepted and set up, in order.  It never reports why it could not
  listen: its \<open>main\<close> returns without an error.
\<close>

lemma agent_main_serves:
  "agent_main host = Inr (Serving clients) \<longleftrightarrow>
     (\<exists>text conf. init_log_file host AGENT_LOG_CONFIG_PATH = Inr ()
        \<and> read_to_string host ''resources/config/ppaass-agent.toml'' = Inr text
        \<and> config_from_str host text = Inr conf
        \<and> build_runtime host (agent_get_worker_thread_number conf) = Inr ()
        \<and> bind_tcp host (agent_bind_addr conf) = Inr ()
        \<and> clients = List.map_filter (\<lambda>x. case x of Inr (None, a) \<Rightarrow> Some a | _ \<Rightarrow> None) (accepts host))"
proof -
  have loop: "agent_accept_loop outcomes =
      List.map_filter (\<lambda>x. case x of Inr (None, a) \<Rightarrow> Some a | _ \<Rightarrow> None) outcomes" for outcomes
    by (induction outcomes)
      (auto simp: accept_client_connection_def map_filter_simps split: sum.splits option.splits prod.splits)
  show ?thesis
    by (auto simp: agent_main_def AGENT_CONFIG_def result_defs agent_server_start_def loop
        split: sum.splits failure.splits)
qed

lemma proxy_main_serves:
  "proxy_main host = Inr (Serving agents) \<longleftrightarrow>
     (\<exists>text conf. init_log_file host PROXY_LOG_CONFIG_FILE_PATH = Inr ()
        \<and> read_to_string host ''resources/config/ppaass-proxy.toml'' = Inr text
        \<and> config_from_str host text = Inr conf
        \<and> build_runtime host (proxy_get_worker_thread_number conf) = Inr ()
        \<and> bind_tcp host (proxy_bind_addr conf) = Inr ()
        \<and> agents = List.map_filter (\<lambda>x. case x of Inr (None, None, a) \<Rightarrow> Some a | _ \<Rightarrow> None) (accepts host))"
proof -
  have loop: "proxy_accept_loop outcomes =
      List.map_filter (\<lambda>x. case x of Inr (None, None, a) \<Rightarrow> Some a | _ \<Rightarrow> None) outcomes" for outcomes
    by (induction outcomes)
      (auto simp: accept_agent_connection_def map_filter_simps split: sum.splits option.splits prod.splits)
  show ?thesis
    by (auto simp: proxy_main_def PROXY_CONFIG_def result_defs proxy_server_start_def loop
        split: sum.splits failure.splits)
qed

lemma proxy_main_never_returns: "proxy_main host \<noteq> Inr Returned"
  by (auto simp: proxy_main_def result_defs split: sum.splits failure.splits)

lemma agent_main_returns:
  "agent_main host = Inr Returned \<longleftrightarrow>
     (\<exists>conf e. init_log_file host AGENT_LOG_CONFIG_PATH = Inr () \<and> AGENT_CONFIG host = (Inr conf :: unit failure + AgentConfig)
        \<and> build_runtime host (agent_get_worker_thread_number conf) = Inr ()
        \<and> bind_tcp host (agent_bind_addr conf) = Inl e)"
  by (auto simp: agent_main_def AGENT_CONFIG_def result_defs agent_server_start_def
      split: sum.splits failure.splits)

text \<open>
  A proxy address of the configuration that does not parse is dropped without a word as long as one address
  parses; with none, the first client that needs the proxy panics its task.
\<close>

lemma PROXY_CONNECTION_FACTORY_cases:
  "PROXY_CONNECTION_FACTORY env =
     (if \<forall>a \<in> set (agent_get_proxy_addresses (config env)). socket_addr_from_str env a = None then Inl Panic
      else Inr \<lparr>factory_addresses = List.map_filter (socket_addr_from_str env) (agent_get_proxy_addresses (config env))\<rparr>)"
proof -
  have "List.map_filter f xs = [] \<longleftrightarrow> (\<forall>a \<in> set xs. f a = None)" for f :: "string \<Rightarrow> SocketAddr option" and xs
    by (induction xs) (auto simp: map_filter_simps split: option.splits)
  then show ?thesis
    by (simp add: PROXY_CONNECTION_FACTORY_def factory_new_def result_defs Let_def)
qed

end
