(* ===== verification/Spec2Isabelle.thy ===== *)
theory Spec2Isabelle
  imports Utf8 WireSamples KeySamples AgentSamples TunnelSamples ConnectionSamples SessionSamples Ownership
    EntryPoints
begin

text \<open>
  PPAASS: a verification development for a tunnel in two halves.

  The program.  An agent runs near the user and accepts SOCKS 5 and HTTP proxy clients; a proxy
  runs far away and connects to destinations.  Between them runs a private protocol: frames with
  a flag, a length and a header of thirteen bytes, whose body is a compressed, serialised message
  with a payload encrypted by AES under a random token that is itself encrypted by RSA.  The
  crates are \<open>common\<close> (errors, addresses, messages, crypto, the two codecs, the key fetcher
  interface), \<open>agent\<close> (key store, dispatcher, SOCKS and HTTP handshakes, relay, server), \<open>proxy\<close>
  (key store, TCP and UDP handlers, transport, server) and \<open>tool\<close> (key generation).

  How the parts interact.  \<open>agent/src/server.rs\<close> accepts a client; \<open>transport/dispatcher.rs\<close> looks
  at the first byte and chooses SOCKS or HTTP; the handshake dials the proxy
  (\<open>agent/src/connection.rs\<close>), sends an init message through \<open>common/src/codec/proxy.rs\<close> and waits
  for the answer; \<open>proxy/src/server.rs\<close> accepts the connection, \<open>proxy/src/transport/mod.rs\<close> reads
  the init message through \<open>common/src/codec/agent.rs\<close>, connects to the destination and answers;
  then two tasks on each side copy data both ways until a direction ends.

  Theories and sources.
  \<^item> \<open>Prelude\<close>: bytes, text, the result-and-state monad \<open>rust\<close> (an error, a panic or a value,
    and the state the call leaves behind), the byte-buffer readers and writers.
  \<^item> \<open>Errors\<close>: the three \<open>error.rs\<close>.  \<open>Utf8\<close>: validity and lossy conversion of text.
  \<^item> \<open>Address\<close>, \<open>Message\<close>, \<open>Crypto\<close>: \<open>common/src/message\<close>, \<open>common/src/crypto\<close> and the message
    generator.
  \<^item> \<open>Framing\<close>: the contract of \<open>tokio_util\<close> between a connection and a decoder, as two locales:
    \<open>stream_decoder\<close> (a decoder that waits, or finds an item, does the same whatever bytes follow)
    and \<open>robust_decoder\<close>, which extends it by the same law for errors and a measure that every
    item lowers; inside it the cutting of the stream is proved irrelevant.  The dispatcher's
    and the two SOCKS decoders interpret the first (\<open>switch\<close>, \<open>socks_auth\<close>, \<open>socks_init\<close>), the two
    connection codecs the second (\<open>agent_codec\<close>, \<open>proxy_codec\<close>).
  \<^item> \<open>ConnectionCodec\<close>, \<open>AgentCodec\<close>, \<open>ProxyCodec\<close>: \<open>common/src/codec\<close>; the parts the two files
    share are stated once.
  \<^item> \<open>Wire\<close>: both codecs facing each other.
  \<^item> \<open>Duplex\<close>: the other half of the contract with \<open>tokio_util\<close>, at the level of polls: what
    \<open>poll_ready\<close>, \<open>start_send\<close>, \<open>poll_flush\<close>, \<open>poll_close\<close> and \<open>poll_next\<close> do to the codec and the two
    buffers of a framed object, with partial writes and short reads, and runs of one in any
    order of calls.  \<open>Connection\<close>: \<open>common/src/connection\<close>, both types with every method.
    \<open>ClientConnection\<close>: the two halves of a client's connection in \<open>agent/src/transport/mod.rs\<close>.
  \<^item> \<open>Config\<close>, \<open>Keys\<close>: the two \<open>config.rs\<close>, the two \<open>crypto.rs\<close>, the key fetcher interface and the
    generation of keys of \<open>common/src/crypto/rsa.rs\<close> and \<open>tool/src/main.rs\<close>.
    Both stores interpret the locale \<open>key_store\<close> (\<open>agent_store\<close>, \<open>proxy_store\<close>).
  \<^item> \<open>SocksMessage\<close>, \<open>SocksCodec\<close>: \<open>agent/src/transport/socks/message\<close> and \<open>socks/codec.rs\<close>.
  \<^item> \<open>AgentNet\<close>, \<open>Dispatcher\<close>, \<open>SocksHandshake\<close>, \<open>Http\<close>, \<open>AgentRelay\<close>: \<open>agent/src/connection.rs\<close>,
    \<open>transport/dispatcher.rs\<close>, \<open>transport/socks/mod.rs\<close>, \<open>transport/http\<close>, \<open>transport/mod.rs\<close> and
    \<open>server.rs\<close>.
  \<^item> \<open>Streams\<close>: the stream combinators the relay tasks are built from, and the locale
    \<open>stream_encoder\<close> (an encoder appends and looks at nothing before), interpreted by the two
    connection codecs and the two SOCKS codecs (\<open>agent_encoder\<close>, \<open>proxy_encoder\<close>,
    \<open>socks_auth_encoder\<close>, \<open>socks_init_encoder\<close>).
  \<^item> \<open>Ownership\<close>: which connections serving a client can touch; the locale \<open>growing\<close> (what is there
    is kept, more may come) is interpreted for the connections a service opens
    (\<open>agent_links\<close>) and for those a relay task does not own (\<open>other_links\<close>).
  \<^item> \<open>ProxyNet\<close>, \<open>TcpHandler\<close>, \<open>UdpHandler\<close>, \<open>ProxyServer\<close>: \<open>proxy/src/transport\<close> and
    \<open>proxy/src/server.rs\<close>.
  \<^item> \<open>Tunnel\<close>, \<open>TunnelMachine\<close>: the two halves together, first as complete runs, then as a step
    relation in which all parties interleave freely.  \<open>Session\<close>, \<open>UdpSession\<close>: whole sessions, from the
    client's first byte, or its datagram, to the destination and, for UDP, back.
  \<^item> \<open>EntryPoints\<close>: the two \<open>main\<close> functions and the values computed on first use.
  \<^item> \<open>SampleLib\<close>, \<open>WireSamples\<close>, \<open>KeySamples\<close>, \<open>AgentSamples\<close>, \<open>TunnelSamples\<close>, \<open>ConnectionSamples\<close>,
    \<open>SessionSamples\<close>: concrete instances of the libraries and the theorems applied to them; they
    model no code.

  State.  A codec's state is the record of its Rust fields (\<open>codec\<close>: fetcher, status, length and
  compression flag of the frame being read).  A buffer is the list of its readable bytes; the
  operations of \<open>bytes\<close> that would read past the end panic, as they do in Rust.  A task of the
  agent works on an \<open>agent_world\<close>, a task of the proxy on a \<open>proxy_world\<close>: what the peers will send
  and which operations will fail is a script there, what the task sends is collected there.  The
  server's count of transports is a 64-bit word that wraps, as \<open>AtomicU64\<close> does.

  What is shown.
  \<^item> Codecs: a message encoded on one side decodes to itself on the other, alone and in any
    sequence, under any cutting of the byte stream; which inputs make a decoder panic, which
    are refused, and that an encode that fails half way leaves the reader stuck.  Reading ends,
    and a decoder that waits leaves less than a header or less than the announced body.
  \<^item> Connections: in any order of polls, with partial writes, short reads and traffic both ways,
    one side has received a prefix of what the other has sent, and all of it once nothing is
    buffered or in flight.
  \<^item> SOCKS: round trips of addresses and packets, the exact language of the readers, what the
    readers do with a request that arrives in pieces, names too long for their length byte.
  \<^item> Handshakes: the first byte decides; a refused CONNECT has touched nothing; success is
    reported to the client only after the proxy reported it to the agent; complete runs of SOCKS
    and HTTP handshakes.  Serving a client touches no connection but its own.
  \<^item> Sessions: SOCKS CONNECT, HTTP and one UDP datagram, through dispatch, handshake, relay, both
    codecs and the proxy's handler, deliver exactly the client's bytes to the destination it named.
  \<^item> Relays: each of the four tasks forwards exactly what it reads up to its first failure; the
    composition delivers the client's bytes to the destination and back; in every interleaving
    what has been delivered is a prefix of what was sent, and every reachable state can be
    drained.
  \<^item> Proxy: an init message is answered according to the outcome of connecting, a datagram is
    exchanged once, the count of transports is the number of running ones plus the leaked ones,
    which paths leak, and the server's functions are paths of the machine that counts.
  \<^item> Keys: generated keys fit together across the two sides; a key store holds exactly the users
    whose files load.

  Bounds.  No definition uses fuel that a run could exhaust, with one exception: the loop that
  takes items out of a buffer runs for the rank of the decoder's state plus one, and the law of
  \<open>robust_decoder\<close> that every item lowers the rank makes that enough (\<open>codec_rank\<close> for the two
  codecs).  Scripts are finite lists, so an accept loop or a receive loop ends when its script
  does, which stands for a task that goes on waiting.

  Parameters.  AES, RSA, PEM, compression, serialisation, the random source, HTTP and URL parsing
  and name resolution are not in the repository: they are arguments of the definitions, and the
  theorems that need them assume their documented laws (\<open>aes_law\<close> and the like: decrypting inverts
  encrypting, decompressing inverts compressing), which \<open>SampleLib\<close> shows satisfiable.

  Not modelled.  Logging; the runtime's scheduler and cancellation of tasks; allocation, apart from
  the reservation a frame header asks for.  In the handshakes and relays a write to a socket
  succeeds as a whole or fails as a whole; writes in parts are the matter of \<open>Connection\<close> and
  \<open>ClientConnection\<close>.

  Plan for what comes next.  The four relay tasks as one contract; a UDP association with many datagrams and the end of its control connection; the
  sessions over the framed connections of \<open>Connection\<close> in place of lists of messages.
\<close>

end
